(* ===== verification/Relay_Prelude.thy ===== *)
theory Relay_Prelude
  imports Main
    "HOL-Library.AList"
    "HOL-Library.Char_ord"
    "HOL-Library.List_Lexorder"
    "HOL-Library.Multiset"
    "HOL-Library.Sublist"
    "HOL-Library.Word"
begin

text \<open>
  What every component theory shares: Go's fixed-width integers, Go maps as association lists with
  distinct keys, the comparator-driven slice sorts of package sort, and the string functions of
  package strings that the Relay calls.

  \<^item> Signed 64-bit arithmetic is arithmetic on \<^typ>\<open>int\<close> followed by \<open>wrap64\<close>, so that overflow
    is written where the source can overflow; \<^typ>\<open>32 word\<close> and \<^typ>\<open>64 word\<close> are the unsigned
    wire integers.
  \<^item> A Go map is a list of key-value pairs without duplicate keys (\<open>gomap_wf\<close>). The order of the
    list stands for one iteration order of the map; a statement about an iteration is a statement
    about every such order.
  \<^item> Go strings are byte sequences, and \<^typ>\<open>char\<close> is a byte, so \<^typ>\<open>string\<close> is a Go string and
    \<^const>\<open>length\<close> is Go's len.
\<close>

section \<open>Collections of rewrite rules\<close>

named_theorems relay_defs \<open>definitions that unfold to a plain expression\<close>
named_theorems gomap_simps \<open>rewriting of lookups in updated maps\<close>
named_theorems error_simps \<open>early returns on errors, read backwards from the success\<close>

section \<open>Fixed-width integers\<close>

type_synonym uint32 = "32 word"
type_synonym uint64 = "64 word"

definition wrap64 :: "int \<Rightarrow> int" where
  "wrap64 x = (x + 2 ^ 63) mod 2 ^ 64 - 2 ^ 63"

definition int64_range :: "int \<Rightarrow> bool" where
  "int64_range x \<longleftrightarrow> - (2 ^ 63) \<le> x \<and> x < 2 ^ 63"

definition wrap32 :: "int \<Rightarrow> int" where
  "wrap32 x = (x + 2 ^ 31) mod 2 ^ 32 - 2 ^ 31"

lemma wrap32_id: "- (2 ^ 31) \<le> x \<Longrightarrow> x < 2 ^ 31 \<Longrightarrow> wrap32 x = x"
  by (simp add: wrap32_def)

lemma wrap64_id: "int64_range x \<Longrightarrow> wrap64 x = x"
  by (simp add: wrap64_def int64_range_def)

lemma wrap64_range: "int64_range (wrap64 x)"
proof -
  have "0 \<le> (x + 2 ^ 63) mod 2 ^ 64" and "(x + 2 ^ 63) mod 2 ^ 64 < 2 ^ 64"
    by simp_all
  then show ?thesis
    by (simp add: wrap64_def int64_range_def)
qed

lemma int64_rangeI: "- (2 ^ 63) \<le> x \<Longrightarrow> x < 2 ^ 63 \<Longrightarrow> int64_range x"
  by (simp add: int64_range_def)

section \<open>Go maps\<close>

type_synonym ('k, 'v) gomap = "('k \<times> 'v) list"

definition gomap_wf :: "('k, 'v) gomap \<Rightarrow> bool" where
  "gomap_wf m \<longleftrightarrow> distinct (map fst m)"

definition gomap_get :: "('k, 'v) gomap \<Rightarrow> 'k \<Rightarrow> 'v option" where
  "gomap_get m k = map_of m k"

definition gomap_has :: "('k, 'v) gomap \<Rightarrow> 'k \<Rightarrow> bool" where
  "gomap_has m k \<longleftrightarrow> map_of m k \<noteq> None"

definition gomap_set :: "'k \<Rightarrow> 'v \<Rightarrow> ('k, 'v) gomap \<Rightarrow> ('k, 'v) gomap" where
  "gomap_set k v m = AList.update k v m"

definition gomap_del :: "'k \<Rightarrow> ('k, 'v) gomap \<Rightarrow> ('k, 'v) gomap" where
  "gomap_del k m = AList.delete k m"

definition gomap_keys :: "('k, 'v) gomap \<Rightarrow> 'k list" where
  "gomap_keys m = map fst m"

lemma gomap_wf_Nil [simp, intro]: "gomap_wf []"
  by (simp add: gomap_wf_def)

lemma gomap_get_Nil [simp]: "gomap_get [] k = None"
  by (simp add: gomap_get_def)

lemma gomap_has_Nil [simp]: "\<not> gomap_has [] k"
  by (simp add: gomap_has_def)

lemma gomap_keys_Nil [simp]: "gomap_keys [] = []"
  by (simp add: gomap_keys_def)

lemma gomap_wf_set [simp, intro]: "gomap_wf m \<Longrightarrow> gomap_wf (gomap_set k v m)"
  by (simp add: gomap_wf_def gomap_set_def distinct_update)

lemma gomap_wf_del [simp, intro]: "gomap_wf m \<Longrightarrow> gomap_wf (gomap_del k m)"
  by (simp add: gomap_wf_def gomap_del_def distinct_delete)

lemma gomap_get_set [gomap_simps]:
  "gomap_get (gomap_set k v m) k' = (if k' = k then Some v else gomap_get m k')"
  by (simp add: gomap_get_def gomap_set_def update_conv')

lemma gomap_get_del [gomap_simps]:
  "gomap_get (gomap_del k m) k' = (if k' = k then None else gomap_get m k')"
  by (simp add: gomap_get_def gomap_del_def delete_conv')

lemma gomap_has_get: "gomap_has m k \<longleftrightarrow> (\<exists>v. gomap_get m k = Some v)"
  by (simp add: gomap_has_def gomap_get_def)

lemma gomap_has_None: "gomap_has m k \<longleftrightarrow> gomap_get m k \<noteq> None"
  by (simp add: gomap_has_def gomap_get_def)

lemma gomap_has_set [gomap_simps]:
  "gomap_has (gomap_set k v m) k' \<longleftrightarrow> k' = k \<or> gomap_has m k'"
  by (auto simp: gomap_has_get gomap_simps)

lemma gomap_has_del [gomap_simps]:
  "gomap_has (gomap_del k m) k' \<longleftrightarrow> k' \<noteq> k \<and> gomap_has m k'"
  by (auto simp: gomap_has_get gomap_simps)

lemma gomap_has_iff_key: "gomap_has m k \<longleftrightarrow> k \<in> set (gomap_keys m)"
  by (force simp: gomap_has_def gomap_keys_def map_of_eq_None_iff)

lemma gomap_get_iff_mem:
  "gomap_wf m \<Longrightarrow> gomap_get m k = Some v \<longleftrightarrow> (k, v) \<in> set m"
  by (simp add: gomap_get_def gomap_wf_def)

lemma gomap_get_has: "gomap_get m k = Some v \<Longrightarrow> gomap_has m k"
  by (simp add: gomap_has_get)

lemma gomap_keys_set:
  "gomap_keys (gomap_set k v m) =
     (if gomap_has m k then gomap_keys m else gomap_keys m @ [k])"
  by (simp add: gomap_keys_def gomap_set_def gomap_has_iff_key [unfolded gomap_keys_def]
      update_keys)

lemma length_gomap_set:
  "length (gomap_set k v m) = (if gomap_has m k then length m else Suc (length m))"
proof -
  have "length (gomap_keys (gomap_set k v m)) =
      (if gomap_has m k then length m else Suc (length m))"
    by (simp add: gomap_keys_set) (simp add: gomap_keys_def)
  then show ?thesis by (simp add: gomap_keys_def)
qed

lemma length_AList_delete:
  "distinct (map fst m) \<Longrightarrow>
   length (AList.delete k m) = (if k \<in> fst ` set m then length m - 1 else length m)"
proof (induction m)
  case Nil
  then show ?case by simp
next
  case (Cons p m)
  have "k \<in> fst ` set m \<Longrightarrow> 0 < length m" by (cases m) auto
  then show ?case using Cons by auto
qed

lemma length_gomap_del:
  "gomap_wf m \<Longrightarrow>
   length (gomap_del k m) = (if gomap_has m k then length m - 1 else length m)"
  by (simp add: gomap_wf_def gomap_del_def gomap_has_iff_key gomap_keys_def length_AList_delete)

lemma gomap_has_length_pos: "gomap_has m k \<Longrightarrow> 0 < length m"
  by (cases m) auto

text \<open>
  The map interface a client relies on: what a lookup gives after a write or a delete, and that
  the representation stays a map. The interpretation below is the model of Go's map type.
\<close>

locale map_store =
  fixes empty :: "'m"
    and get :: "'m \<Rightarrow> 'k \<Rightarrow> 'v option"
    and put :: "'k \<Rightarrow> 'v \<Rightarrow> 'm \<Rightarrow> 'm"
    and del :: "'k \<Rightarrow> 'm \<Rightarrow> 'm"
    and size_of :: "'m \<Rightarrow> nat"
    and wf :: "'m \<Rightarrow> bool"
  assumes wf_empty: "wf empty"
    and wf_put: "wf m \<Longrightarrow> wf (put k v m)"
    and wf_del: "wf m \<Longrightarrow> wf (del k m)"
    and get_empty: "get empty k = None"
    and get_put: "get (put k v m) k' = (if k' = k then Some v else get m k')"
    and get_del: "get (del k m) k' = (if k' = k then None else get m k')"
    and size_empty: "size_of empty = 0"
    and size_put: "size_of (put k v m) = (if get m k = None then Suc (size_of m) else size_of m)"
    and size_del: "wf m \<Longrightarrow> size_of (del k m) = (if get m k = None then size_of m else size_of m - 1)"
begin

text \<open>Folding writes over a list of pairs: the last write of a key wins.\<close>

lemma get_fold_put_other:
  "k \<notin> set (map f xs) \<Longrightarrow> get (fold (\<lambda>x. put (f x) (g x)) xs m) k = get m k"
  by (induction xs arbitrary: m) (simp_all add: get_put)

lemma wf_fold_put: "wf m \<Longrightarrow> wf (fold (\<lambda>x. put (f x) (g x)) xs m)"
  by (induction xs arbitrary: m) (simp_all add: wf_put)

lemma get_fold_put_mem:
  assumes "\<And>x y. x \<in> set xs \<Longrightarrow> y \<in> set xs \<Longrightarrow> f x = f y \<Longrightarrow> g x = g y" and "x \<in> set xs"
  shows "get (fold (\<lambda>x. put (f x) (g x)) xs m) (f x) = Some (g x)"
  using assms
proof (induction xs arbitrary: m x)
  case Nil
  then show ?case by simp
next
  case (Cons y ys)
  show ?case
  proof (cases "f x \<in> set (map f ys)")
    case True
    then obtain z where z: "z \<in> set ys" "f z = f x" by auto
    have "get (fold (\<lambda>x. put (f x) (g x)) ys (put (f y) (g y) m)) (f z) = Some (g z)"
      by (rule Cons.IH [OF _ z(1)]) (rule Cons.prems(1), simp_all)
    moreover have "g z = g x"
      by (rule Cons.prems(1)) (use z Cons.prems(2) in simp_all)
    ultimately show ?thesis using z by simp
  next
    case False
    then have "x \<notin> set ys" by auto
    then have "x = y" using Cons.prems(2) by simp
    then show ?thesis using False by (simp add: get_fold_put_other get_put)
  qed
qed

lemma get_put_same: "get (put k v m) k = Some v"
  by (simp add: get_put)

end

interpretation gm: map_store "[]" gomap_get gomap_set gomap_del length gomap_wf
  by unfold_locales
    (simp_all add: gomap_get_set gomap_get_del length_gomap_set length_gomap_del gomap_has_None)

lemma gomap_set_fresh: "\<not> gomap_has m k \<Longrightarrow> gomap_set k v m = m @ [(k, v)]"
  by (induction m) (auto simp: gomap_set_def gomap_has_def split: if_splits)

lemma map_gomap_set_same:
  "gomap_get m k = Some e \<Longrightarrow> g v = g e \<Longrightarrow> map (\<lambda>x. g (snd x)) (gomap_set k v m) = map (\<lambda>x. g (snd x)) m"
  by (induction m) (auto simp: gomap_set_def gomap_get_def split: if_splits)

lemma set_keys_foldl_set:
  "set (gomap_keys (foldl (\<lambda>m i. gomap_set i True m) m ids)) = set (gomap_keys m) \<union> set ids"
  by (induction ids arbitrary: m) (auto simp: gomap_has_set simp flip: gomap_has_iff_key)

lemma wf_foldl_set: "gomap_wf m \<Longrightarrow> gomap_wf (foldl (\<lambda>m i. gomap_set i True m) m ids)"
  by (induction ids arbitrary: m) simp_all

section \<open>Sorting slices\<close>

text \<open>
  \<open>sort_slice lt\<close> is sort.SliceStable with the comparator \<open>lt\<close>: insertion of each element
  before the first one that is not smaller, from the back of the slice, which keeps equal
  elements in their order. For a comparator that is total on the slice it is also sort.Slice.
\<close>

fun slice_insert :: "('a \<Rightarrow> 'a \<Rightarrow> bool) \<Rightarrow> 'a \<Rightarrow> 'a list \<Rightarrow> 'a list" where
  "slice_insert lt x [] = [x]"
| "slice_insert lt x (y # ys) = (if lt y x then y # slice_insert lt x ys else x # y # ys)"

definition sort_slice :: "('a \<Rightarrow> 'a \<Rightarrow> bool) \<Rightarrow> 'a list \<Rightarrow> 'a list" where
  "sort_slice lt xs = foldr (slice_insert lt) xs []"

lemma mset_slice_insert [simp]: "mset (slice_insert lt x ys) = add_mset x (mset ys)"
  by (induction ys) auto

lemma mset_sort_slice [simp]: "mset (sort_slice lt xs) = mset xs"
  by (induction xs) (simp_all add: sort_slice_def)

lemma set_sort_slice [simp]: "set (sort_slice lt xs) = set xs"
  by (metis mset_sort_slice set_mset_mset)

lemma length_sort_slice [simp]: "length (sort_slice lt xs) = length xs"
  by (metis mset_sort_slice size_mset)

lemma distinct_sort_slice [simp]: "distinct (sort_slice lt xs) = distinct xs"
  by (metis mset_eq_imp_distinct_iff mset_sort_slice)

lemma sort_slice_Nil [simp]: "sort_slice lt [] = []"
  by (simp add: sort_slice_def)

lemma sort_slice_Nil_iff [simp]: "sort_slice lt xs = [] \<longleftrightarrow> xs = []"
  by (metis length_sort_slice length_0_conv)

lemma slice_insert_least: "\<forall>y \<in> set ys. \<not> lt y x \<Longrightarrow> slice_insert lt x ys = x # ys"
  by (cases ys) simp_all

lemma sort_slice_sorted: "sorted_wrt (\<lambda>a b. \<not> lt b a) xs \<Longrightarrow> sort_slice lt xs = xs"
  by (induction xs) (simp_all add: sort_slice_def slice_insert_least)

locale slice_order =
  fixes lt :: "'a \<Rightarrow> 'a \<Rightarrow> bool"
  assumes irrefl: "\<not> lt x x"
    and trans: "lt x y \<Longrightarrow> lt y z \<Longrightarrow> lt x z"
    and incomparable_trans: "\<not> lt y x \<Longrightarrow> \<not> lt z y \<Longrightarrow> \<not> lt z x"
begin

lemma asym: "lt x y \<Longrightarrow> \<not> lt y x"
  using irrefl trans by blast

lemma sorted_insert:
  "sorted_wrt (\<lambda>a b. \<not> lt b a) ys \<Longrightarrow> sorted_wrt (\<lambda>a b. \<not> lt b a) (slice_insert lt x ys)"
proof (induction ys)
  case Nil
  then show ?case by simp
next
  case (Cons y ys)
  have set_ins: "set (slice_insert lt x ys) = insert x (set ys)"
    by (metis mset_slice_insert set_mset_add_mset_insert set_mset_mset)
  show ?case
  proof (cases "lt y x")
    case True
    with Cons show ?thesis by (auto simp: set_ins dest: asym)
  next
    case False
    with Cons show ?thesis using incomparable_trans by auto
  qed
qed

lemma sorted: "sorted_wrt (\<lambda>a b. \<not> lt b a) (sort_slice lt xs)"
  unfolding sort_slice_def by (induction xs) (simp_all add: sorted_insert)

lemma insert_filter_equal:
  assumes "sorted_wrt (\<lambda>a b. \<not> lt b a) ys"
  shows "filter (\<lambda>a. \<not> lt a k \<and> \<not> lt k a) (slice_insert lt x ys) =
    (if \<not> lt x k \<and> \<not> lt k x then x # filter (\<lambda>a. \<not> lt a k \<and> \<not> lt k a) ys
     else filter (\<lambda>a. \<not> lt a k \<and> \<not> lt k a) ys)"
  using assms
proof (induction ys)
  case Nil
  then show ?case by simp
next
  case (Cons y ys)
  have "lt y x \<Longrightarrow> \<not> lt x k \<Longrightarrow> \<not> lt k x \<Longrightarrow> lt y k"
    using incomparable_trans by blast
  then show ?case using Cons by auto
qed

lemma stable:
  "filter (\<lambda>a. \<not> lt a k \<and> \<not> lt k a) (sort_slice lt xs) =
   filter (\<lambda>a. \<not> lt a k \<and> \<not> lt k a) xs"
proof (induction xs)
  case Nil
  then show ?case by simp
next
  case (Cons x xs)
  have "sort_slice lt (x # xs) = slice_insert lt x (sort_slice lt xs)"
    by (simp add: sort_slice_def)
  then show ?case using Cons insert_filter_equal [OF sorted] by simp
qed

end

locale slice_total_order = slice_order +
  assumes total: "lt x y \<or> x = y \<or> lt y x"
begin

lemma sorted_unique:
  "sorted_wrt (\<lambda>a b. \<not> lt b a) xs \<Longrightarrow> sorted_wrt (\<lambda>a b. \<not> lt b a) ys \<Longrightarrow>
   mset xs = mset ys \<Longrightarrow> xs = ys"
proof (induction xs arbitrary: ys)
  case Nil
  then show ?case by simp
next
  case (Cons x xs)
  then obtain y ys' where ys: "ys = y # ys'" by (cases ys) auto
  have "x \<in> set ys" and "y \<in> set (x # xs)"
    using Cons.prems(3) ys by (metis list.set_intros(1) set_mset_mset)+
  then have "x = y"
    using Cons.prems(1,2) ys total [of x y] by auto
  then show ?case using Cons ys by simp
qed

lemma order_independent: "mset xs = mset ys \<Longrightarrow> sort_slice lt xs = sort_slice lt ys"
  by (rule sorted_unique) (simp_all add: sorted)

lemma strictly_sorted:
  assumes "distinct xs"
  shows "sorted_wrt lt (sort_slice lt xs)"
proof -
  have "sorted_wrt (\<lambda>a b. \<not> lt b a) zs \<Longrightarrow> distinct zs \<Longrightarrow> sorted_wrt lt zs" for zs
  proof (induction zs)
    case Nil
    then show ?case by simp
  next
    case (Cons z zs)
    then have "lt z y" if "y \<in> set zs" for y
      using that total [of z y] by auto
    then show ?case using Cons by simp
  qed
  then show ?thesis using sorted assms by simp
qed

end

text \<open>sort.Strings: byte-wise lexicographic order.\<close>

definition sort_strings :: "string list \<Rightarrow> string list" where
  "sort_strings xs = sort_slice (<) xs"

interpretation so: slice_total_order "(<) :: string \<Rightarrow> string \<Rightarrow> bool"
  by unfold_locales (simp, fact less_trans, simp, fact linorder_less_linear)

lemma set_sort_strings [simp]: "set (sort_strings xs) = set xs"
  by (simp add: sort_strings_def)

lemma length_sort_strings [simp]: "length (sort_strings xs) = length xs"
  by (simp add: sort_strings_def)

lemma distinct_sort_strings [simp]: "distinct (sort_strings xs) = distinct xs"
  by (simp add: sort_strings_def)

lemma sort_strings_order_independent:
  "mset xs = mset ys \<Longrightarrow> sort_strings xs = sort_strings ys"
  unfolding sort_strings_def by (rule so.order_independent)

lemma sort_strings_strict: "distinct xs \<Longrightarrow> sorted_wrt (<) (sort_strings xs)"
  unfolding sort_strings_def by (rule so.strictly_sorted)

text \<open>The sorted keys of a map do not depend on the iteration order.\<close>

definition sorted_map_keys :: "(string, 'v) gomap \<Rightarrow> string list" where
  "sorted_map_keys m = sort_strings (gomap_keys m)"

lemma sorted_map_keys_unique:
  assumes "gomap_wf m" "gomap_wf n" "\<And>k. gomap_has m k = gomap_has n k"
  shows "sorted_map_keys m = sorted_map_keys n"
proof -
  have "set (gomap_keys m) = set (gomap_keys n)"
    using assms(3) by (auto simp: gomap_has_iff_key)
  then have "mset (gomap_keys m) = mset (gomap_keys n)"
    using assms(1,2) unfolding gomap_wf_def gomap_keys_def
    using set_eq_iff_mset_eq_distinct by blast
  then show ?thesis
    unfolding sorted_map_keys_def by (rule sort_strings_order_independent)
qed

section \<open>Error results\<close>

text \<open>An early return on an error, read backwards from the success.\<close>

lemma case_sum_Inr_iff [error_simps]:
  "(case x of Inl e \<Rightarrow> Inl (g e) | Inr y \<Rightarrow> f y) = Inr r \<longleftrightarrow> (\<exists>y. x = Inr y \<and> f y = Inr r)"
  by (cases x) auto

lemma case_option_Some_iff [error_simps]:
  "(case x of None \<Rightarrow> None | Some y \<Rightarrow> f y) = Some r \<longleftrightarrow> (\<exists>y. x = Some y \<and> f y = Some r)"
  by (cases x) auto

lemma case_option_Inr_iff [error_simps]:
  "(case x of None \<Rightarrow> Inl e | Some y \<Rightarrow> f y) = Inr r \<longleftrightarrow> (\<exists>y. x = Some y \<and> f y = Inr r)"
  by (cases x) auto

lemma if_Inl_Inr_iff [error_simps]:
  "(if b then Inl e else x) = Inr r \<longleftrightarrow> \<not> b \<and> x = Inr r"
  by simp

section \<open>Lists\<close>

lemma sum_list_take_le: "sum_list (take n (xs :: nat list)) \<le> sum_list xs"
  by (metis append_take_drop_id le_add1 sum_list_append)

lemma last_take_Suc: "n < length xs \<Longrightarrow> last (take (Suc n) xs) = xs ! n"
  by (simp add: take_Suc_conv_app_nth)

lemma sum_list_map_update:
  "k < length xs \<Longrightarrow>
   int (sum_list (map f (xs[k := x]))) = int (sum_list (map f xs)) + int (f x) - int (f (xs ! k))"
proof (induction xs arbitrary: k)
  case (Cons y ys)
  then show ?case by (cases k) auto
qed simp

lemma nth_update_if: "xs[i := x] ! j = (if i = j \<and> j < length xs then x else xs ! j)"
  by (cases "i < length xs") (auto simp: nth_list_update list_update_beyond)

lemma map_update_same: "i < length xs \<Longrightarrow> f y = f (xs ! i) \<Longrightarrow> map f (xs[i := y]) = map f xs"
  by (metis list_update_id map_update)

end
