(* ===== verification/Relay_Wire.thy ===== *)
theory Relay_Wire
  imports Relay_Prelude
begin

text \<open>
  The wire contract: the messages of gen/go/opencluster/relay/v1 that the Relay reads or builds.
  A message is a record, a oneof a datatype, and an optional (pointer) field an option; the nil-safe
  getters of the generated code are the field selectors, with \<^const>\<open>None\<close> for a nil pointer.
  A proto3 enum is open, so an enum that the Relay receives is an integer (\<open>WorkloadKind\<close>), and an
  enum that the Relay only ever sends is a datatype.

  A timestamp is the instant AsTime gives, in nanoseconds since the Unix epoch; a duration is the
  value AsDuration gives, in nanoseconds.

  \<open>'p JobResult\<close> and \<open>'p RelayToControl\<close> are parametric in the capability payload: executors
  produce the typed \<open>CapabilityResult\<close>, the redaction enforcement point reads and rewrites the
  reflected message tree of the same result, and the session never looks inside.
\<close>

type_synonym timestamp = int
type_synonym duration = int

section \<open>Registration\<close>

record CapabilityDescriptor =
  cd_capability_id :: string
  cd_capability_version :: uint32

record RegisterRequest =
  rq_protocol_version :: uint32
  rq_relay_version :: string
  rq_cluster_fingerprint :: string
  rq_capabilities :: "CapabilityDescriptor list"

record RegisterResponse =
  rs_org_id :: string
  rs_registration_id :: string
  rs_credential :: string
  rs_spki_pins :: "string list"
  rs_protocol_version :: uint32

section \<open>kubernetes.workload.runtime.v1\<close>

text \<open>The received enum WorkloadKind: any int32 may arrive.\<close>

type_synonym WorkloadKind = int

definition WORKLOAD_KIND_UNSPECIFIED :: WorkloadKind where "WORKLOAD_KIND_UNSPECIFIED = 0"
definition WORKLOAD_KIND_DEPLOYMENT :: WorkloadKind where "WORKLOAD_KIND_DEPLOYMENT = 1"
definition WORKLOAD_KIND_STATEFULSET :: WorkloadKind where "WORKLOAD_KIND_STATEFULSET = 2"
definition WORKLOAD_KIND_DAEMONSET :: WorkloadKind where "WORKLOAD_KIND_DAEMONSET = 3"

lemmas WorkloadKind_defs = WORKLOAD_KIND_UNSPECIFIED_def WORKLOAD_KIND_DEPLOYMENT_def
  WORKLOAD_KIND_STATEFULSET_def WORKLOAD_KIND_DAEMONSET_def

record KubernetesWorkloadRuntimeArgsV1 =
  wa_namespace :: string
  wa_workload_kind :: WorkloadKind
  wa_workload_name :: string
  wa_max_pods :: uint32

datatype KubernetesReadOutcome =
  READ_UNSPECIFIED | READ_SUCCESS | READ_UNREACHABLE | READ_UNAUTHORIZED
| READ_WORKLOAD_NOT_FOUND | READ_NAMESPACE_NOT_FOUND | READ_SELECTOR_UNREPRESENTABLE

record KubernetesContainerTermination =
  kt_reason :: string
  kt_exit_code :: int
  kt_finished_at :: "timestamp option"

datatype KubernetesContainerState_Kind =
  STATE_UNSPECIFIED | STATE_RUNNING | STATE_WAITING | STATE_TERMINATED

record KubernetesContainerState =
  ks_kind :: KubernetesContainerState_Kind
  ks_waiting_reason :: string
  ks_running_since :: "timestamp option"
  ks_termination :: "KubernetesContainerTermination option"

record KubernetesContainerRuntime =
  kc_name :: string
  kc_image :: string
  kc_ready :: bool
  kc_restart_count :: int
  kc_state :: KubernetesContainerState
  kc_last_termination :: "KubernetesContainerTermination option"

record KubernetesPodRuntime =
  kp_name :: string
  kp_phase :: string
  kp_node_name :: string
  kp_started_at :: "timestamp option"
  kp_ready :: bool
  kp_unscheduled_reason :: string
  kp_containers :: "KubernetesContainerRuntime list"

record KubernetesContainerResources =
  kr_container :: string
  kr_cpu_request :: string
  kr_cpu_limit :: string
  kr_memory_request :: string
  kr_memory_limit :: string

record KubernetesWorkloadSummary =
  kw_kind :: string
  kw_name :: string
  kw_namespace :: string
  kw_uid :: string
  kw_desired_replicas :: int
  kw_ready_replicas :: int
  kw_updated_replicas :: int
  kw_available_replicas :: int
  kw_generation :: int
  kw_observed_generation :: int
  kw_created_at :: "timestamp option"
  kw_container_images :: "string list"
  kw_container_resources :: "KubernetesContainerResources list"
  kw_selector_summary :: string

record KubernetesWorkloadRuntimeResultV1 =
  wr_outcome :: KubernetesReadOutcome
  wr_workload :: "KubernetesWorkloadSummary option"
  wr_pods :: "KubernetesPodRuntime list"
  wr_returned_pod_count :: int
  wr_complete :: bool
  wr_read_at :: "timestamp option"
  wr_applied_max_pods :: uint32

section \<open>kubernetes.namespace.events.v1\<close>

record KubernetesInvolvedObject =
  io_kind :: string
  io_name :: string
  io_uid :: string

record KubernetesNamespaceEventsArgsV1 =
  ea_namespace :: string
  ea_involved_object :: "KubernetesInvolvedObject option"
  ea_window_start :: "timestamp option"
  ea_window_end :: "timestamp option"
  ea_max_events :: uint32

datatype KubernetesEventsOutcome =
  EVENTS_UNSPECIFIED | EVENTS_SUCCESS | EVENTS_UNREACHABLE | EVENTS_UNAUTHORIZED

record KubernetesEvent =
  ke_type :: string
  ke_reason :: string
  ke_message :: string
  ke_involved_object :: KubernetesInvolvedObject
  ke_source_component :: string
  ke_count :: int
  ke_first_seen_at :: "timestamp option"
  ke_last_seen_at :: "timestamp option"

record KubernetesNamespaceEventsResultV1 =
  er_outcome :: KubernetesEventsOutcome
  er_events :: "KubernetesEvent list"
  er_returned_event_count :: int
  er_complete :: bool
  er_window_predates_retention :: bool
  er_applied_retention_horizon :: duration
  er_read_at :: "timestamp option"
  er_applied_max_events :: uint32

section \<open>kubernetes.container.logs.v1\<close>

record KubernetesContainerLogsArgsV1 =
  la_namespace :: string
  la_pod_name :: string
  la_container_name :: string
  la_previous :: bool
  la_max_lines :: uint32
  la_max_bytes :: uint32
  la_since_time :: "timestamp option"

datatype KubernetesLogsOutcome =
  LOGS_UNSPECIFIED | LOGS_SUCCESS | LOGS_UNREACHABLE | LOGS_UNAUTHORIZED | LOGS_POD_NOT_FOUND
| LOGS_CONTAINER_NOT_FOUND | LOGS_PREVIOUS_CONTAINER_NOT_FOUND

record KubernetesLogLine =
  ll_at :: "timestamp option"
  ll_content :: string

record KubernetesContainerLogsResultV1 =
  lr_outcome :: KubernetesLogsOutcome
  lr_lines :: "KubernetesLogLine list"
  lr_returned_line_count :: int
  lr_returned_byte_count :: int
  lr_complete :: bool
  lr_truncated_by_line_bound :: bool
  lr_truncated_by_byte_bound :: bool
  lr_withheld_byte_count :: int
  lr_read_at :: "timestamp option"
  lr_applied_max_lines :: uint32
  lr_applied_max_bytes :: uint32

section \<open>Capability payloads\<close>

text \<open>
  \<open>CapabilityArguments\<close>: the typed getter of a variant gives nil for every other variant and for
  an absent message, so an absent oneof and an absent message are both \<^const>\<open>None\<close> in
  \<open>ja_arguments\<close>.
\<close>

datatype CapabilityArguments =
  Args_KubernetesWorkloadRuntimeV1 KubernetesWorkloadRuntimeArgsV1
| Args_KubernetesNamespaceEventsV1 KubernetesNamespaceEventsArgsV1
| Args_KubernetesContainerLogsV1 KubernetesContainerLogsArgsV1

record RedactedField =
  rf_field_name :: string
  rf_masked_occurrence_count :: uint32
  rf_rule_ids :: "string list"

type_synonym RedactionReport = "RedactedField list"

datatype CapabilityResult_oneof =
  Result_KubernetesWorkloadRuntimeV1 KubernetesWorkloadRuntimeResultV1
| Result_KubernetesNamespaceEventsV1 KubernetesNamespaceEventsResultV1
| Result_KubernetesContainerLogsV1 KubernetesContainerLogsResultV1

record CapabilityResult =
  cr_redaction :: "RedactionReport option"
  cr_result :: CapabilityResult_oneof

section \<open>Jobs\<close>

datatype JobFailure_Kind =
  KIND_UNSPECIFIED | KIND_TIMEOUT | KIND_CANCELLED | KIND_UNSUPPORTED_CAPABILITY_VERSION
| KIND_ARGUMENTS_REJECTED | KIND_RESULT_TOO_LARGE | KIND_IDENTITY_MISMATCH
| KIND_LOCAL_POLICY_REFUSED | KIND_INTERNAL

record JobFailure =
  jf_kind :: JobFailure_Kind
  jf_detail :: string

datatype 'p JobResult_Outcome = JobResult_Result 'p | JobResult_Failure JobFailure

record 'p JobResult =
  jr_job_id :: string
  jr_lease_epoch :: uint64
  jr_outcome :: "'p JobResult_Outcome option"
  jr_execution_duration_ms :: int

record JobAssignment =
  ja_job_id :: string
  ja_org_id :: string
  ja_registration_id :: string
  ja_lease_epoch :: uint64
  ja_capability_id :: string
  ja_capability_version :: uint32
  ja_deadline_budget :: duration
  ja_arguments :: "CapabilityArguments option"

section \<open>Inventory synchronization\<close>

datatype InventoryObjectKind =
  KIND_NONE | KIND_DEPLOYMENT | KIND_STATEFULSET | KIND_DAEMONSET | KIND_CONFIGMAP | KIND_SECRET

datatype InventoryChangeKind = CHANGE_UNSPECIFIED | CHANGE_CREATED | CHANGE_MODIFIED | CHANGE_DELETED

record InventorySynchronizationPolicy =
  sp_connection_id :: string
  sp_revision :: uint64
  sp_namespaces :: "string list"
  sp_requested_interval :: duration

record InventoryScopeStatus =
  st_connection_id :: string
  st_policy_revision :: uint64
  st_last_completed_at :: "timestamp option"
  st_faulted :: bool
  st_truncated :: bool

record InventoryFieldChange =
  fc_field :: string
  fc_before :: string
  fc_after :: string

record InventoryObjectChange =
  oc_namespace :: string
  oc_kind :: InventoryObjectKind
  oc_name :: string
  oc_uid :: string
  oc_observed_revision :: string
  oc_change :: InventoryChangeKind
  oc_fields :: "InventoryFieldChange list"

record InventoryDelta =
  id_delta_id :: string
  id_connection_id :: string
  id_policy_revision :: uint64
  id_baseline :: bool
  id_observed_at :: timestamp
  id_changes :: "InventoryObjectChange list"

section \<open>The session stream\<close>

record InFlightJob =
  fj_job_id :: string
  fj_lease_epoch :: uint64

record Hello =
  he_protocol_version :: uint32
  he_relay_version :: string
  he_capabilities :: "CapabilityDescriptor list"
  he_cluster_fingerprint :: string
  he_local_policy_hash :: string
  he_max_concurrent_jobs :: uint32
  he_in_flight :: "InFlightJob list"

datatype CancelAck_Disposition =
  DISPOSITION_UNSPECIFIED | DISPOSITION_ABORTED | DISPOSITION_ALREADY_COMPLETED

datatype ProtocolError_Code =
  CODE_UNSPECIFIED | CODE_MALFORMED_MESSAGE | CODE_UNKNOWN_FIELDS_REFUSED
| CODE_UNSUPPORTED_PROTOCOL_VERSION | CODE_INTAKE_SHED

datatype 'p RelayToControl =
  Msg_Hello Hello
| Msg_Heartbeat uint64 "InventoryScopeStatus list"
| Msg_JobAck string uint64
| Msg_JobStarted string uint64
| Msg_JobResult "'p JobResult"
| Msg_CancelAck string uint64 CancelAck_Disposition
| Msg_DrainState bool uint32
| Msg_ProtocolError ProtocolError_Code
| Msg_InventoryDelta InventoryDelta

text \<open>
  Messages the Relay receives. \<open>Ctl_Other\<close> stands for the variants no code of this build reads
  (credential rotation, capability requirements, graceful reconnect) and for an absent oneof.
\<close>

datatype ControlToRelay =
  Ctl_SessionAccepted string
| Ctl_JobAssignment JobAssignment
| Ctl_Cancellation string uint64
| Ctl_ResultAck string
| Ctl_DrainInstruction duration
| Ctl_InventorySynchronizationPolicy InventorySynchronizationPolicy
| Ctl_InventoryDeltaAck string
| Ctl_Other

section \<open>Getters\<close>

definition GetFailure :: "'p JobResult \<Rightarrow> JobFailure option" where
  "GetFailure r = (case jr_outcome r of Some (JobResult_Failure f) \<Rightarrow> Some f | _ \<Rightarrow> None)"

definition GetResult :: "'p JobResult \<Rightarrow> 'p option" where
  "GetResult r = (case jr_outcome r of Some (JobResult_Result p) \<Rightarrow> Some p | _ \<Rightarrow> None)"

definition failure_kind :: "'p JobResult \<Rightarrow> JobFailure_Kind" where
  "failure_kind r = (case GetFailure r of None \<Rightarrow> KIND_UNSPECIFIED | Some f \<Rightarrow> jf_kind f)"

text \<open>Applying a payload transformation under the envelope.\<close>

definition map_payload :: "('p \<Rightarrow> 'q) \<Rightarrow> 'p JobResult \<Rightarrow> 'q JobResult" where
  "map_payload f r = \<lparr>jr_job_id = jr_job_id r, jr_lease_epoch = jr_lease_epoch r,
     jr_outcome = map_option (map_JobResult_Outcome f) (jr_outcome r),
     jr_execution_duration_ms = jr_execution_duration_ms r\<rparr>"

lemma map_payload_sel [simp]:
  "jr_job_id (map_payload f r) = jr_job_id r"
  "jr_lease_epoch (map_payload f r) = jr_lease_epoch r"
  by (simp_all add: map_payload_def)

lemma GetResult_map_payload [simp]: "GetResult (map_payload f r) = map_option f (GetResult r)"
  by (simp add: GetResult_def map_payload_def split: option.splits JobResult_Outcome.splits)

lemma GetFailure_map_payload [simp]: "GetFailure (map_payload f r) = GetFailure r"
  by (simp add: GetFailure_def map_payload_def split: option.splits JobResult_Outcome.splits)

section \<open>The executor interface\<close>

text \<open>
  session.Executor, capabilities.Executor and redaction.Executor are the same interface: one
  assignment in, one typed result out. The session counts a job's outstanding-work slot by the job
  identity the result carries, so what it relies on is the law below. \<open>'c\<close> is whatever the context
  contributes to one execution (cancellation and deadline at the moment the read ends, the answers
  of the cluster, the clock).
\<close>

type_synonym ('c, 'p) executor = "'c \<Rightarrow> JobAssignment \<Rightarrow> 'p JobResult option"

definition answers_for :: "JobAssignment \<Rightarrow> 'p JobResult \<Rightarrow> bool" where
  "answers_for job r \<longleftrightarrow> jr_job_id r = ja_job_id job \<and> jr_lease_epoch r = ja_lease_epoch job"

locale job_executor =
  fixes execute :: "('c, 'p) executor"
  assumes answers: "\<exists>r. execute c job = Some r \<and> answers_for job r"
begin

lemma job_id: "execute c job = Some r \<Longrightarrow> jr_job_id r = ja_job_id job"
  using answers [of c job] by (auto simp: answers_for_def)

lemma lease_epoch: "execute c job = Some r \<Longrightarrow> jr_lease_epoch r = ja_lease_epoch job"
  using answers [of c job] by (auto simp: answers_for_def)

lemma not_nil: "execute c job \<noteq> None"
  using answers [of c job] by auto

end

end
