(* ===== verification/Session_State.thy ===== *)
theory Session_State
  imports Relay_Wire
begin

text \<open>
  The state that outlives a connection (internal/session/session.go), the unacked-result buffer
  (internal/session/unacked.go), the per-connection job registry (end of
  internal/session/connection.go) and the messages the session builds. Every operation is one
  mutex-protected or channel operation of the source, as a function on the state it changes.
\<close>

section \<open>session.go\<close>

record Config =
  sc_OrgID :: string
  sc_RegistrationID :: string
  sc_Capabilities :: "CapabilityDescriptor list"
  sc_MaxConcurrentJobs :: uint32
  sc_RelayVersion :: string
  sc_ClusterFingerprint :: string
  sc_LocalPolicyHash :: string
  sc_HeartbeatInterval :: int
  sc_ResendInterval :: int
  sc_OutboundBuffer :: nat
  sc_ReconnectBase :: int
  sc_ReconnectMax :: int

text \<open>
  \<open>ss_outstanding\<close> is the number of tokens in the buffered channel \<open>outstanding\<close>, \<open>ss_capacity\<close>
  the channel's capacity.
\<close>

record 'p Session =
  ss_config :: Config
  ss_unacked :: "(string, 'p JobResult) gomap"
  ss_outstanding :: nat
  ss_capacity :: nat
  ss_inFlight :: "(string, uint64) gomap"

definition session_New :: "Config \<Rightarrow> 'p Session" where
  "session_New config =
     (let capacity = unat (sc_MaxConcurrentJobs config) in
      if capacity < 1
      then \<lparr>ss_config = config\<lparr>sc_MaxConcurrentJobs := 1\<rparr>, ss_unacked = [], ss_outstanding = 0,
            ss_capacity = 1, ss_inFlight = []\<rparr>
      else \<lparr>ss_config = config, ss_unacked = [], ss_outstanding = 0,
            ss_capacity = capacity, ss_inFlight = []\<rparr>)"

definition acquireSlot :: "'p Session \<Rightarrow> bool \<times> 'p Session" where
  "acquireSlot s =
     (if ss_outstanding s < ss_capacity s
      then (True, s\<lparr>ss_outstanding := Suc (ss_outstanding s)\<rparr>)
      else (False, s))"

definition releaseSlot :: "'p Session \<Rightarrow> 'p Session" where
  "releaseSlot s =
     (if 0 < ss_outstanding s then s\<lparr>ss_outstanding := ss_outstanding s - 1\<rparr> else s)"

definition heldSlots :: "'p Session \<Rightarrow> nat" where
  "heldSlots s = ss_outstanding s"

definition markInFlight :: "string \<Rightarrow> uint64 \<Rightarrow> 'p Session \<Rightarrow> 'p Session" where
  "markInFlight jobID epoch s = s\<lparr>ss_inFlight := gomap_set jobID epoch (ss_inFlight s)\<rparr>"

definition clearInFlight :: "string \<Rightarrow> 'p Session \<Rightarrow> 'p Session" where
  "clearInFlight jobID s = s\<lparr>ss_inFlight := gomap_del jobID (ss_inFlight s)\<rparr>"

definition inFlightRoster :: "'p Session \<Rightarrow> InFlightJob list" where
  "inFlightRoster s =
     map (\<lambda>(jobID, epoch). \<lparr>fj_job_id = jobID, fj_lease_epoch = epoch\<rparr>) (ss_inFlight s)"

section \<open>unacked.go\<close>

definition unacked_add :: "'p JobResult \<Rightarrow> 'p Session \<Rightarrow> 'p Session" where
  "unacked_add result s = s\<lparr>ss_unacked := gomap_set (jr_job_id result) result (ss_unacked s)\<rparr>"

definition unacked_ack :: "string \<Rightarrow> 'p Session \<Rightarrow> bool \<times> 'p Session" where
  "unacked_ack jobID s =
     (if \<not> gomap_has (ss_unacked s) jobID then (False, s)
      else (True, s\<lparr>ss_unacked := gomap_del jobID (ss_unacked s)\<rparr>))"

definition unacked_pending :: "'p Session \<Rightarrow> 'p JobResult list" where
  "unacked_pending s = map snd (ss_unacked s)"

definition unacked_len :: "'p Session \<Rightarrow> nat" where
  "unacked_len s = length (ss_unacked s)"

definition unacked_has :: "string \<Rightarrow> 'p Session \<Rightarrow> bool" where
  "unacked_has jobID s = gomap_has (ss_unacked s) jobID"

section \<open>The job registry of a connection\<close>

text \<open>
  A cancel function is named by the number of the worker whose context it cancels; \<open>jg_explicit\<close>
  holds the job identifiers mapped to true.
\<close>

record jobRegistry =
  jg_cancels :: "(string, nat) gomap"
  jg_explicit :: "(string, bool) gomap"

definition newJobRegistry :: jobRegistry where
  "newJobRegistry = \<lparr>jg_cancels = [], jg_explicit = []\<rparr>"

definition jobs_add :: "nat \<Rightarrow> string \<Rightarrow> jobRegistry \<Rightarrow> jobRegistry" where
  "jobs_add ctx jobID r = r\<lparr>jg_cancels := gomap_set jobID ctx (jg_cancels r)\<rparr>"

definition jobs_has :: "string \<Rightarrow> jobRegistry \<Rightarrow> bool" where
  "jobs_has jobID r = gomap_has (jg_cancels r) jobID"

text \<open>The contexts an operation cancels are returned beside the new registry.\<close>

definition jobs_remove :: "string \<Rightarrow> jobRegistry \<Rightarrow> nat list \<times> jobRegistry" where
  "jobs_remove jobID r =
     (case gomap_get (jg_cancels r) jobID of
        Some ctx \<Rightarrow> ([ctx], \<lparr>jg_cancels = gomap_del jobID (jg_cancels r),
                            jg_explicit = gomap_del jobID (jg_explicit r)\<rparr>)
      | None \<Rightarrow> ([], r\<lparr>jg_explicit := gomap_del jobID (jg_explicit r)\<rparr>))"

definition jobs_cancel :: "string \<Rightarrow> jobRegistry \<Rightarrow> nat list \<times> jobRegistry" where
  "jobs_cancel jobID r =
     (case gomap_get (jg_cancels r) jobID of
        Some ctx \<Rightarrow> ([ctx], r\<lparr>jg_explicit := gomap_set jobID True (jg_explicit r)\<rparr>)
      | None \<Rightarrow> ([], r))"

definition jobs_wasExplicit :: "string \<Rightarrow> jobRegistry \<Rightarrow> bool" where
  "jobs_wasExplicit jobID r =
     (case gomap_get (jg_explicit r) jobID of None \<Rightarrow> False | Some b \<Rightarrow> b)"

definition jobs_cancelAll :: "jobRegistry \<Rightarrow> nat list \<times> jobRegistry" where
  "jobs_cancelAll r = (map snd (jg_cancels r), r\<lparr>jg_cancels := []\<rparr>)"

section \<open>Messages\<close>

definition ack_message :: "string \<Rightarrow> uint64 \<Rightarrow> 'p RelayToControl" where
  "ack_message jobID epoch = Msg_JobAck jobID epoch"

definition started_message :: "string \<Rightarrow> uint64 \<Rightarrow> 'p RelayToControl" where
  "started_message jobID epoch = Msg_JobStarted jobID epoch"

definition heartbeat_message :: "uint64 \<Rightarrow> InventoryScopeStatus list \<Rightarrow> 'p RelayToControl" where
  "heartbeat_message sequence scopes = Msg_Heartbeat sequence scopes"

definition resultMessage :: "'p JobResult \<Rightarrow> 'p RelayToControl" where
  "resultMessage result = Msg_JobResult result"

definition intakeShed :: "'p RelayToControl" where
  "intakeShed = Msg_ProtocolError CODE_INTAKE_SHED"

definition drainStateMessage :: "nat \<Rightarrow> 'p RelayToControl" where
  "drainStateMessage outstanding = Msg_DrainState True (of_nat outstanding)"

definition identityMismatch :: "string \<Rightarrow> uint64 \<Rightarrow> 'p JobResult" where
  "identityMismatch jobID epoch = \<lparr>jr_job_id = jobID, jr_lease_epoch = epoch,
     jr_outcome = Some (JobResult_Failure \<lparr>jf_kind = KIND_IDENTITY_MISMATCH, jf_detail = []\<rparr>),
     jr_execution_duration_ms = 0\<rparr>"

definition unsupportedCapability :: "string \<Rightarrow> uint64 \<Rightarrow> 'p JobResult" where
  "unsupportedCapability jobID epoch = \<lparr>jr_job_id = jobID, jr_lease_epoch = epoch,
     jr_outcome = Some (JobResult_Failure
       \<lparr>jf_kind = KIND_UNSUPPORTED_CAPABILITY_VERSION, jf_detail = []\<rparr>),
     jr_execution_duration_ms = 0\<rparr>"

definition isCancelled :: "'p JobResult \<Rightarrow> bool" where
  "isCancelled result \<longleftrightarrow> failure_kind result = KIND_CANCELLED"

definition supportsAssignment :: "'p Session \<Rightarrow> JobAssignment \<Rightarrow> bool" where
  "supportsAssignment s job \<longleftrightarrow>
     list_ex (\<lambda>declared. cd_capability_id declared = ja_capability_id job \<and>
                         cd_capability_version declared = ja_capability_version job)
       (sc_Capabilities (ss_config s))"

definition helloMessage :: "'p Session \<Rightarrow> 'p RelayToControl" where
  "helloMessage s = Msg_Hello
     \<lparr>he_protocol_version = 1,
      he_relay_version = sc_RelayVersion (ss_config s),
      he_capabilities = sc_Capabilities (ss_config s),
      he_cluster_fingerprint = sc_ClusterFingerprint (ss_config s),
      he_local_policy_hash = sc_LocalPolicyHash (ss_config s),
      he_max_concurrent_jobs = sc_MaxConcurrentJobs (ss_config s),
      he_in_flight = inFlightRoster s\<rparr>"

text \<open>time.Duration division truncates; \<open>deadline\<close> is what the drain instruction carries.\<close>

definition drainReportInterval :: "int \<Rightarrow> int" where
  "drainReportInterval deadline =
     (let interval = sgn deadline * (\<bar>deadline\<bar> div 4)
      in if interval \<le> 0 \<or> interval > 1000000000 then 1000000000 else interval)"

text \<open>
  A nil result answers every getter with the zero value, so it acts as the empty message.
\<close>

definition nil_result :: "'p JobResult" where
  "nil_result = \<lparr>jr_job_id = [], jr_lease_epoch = 0, jr_outcome = None,
     jr_execution_duration_ms = 0\<rparr>"

section \<open>Lemmas\<close>

lemmas session_ops = acquireSlot_def releaseSlot_def markInFlight_def clearInFlight_def
  unacked_add_def unacked_ack_def

lemma acquireSlot_frame [simp]:
  "ss_config (snd (acquireSlot s)) = ss_config s"
  "ss_unacked (snd (acquireSlot s)) = ss_unacked s"
  "ss_capacity (snd (acquireSlot s)) = ss_capacity s"
  "ss_inFlight (snd (acquireSlot s)) = ss_inFlight s"
  by (simp_all add: acquireSlot_def)

lemma releaseSlot_frame [simp]:
  "ss_config (releaseSlot s) = ss_config s" "ss_unacked (releaseSlot s) = ss_unacked s"
  "ss_capacity (releaseSlot s) = ss_capacity s" "ss_inFlight (releaseSlot s) = ss_inFlight s"
  by (simp_all add: releaseSlot_def)

lemma markInFlight_frame [simp]:
  "ss_config (markInFlight j e s) = ss_config s" "ss_unacked (markInFlight j e s) = ss_unacked s"
  "ss_capacity (markInFlight j e s) = ss_capacity s"
  "ss_outstanding (markInFlight j e s) = ss_outstanding s"
  by (simp_all add: markInFlight_def)

lemma clearInFlight_frame [simp]:
  "ss_config (clearInFlight j s) = ss_config s" "ss_unacked (clearInFlight j s) = ss_unacked s"
  "ss_capacity (clearInFlight j s) = ss_capacity s"
  "ss_outstanding (clearInFlight j s) = ss_outstanding s"
  by (simp_all add: clearInFlight_def)

lemma unacked_add_frame [simp]:
  "ss_config (unacked_add r s) = ss_config s" "ss_inFlight (unacked_add r s) = ss_inFlight s"
  "ss_capacity (unacked_add r s) = ss_capacity s"
  "ss_outstanding (unacked_add r s) = ss_outstanding s"
  by (simp_all add: unacked_add_def)

lemma unacked_ack_frame [simp]:
  "ss_config (snd (unacked_ack j s)) = ss_config s"
  "ss_inFlight (snd (unacked_ack j s)) = ss_inFlight s"
  "ss_capacity (snd (unacked_ack j s)) = ss_capacity s"
  "ss_outstanding (snd (unacked_ack j s)) = ss_outstanding s"
  by (simp_all add: unacked_ack_def)

lemma session_New_sel [simp]:
  "ss_unacked (session_New c) = []" "ss_outstanding (session_New c) = 0"
  "ss_inFlight (session_New c) = []"
  "ss_capacity (session_New c) = max 1 (unat (sc_MaxConcurrentJobs c))"
  "sc_OrgID (ss_config (session_New c)) = sc_OrgID c"
  "sc_RegistrationID (ss_config (session_New c)) = sc_RegistrationID c"
  "sc_Capabilities (ss_config (session_New c)) = sc_Capabilities c"
  "sc_OutboundBuffer (ss_config (session_New c)) = sc_OutboundBuffer c"
  by (simp_all add: session_New_def Let_def)

lemma supportsAssignment_cong:
  "ss_config s = ss_config t \<Longrightarrow> supportsAssignment s job = supportsAssignment t job"
  by (simp add: supportsAssignment_def)

lemma isCancelled_refusals [simp]:
  "\<not> isCancelled (identityMismatch j e)" "\<not> isCancelled (unsupportedCapability j e)"
  "\<not> isCancelled nil_result"
  by (simp_all add: isCancelled_def failure_kind_def GetFailure_def identityMismatch_def
      unsupportedCapability_def nil_result_def)

lemma jobs_has_add [simp]: "jobs_has j (jobs_add ctx k r) \<longleftrightarrow> j = k \<or> jobs_has j r"
  by (simp add: jobs_has_def jobs_add_def gomap_simps)

lemma jobs_has_remove [simp]: "jobs_has j (snd (jobs_remove k r)) \<longleftrightarrow> j \<noteq> k \<and> jobs_has j r"
  by (auto simp: jobs_has_def jobs_remove_def gomap_simps gomap_has_None split: option.splits)

lemma jobs_has_cancel [simp]: "jobs_has j (snd (jobs_cancel k r)) = jobs_has j r"
  by (simp add: jobs_has_def jobs_cancel_def split: option.splits)

lemma jobs_wasExplicit_add [simp]: "jobs_wasExplicit j (jobs_add c k r) = jobs_wasExplicit j r"
  by (simp add: jobs_wasExplicit_def jobs_add_def)

lemma jobs_wasExplicit_cancel:
  "jobs_wasExplicit j (snd (jobs_cancel k r)) \<longleftrightarrow>
   (j = k \<and> jobs_has k r) \<or> jobs_wasExplicit j r"
  by (auto simp: jobs_wasExplicit_def jobs_cancel_def jobs_has_def gomap_simps gomap_has_None
      split: option.splits)

lemma jobs_wasExplicit_remove:
  "jobs_wasExplicit j (snd (jobs_remove k r)) \<longleftrightarrow> j \<noteq> k \<and> jobs_wasExplicit j r"
  by (auto simp: jobs_wasExplicit_def jobs_remove_def gomap_simps split: option.splits)

lemma jobs_cancelAll_sel [simp]:
  "\<not> jobs_has j (snd (jobs_cancelAll r))"
  "jobs_wasExplicit j (snd (jobs_cancelAll r)) = jobs_wasExplicit j r"
  by (simp_all add: jobs_cancelAll_def jobs_has_def jobs_wasExplicit_def)

lemma jobs_new_sel [simp]: "\<not> jobs_has j newJobRegistry" "\<not> jobs_wasExplicit j newJobRegistry"
  by (simp_all add: newJobRegistry_def jobs_has_def jobs_wasExplicit_def)

end
