(* ===== verification/Session_Runtime.thy ===== *)
theory Session_Runtime
  imports Session_State
begin

text \<open>
  One Relay process as a state machine: the session, every connection generation it has opened, and
  the worker goroutines it has spawned (internal/session/connection.go, internal/session/sender.go).

  A step is one action of one goroutine on the shared state: a mutex-protected operation, a channel
  operation, or a stream read or write. A handler that does several of them in a row is a sequence of
  steps, and steps of different goroutines interleave freely between them. Workers of a torn-down
  connection keep running, as they do in the source: the worker goroutine is not a member of the
  connection's errgroup.

  \<open>sender.enqueue\<close> selects between the bounded channel and the connection context: it accepts
  (\<open>acc\<close>) only when the channel has room, and gives up only when the context is done; a step whose
  enqueue can do neither is blocked (\<^const>\<open>None\<close>). The channel capacity is at least one, as in the
  composition root.
\<close>

section \<open>State\<close>

text \<open>What the receive loop does next; only in \<open>Recv_Ready\<close> does it call Recv.\<close>

datatype 'p recv =
  Recv_Ready
| Recv_Enqueue "'p RelayToControl"
| Recv_CancelAck string uint64 CancelAck_Disposition
| Recv_Cancel string
| Recv_Release
| Recv_Acquire JobAssignment
| Recv_Add JobAssignment
| Recv_Mark JobAssignment

datatype watch =
  Watch_Wait | Watch_Report | Watch_Enqueue nat | Watch_Test | Watch_Select | Watch_Done

datatype 'p resend =
  Resend_Idle
| Resend_Results "'p JobResult list"
| Resend_Deltas "InventoryDelta list"
| Resend_Stopped

record 'p Conn =
  cn_jobs :: jobRegistry
  cn_queue :: "'p RelayToControl list"
  cn_sent :: "'p RelayToControl list"
  cn_draining :: bool
  cn_drainDeadline :: "duration option"
  cn_watch :: watch
  cn_recv :: "'p recv"
  cn_sequence :: uint64
  cn_heartbeat :: "'p RelayToControl option"
  cn_resend :: "'p resend"
  cn_done :: bool
  cn_closed :: bool

text \<open>The program counter of the goroutine that dispatchAssignment starts.\<close>

datatype 'p wpc =
  W_Ack
| W_Started
| W_Execute
| W_Clear "'p JobResult"
| W_Decide "'p JobResult"
| W_Release
| W_Deliver "'p JobResult"
| W_Send "'p JobResult"
| W_Remove
| W_Done

record 'p worker =
  wk_conn :: nat
  wk_job :: JobAssignment
  wk_cancelled :: bool
  wk_pc :: "'p wpc"

text \<open>The Inventory interface of the session, over a state of the implementation.\<close>

record 'i Inventory =
  inv_ApplyPolicy :: "InventorySynchronizationPolicy \<Rightarrow> 'i \<Rightarrow> 'i"
  inv_Ack :: "string \<Rightarrow> 'i \<Rightarrow> 'i"
  inv_Pending :: "'i \<Rightarrow> InventoryDelta list"
  inv_Statuses :: "'i \<Rightarrow> InventoryScopeStatus list"

record ('p, 'i) sys =
  sy_session :: "'p Session"
  sy_conns :: "'p Conn list"
  sy_workers :: "'p worker list"
  sy_inventory :: "'i option"

section \<open>sender.go\<close>

definition enqueue :: "nat \<Rightarrow> bool \<Rightarrow> 'p RelayToControl \<Rightarrow> 'p Conn \<Rightarrow> 'p Conn option" where
  "enqueue capacity acc message c =
     (if acc
      then (if length (cn_queue c) < capacity
            then Some (c\<lparr>cn_queue := cn_queue c @ [message]\<rparr>) else None)
      else (if cn_done c then Some c else None))"

text \<open>One iteration of sender.run: the head of the channel is written to the stream.\<close>

definition sender_run_once :: "'p Conn \<Rightarrow> 'p Conn option" where
  "sender_run_once c =
     (case cn_queue c of
        [] \<Rightarrow> None
      | message # rest \<Rightarrow> Some (c\<lparr>cn_queue := rest, cn_sent := cn_sent c @ [message]\<rparr>))"

section \<open>Updates\<close>

definition set_conn :: "nat \<Rightarrow> 'p Conn \<Rightarrow> ('p, 'i) sys \<Rightarrow> ('p, 'i) sys" where
  "set_conn k c s = s\<lparr>sy_conns := (sy_conns s)[k := c]\<rparr>"

definition set_worker :: "nat \<Rightarrow> 'p worker \<Rightarrow> ('p, 'i) sys \<Rightarrow> ('p, 'i) sys" where
  "set_worker i w s = s\<lparr>sy_workers := (sy_workers s)[i := w]\<rparr>"

definition set_session :: "'p Session \<Rightarrow> ('p, 'i) sys \<Rightarrow> ('p, 'i) sys" where
  "set_session ss s = s\<lparr>sy_session := ss\<rparr>"

text \<open>Calling the cancel functions of the given workers.\<close>

definition cancel_contexts :: "nat list \<Rightarrow> ('p, 'i) sys \<Rightarrow> ('p, 'i) sys" where
  "cancel_contexts ids s = s\<lparr>sy_workers :=
     map (\<lambda>(i, w). if i \<in> set ids then w\<lparr>wk_cancelled := True\<rparr> else w)
       (enumerate 0 (sy_workers s))\<rparr>"

abbreviation out_capacity :: "('p, 'i) sys \<Rightarrow> nat" where
  "out_capacity s \<equiv> sc_OutboundBuffer (ss_config (sy_session s))"

text \<open>Enqueue on connection \<open>k\<close>, then continue.\<close>

definition enqueue_on ::
  "nat \<Rightarrow> bool \<Rightarrow> 'p RelayToControl \<Rightarrow> ('p, 'i) sys \<Rightarrow> ('p, 'i) sys option" where
  "enqueue_on k acc message s =
     map_option (\<lambda>c. set_conn k c s) (enqueue (out_capacity s) acc message (sy_conns s ! k))"

section \<open>The receive loop\<close>

text \<open>The checks of dispatchAssignment up to the admission.\<close>

definition dispatchAssignment :: "nat \<Rightarrow> JobAssignment \<Rightarrow> ('p, 'i) sys \<Rightarrow> 'p recv" where
  "dispatchAssignment k job s =
     (let jobID = ja_job_id job; epoch = ja_lease_epoch job; ss = sy_session s in
      if jobs_has jobID (cn_jobs (sy_conns s ! k)) \<or> unacked_has jobID ss
      then Recv_Enqueue (ack_message jobID epoch)
      else if ja_org_id job \<noteq> sc_OrgID (ss_config ss) \<or>
              ja_registration_id job \<noteq> sc_RegistrationID (ss_config ss)
      then Recv_Enqueue (resultMessage (identityMismatch jobID epoch))
      else if \<not> supportsAssignment ss job
      then Recv_Enqueue (resultMessage (unsupportedCapability jobID epoch))
      else Recv_Acquire job)"

definition handleCancellation :: "string \<Rightarrow> uint64 \<Rightarrow> 'p Session \<Rightarrow> 'p recv" where
  "handleCancellation jobID epoch ss =
     Recv_CancelAck jobID epoch
       (if unacked_has jobID ss then DISPOSITION_ALREADY_COMPLETED else DISPOSITION_ABORTED)"

definition set_recv :: "nat \<Rightarrow> 'p recv \<Rightarrow> ('p, 'i) sys \<Rightarrow> ('p, 'i) sys" where
  "set_recv k r s = set_conn k ((sy_conns s ! k)\<lparr>cn_recv := r\<rparr>) s"

text \<open>One message taken from the stream, up to the first action that another goroutine can see.\<close>

definition receiveMessage ::
  "'i Inventory \<Rightarrow> nat \<Rightarrow> ControlToRelay \<Rightarrow> ('p, 'i) sys \<Rightarrow> ('p, 'i) sys" where
  "receiveMessage iops k message s =
     (case message of
        Ctl_JobAssignment job \<Rightarrow>
          set_recv k (if cn_draining (sy_conns s ! k) then Recv_Enqueue intakeShed
                      else dispatchAssignment k job s) s
      | Ctl_ResultAck jobID \<Rightarrow>
          (case unacked_ack jobID (sy_session s) of
             (True, ss) \<Rightarrow> set_recv k Recv_Release (set_session ss s)
           | (False, ss) \<Rightarrow> set_session ss s)
      | Ctl_Cancellation jobID epoch \<Rightarrow>
          set_recv k (handleCancellation jobID epoch (sy_session s)) s
      | Ctl_DrainInstruction deadline \<Rightarrow>
          (let c = sy_conns s ! k
           in set_conn k (c\<lparr>cn_draining := True,
                cn_drainDeadline := (case cn_drainDeadline c of
                    None \<Rightarrow> Some deadline | Some d \<Rightarrow> Some d)\<rparr>) s)
      | Ctl_InventorySynchronizationPolicy policy \<Rightarrow>
          s\<lparr>sy_inventory := map_option (inv_ApplyPolicy iops policy) (sy_inventory s)\<rparr>
      | Ctl_InventoryDeltaAck deltaID \<Rightarrow>
          s\<lparr>sy_inventory := map_option (inv_Ack iops deltaID) (sy_inventory s)\<rparr>
      | Ctl_SessionAccepted _ \<Rightarrow> s
      | Ctl_Other \<Rightarrow> s)"

text \<open>The rest of the handler of the message, one action at a time.\<close>

definition recv_step :: "nat \<Rightarrow> bool \<Rightarrow> ('p, 'i) sys \<Rightarrow> ('p, 'i) sys option" where
  "recv_step k acc s =
     (let c = sy_conns s ! k; ss = sy_session s
      in case cn_recv c of
        Recv_Ready \<Rightarrow> None
      | Recv_Enqueue message \<Rightarrow> map_option (set_recv k Recv_Ready) (enqueue_on k acc message s)
      | Recv_CancelAck jobID epoch disposition \<Rightarrow>
          map_option (set_recv k (Recv_Cancel jobID))
            (enqueue_on k acc (Msg_CancelAck jobID epoch disposition) s)
      | Recv_Cancel jobID \<Rightarrow>
          (let (ids, jobs) = jobs_cancel jobID (cn_jobs c)
           in Some (cancel_contexts ids
                (set_conn k (c\<lparr>cn_jobs := jobs, cn_recv := Recv_Ready\<rparr>) s)))
      | Recv_Release \<Rightarrow> Some (set_recv k Recv_Ready (set_session (releaseSlot ss) s))
      | Recv_Acquire job \<Rightarrow>
          (case acquireSlot ss of
             (True, ss') \<Rightarrow> Some (set_recv k (Recv_Add job) (set_session ss' s))
           | (False, ss') \<Rightarrow> Some (set_recv k (Recv_Enqueue intakeShed) (set_session ss' s)))
      | Recv_Add job \<Rightarrow>
          Some (set_conn k (c\<lparr>cn_jobs := jobs_add (length (sy_workers s)) (ja_job_id job) (cn_jobs c),
                              cn_recv := Recv_Mark job\<rparr>) s)
      | Recv_Mark job \<Rightarrow>
          (let s1 = set_recv k Recv_Ready
                 (set_session (markInFlight (ja_job_id job) (ja_lease_epoch job) ss) s)
           in Some (s1\<lparr>sy_workers := sy_workers s1 @
                [\<lparr>wk_conn = k, wk_job = job, wk_cancelled = False, wk_pc = W_Ack\<rparr>]\<rparr>)))"

section \<open>The worker goroutine\<close>

text \<open>
  \<open>seen\<close> is what the executor saw of its context's cancellation, which the job context or the
  connection context can have only by being done; \<open>e\<close> is the rest of the execution's environment.
\<close>

definition goto :: "nat \<Rightarrow> 'p wpc \<Rightarrow> ('p, 'i) sys \<Rightarrow> ('p, 'i) sys" where
  "goto i pc s = set_worker i ((sy_workers s ! i)\<lparr>wk_pc := pc\<rparr>) s"

definition worker_step ::
  "(bool \<times> 'c, 'p) executor \<Rightarrow> nat \<Rightarrow> bool \<Rightarrow> bool \<Rightarrow> 'c \<Rightarrow> ('p, 'i) sys \<Rightarrow> ('p, 'i) sys option"
where
  "worker_step execute i acc seen e s =
     (let w = sy_workers s ! i; k = wk_conn w; job = wk_job w;
          jobID = ja_job_id job; epoch = ja_lease_epoch job;
          c = sy_conns s ! k; ss = sy_session s
      in case wk_pc w of
        W_Ack \<Rightarrow> map_option (goto i W_Started) (enqueue_on k acc (ack_message jobID epoch) s)
      | W_Started \<Rightarrow> map_option (goto i W_Execute) (enqueue_on k acc (started_message jobID epoch) s)
      | W_Execute \<Rightarrow>
          if seen \<and> \<not> wk_cancelled w \<and> \<not> cn_done c then None
          else Some (goto i (W_Clear (case execute (seen, e) job of
                                        None \<Rightarrow> nil_result | Some r \<Rightarrow> r)) s)
      | W_Clear r \<Rightarrow> Some (goto i (W_Decide r) (set_session (clearInFlight jobID ss) s))
      | W_Decide r \<Rightarrow>
          Some (goto i (if isCancelled r \<and> \<not> jobs_wasExplicit jobID (cn_jobs c)
                        then W_Release else W_Deliver r) s)
      | W_Release \<Rightarrow> Some (goto i W_Remove (set_session (releaseSlot ss) s))
      | W_Deliver r \<Rightarrow> Some (goto i (W_Send r) (set_session (unacked_add r ss) s))
      | W_Send r \<Rightarrow> map_option (goto i W_Remove) (enqueue_on k acc (resultMessage r) s)
      | W_Remove \<Rightarrow>
          (let (ids, jobs) = jobs_remove jobID (cn_jobs c)
           in Some (goto i W_Done (cancel_contexts ids (set_conn k (c\<lparr>cn_jobs := jobs\<rparr>) s))))
      | W_Done \<Rightarrow> None)"

section \<open>Heartbeat, resend and drain loops\<close>

text \<open>A tick builds the message; the next action enqueues it.\<close>

definition inventoryStatuses :: "'i Inventory \<Rightarrow> ('p, 'i) sys \<Rightarrow> InventoryScopeStatus list" where
  "inventoryStatuses iops s =
     (case sy_inventory s of None \<Rightarrow> [] | Some i \<Rightarrow> inv_Statuses iops i)"

definition heartbeatLoop :: "'i Inventory \<Rightarrow> nat \<Rightarrow> bool \<Rightarrow> ('p, 'i) sys \<Rightarrow> ('p, 'i) sys option" where
  "heartbeatLoop iops k acc s =
     (let c = sy_conns s ! k in
      case cn_heartbeat c of
        None \<Rightarrow>
          (let sequence = cn_sequence c + 1
           in Some (set_conn k (c\<lparr>cn_sequence := sequence,
                cn_heartbeat := Some (heartbeat_message sequence (inventoryStatuses iops s))\<rparr>) s))
      | Some message \<Rightarrow>
          map_option (\<lambda>s1. set_conn k ((sy_conns s1 ! k)\<lparr>cn_heartbeat := None\<rparr>) s1)
            (enqueue_on k acc message s))"

definition resendLoop :: "'i Inventory \<Rightarrow> nat \<Rightarrow> bool \<Rightarrow> ('p, 'i) sys \<Rightarrow> ('p, 'i) sys option" where
  "resendLoop iops k acc s =
     (let c = sy_conns s ! k;
          move = (\<lambda>r. map_option (\<lambda>s1. set_conn k ((sy_conns s1 ! k)\<lparr>cn_resend := r\<rparr>) s1))
      in case cn_resend c of
        Resend_Idle \<Rightarrow>
          Some (set_conn k (c\<lparr>cn_resend := Resend_Results (unacked_pending (sy_session s))\<rparr>) s)
      | Resend_Results (r # rs) \<Rightarrow>
          move (if acc then Resend_Results rs else Resend_Stopped)
            (enqueue_on k acc (Msg_JobResult r) s)
      | Resend_Results [] \<Rightarrow>
          Some (set_conn k (c\<lparr>cn_resend := (case sy_inventory s of
              None \<Rightarrow> Resend_Idle | Some i \<Rightarrow> Resend_Deltas (inv_Pending iops i))\<rparr>) s)
      | Resend_Deltas (d # ds) \<Rightarrow>
          move (if acc then Resend_Deltas ds else Resend_Stopped)
            (enqueue_on k acc (Msg_InventoryDelta d) s)
      | Resend_Deltas [] \<Rightarrow> Some (set_conn k (c\<lparr>cn_resend := Resend_Idle\<rparr>) s)
      | Resend_Stopped \<Rightarrow> None)"

datatype watch_event = Ev_Proceed | Ev_Timeout | Ev_Done

definition endConnection :: "'p Conn \<Rightarrow> 'p Conn" where
  "endConnection c = c\<lparr>cn_done := True\<rparr>"

definition drainWatcher ::
  "nat \<Rightarrow> bool \<Rightarrow> watch_event \<Rightarrow> ('p, 'i) sys \<Rightarrow> ('p, 'i) sys option" where
  "drainWatcher k acc ev s =
     (let c = sy_conns s ! k; ss = sy_session s
      in case cn_watch c of
        Watch_Wait \<Rightarrow>
          (case ev of
             Ev_Done \<Rightarrow> if cn_done c then Some (set_conn k (c\<lparr>cn_watch := Watch_Done\<rparr>) s) else None
           | _ \<Rightarrow> (case cn_drainDeadline c of
                     None \<Rightarrow> None
                   | Some _ \<Rightarrow> Some (set_conn k (c\<lparr>cn_drainDeadline := None, cn_draining := True,
                                                 cn_watch := Watch_Report\<rparr>) s)))
      | Watch_Report \<Rightarrow>
          Some (set_conn k (c\<lparr>cn_watch := Watch_Enqueue (ss_outstanding ss)\<rparr>) s)
      | Watch_Enqueue outstanding \<Rightarrow>
          map_option (\<lambda>s1. set_conn k ((sy_conns s1 ! k)\<lparr>cn_watch := Watch_Test\<rparr>) s1)
            (enqueue_on k acc (drainStateMessage outstanding) s)
      | Watch_Test \<Rightarrow>
          Some (set_conn k (if ss_outstanding ss = 0
                            then endConnection (c\<lparr>cn_watch := Watch_Done\<rparr>)
                            else c\<lparr>cn_watch := Watch_Select\<rparr>) s)
      | Watch_Select \<Rightarrow>
          (case ev of
             Ev_Proceed \<Rightarrow> Some (set_conn k (c\<lparr>cn_watch := Watch_Report\<rparr>) s)
           | Ev_Timeout \<Rightarrow> Some (set_conn k (endConnection (c\<lparr>cn_watch := Watch_Done\<rparr>)) s)
           | Ev_Done \<Rightarrow> if cn_done c then Some (set_conn k (c\<lparr>cn_watch := Watch_Done\<rparr>) s) else None)
      | Watch_Done \<Rightarrow> None)"

section \<open>Connections\<close>

text \<open>
  Opening a generation: the hello is written directly to the stream, and the loops start when
  SessionAccepted has been received (runConnection up to the errgroup).
\<close>

definition new_conn :: "'p Session \<Rightarrow> 'p Conn" where
  "new_conn ss = \<lparr>cn_jobs = newJobRegistry, cn_queue = [], cn_sent = [helloMessage ss],
     cn_draining = False, cn_drainDeadline = None, cn_watch = Watch_Wait, cn_recv = Recv_Ready,
     cn_sequence = 0, cn_heartbeat = None,
     cn_resend = Resend_Idle, cn_done = False, cn_closed = False\<rparr>"

definition live :: "('p, 'i) sys \<Rightarrow> bool" where
  "live s \<longleftrightarrow> sy_conns s \<noteq> [] \<and> \<not> cn_closed (last (sy_conns s))"

definition current :: "('p, 'i) sys \<Rightarrow> nat" where
  "current s = length (sy_conns s) - 1"

text \<open>awaitAccepted: only a SessionAccepted lets the connection run.\<close>

definition awaitAccepted :: "ControlToRelay \<Rightarrow> bool" where
  "awaitAccepted message = (case message of Ctl_SessionAccepted _ \<Rightarrow> True | _ \<Rightarrow> False)"

definition runConnection_open :: "ControlToRelay \<Rightarrow> ('p, 'i) sys \<Rightarrow> ('p, 'i) sys option" where
  "runConnection_open message s =
     (if live s \<or> \<not> awaitAccepted message then None
      else Some (s\<lparr>sy_conns := sy_conns s @ [new_conn (sy_session s)]\<rparr>))"

text \<open>
  The receive loop ends only at a failing Recv. After group.Wait returns every job context of the connection is
  cancelled.
\<close>

definition runConnection_close :: "nat \<Rightarrow> ('p, 'i) sys \<Rightarrow> ('p, 'i) sys option" where
  "runConnection_close k s =
     (let c = sy_conns s ! k; (ids, jobs) = jobs_cancelAll (cn_jobs c)
      in if cn_done c \<and> cn_recv c = Recv_Ready
         then Some (cancel_contexts ids (set_conn k (c\<lparr>cn_jobs := jobs, cn_closed := True\<rparr>) s))
         else None)"

text \<open>What runConnection returns: no error for a graceful end.\<close>

definition runConnection_graceful :: "bool \<Rightarrow> 'p Conn \<Rightarrow> bool" where
  "runConnection_graceful ctx_ended c \<longleftrightarrow> ctx_ended \<or> cn_draining c"

section \<open>The step function and reachable states\<close>

datatype ('c, 'i) label =
  L_Connect ControlToRelay
| L_Recv ControlToRelay
| L_Handle bool
| L_Worker nat bool bool 'c
| L_Send
| L_Heartbeat bool
| L_Resend bool
| L_Watch bool watch_event
| L_Fail
| L_Close
| L_Inventory 'i

definition relay_step ::
  "(bool \<times> 'c, 'p) executor \<Rightarrow> 'i Inventory \<Rightarrow> ('c, 'i) label \<Rightarrow> ('p, 'i) sys \<Rightarrow> ('p, 'i) sys option"
where
  "relay_step execute iops l s =
     (let k = current s in
      case l of
        L_Connect message \<Rightarrow> runConnection_open message s
      | L_Worker i acc seen e \<Rightarrow>
          if i < length (sy_workers s) then worker_step execute i acc seen e s else None
      | L_Inventory i \<Rightarrow> Some (s\<lparr>sy_inventory := map_option (\<lambda>_. i) (sy_inventory s)\<rparr>)
      | L_Recv message \<Rightarrow>
          if live s \<and> cn_recv (sy_conns s ! k) = Recv_Ready
          then Some (receiveMessage iops k message s) else None
      | L_Handle acc \<Rightarrow> if live s then recv_step k acc s else None
      | L_Send \<Rightarrow>
          if live s then map_option (\<lambda>c. set_conn k c s) (sender_run_once (sy_conns s ! k)) else None
      | L_Heartbeat acc \<Rightarrow> if live s then heartbeatLoop iops k acc s else None
      | L_Resend acc \<Rightarrow> if live s then resendLoop iops k acc s else None
      | L_Watch acc ev \<Rightarrow> if live s then drainWatcher k acc ev s else None
      | L_Fail \<Rightarrow> if live s then Some (set_conn k (endConnection (sy_conns s ! k)) s) else None
      | L_Close \<Rightarrow> if live s then runConnection_close k s else None)"

definition init_sys :: "Config \<Rightarrow> 'i option \<Rightarrow> ('p, 'i) sys" where
  "init_sys config inventory = \<lparr>sy_session = session_New config, sy_conns = [], sy_workers = [],
     sy_inventory = inventory\<rparr>"

inductive reachable ::
  "(bool \<times> 'c, 'p) executor \<Rightarrow> 'i Inventory \<Rightarrow> Config \<Rightarrow> ('p, 'i) sys \<Rightarrow> bool"
  for execute iops config where
  start: "reachable execute iops config (init_sys config inventory)"
| step: "reachable execute iops config s \<Longrightarrow> relay_step execute iops l s = Some t \<Longrightarrow>
    reachable execute iops config t"

fun relay_run ::
  "(bool \<times> 'c, 'p) executor \<Rightarrow> 'i Inventory \<Rightarrow> ('c, 'i) label list \<Rightarrow> ('p, 'i) sys \<Rightarrow> ('p, 'i) sys option"
where
  "relay_run execute iops [] s = Some s"
| "relay_run execute iops (l # ls) s =
     (case relay_step execute iops l s of None \<Rightarrow> None | Some t \<Rightarrow> relay_run execute iops ls t)"

lemma relay_run_append:
  "relay_run execute iops (xs @ ys) s =
     (case relay_run execute iops xs s of None \<Rightarrow> None | Some t \<Rightarrow> relay_run execute iops ys t)"
  by (induction xs arbitrary: s) (auto split: option.splits)

lemma reachable_run:
  "reachable execute iops config s \<Longrightarrow> relay_run execute iops ls s = Some t \<Longrightarrow>
   reachable execute iops config t"
  by (induction ls arbitrary: s) (auto split: option.splits intro: reachable.step)

end
