(* ===== verification/Session_Invariants.thy ===== *)
theory Session_Invariants
  imports Session_Runtime
begin

text \<open>
  Invariants of the reachable states of the session runtime, each proved over one step of the
  machine: slot accounting, job deduplication, admission, retention of results, cancellation order,
  drain and the in-flight roster.
\<close>

section \<open>Projections of the updates\<close>

lemma set_conn_sel [simp]:
  "sy_session (set_conn k c s) = sy_session s" "sy_workers (set_conn k c s) = sy_workers s"
  "sy_conns (set_conn k c s) = (sy_conns s)[k := c]" "sy_inventory (set_conn k c s) = sy_inventory s"
  by (simp_all add: set_conn_def)

lemma set_session_sel [simp]:
  "sy_session (set_session ss s) = ss" "sy_workers (set_session ss s) = sy_workers s"
  "sy_conns (set_session ss s) = sy_conns s" "sy_inventory (set_session ss s) = sy_inventory s"
  by (simp_all add: set_session_def)

lemma set_worker_sel [simp]:
  "sy_session (set_worker i w s) = sy_session s" "sy_conns (set_worker i w s) = sy_conns s"
  "sy_workers (set_worker i w s) = (sy_workers s)[i := w]"
  by (simp_all add: set_worker_def)

lemma goto_sel [simp]:
  "sy_session (goto i pc s) = sy_session s" "sy_conns (goto i pc s) = sy_conns s"
  "sy_workers (goto i pc s) = (sy_workers s)[i := (sy_workers s ! i)\<lparr>wk_pc := pc\<rparr>]"
  by (simp_all add: goto_def)

lemma set_recv_sel [simp]:
  "sy_session (set_recv k r s) = sy_session s" "sy_workers (set_recv k r s) = sy_workers s"
  "sy_conns (set_recv k r s) = (sy_conns s)[k := (sy_conns s ! k)\<lparr>cn_recv := r\<rparr>]"
  by (simp_all add: set_recv_def)

lemma cancel_contexts_sel [simp]:
  "sy_session (cancel_contexts ids s) = sy_session s" "sy_conns (cancel_contexts ids s) = sy_conns s"
  "length (sy_workers (cancel_contexts ids s)) = length (sy_workers s)"
  by (simp_all add: cancel_contexts_def)

lemma cancel_contexts_nth:
  "i < length (sy_workers s) \<Longrightarrow> sy_workers (cancel_contexts ids s) ! i =
     (if i \<in> set ids then (sy_workers s ! i)\<lparr>wk_cancelled := True\<rparr> else sy_workers s ! i)"
  by (simp add: cancel_contexts_def nth_enumerate_eq)

lemma map_cancel_contexts:
  assumes "\<And>w. f (w\<lparr>wk_cancelled := True\<rparr>) = f w"
  shows "map f (sy_workers (cancel_contexts ids s)) = map f (sy_workers s)"
  by (rule nth_equalityI) (simp_all add: cancel_contexts_nth assms)

lemma enqueue_onE:
  assumes "enqueue_on k acc m s = Some t"
  obtains q where "t = set_conn k ((sy_conns s ! k)\<lparr>cn_queue := q\<rparr>) s"
    "q = cn_queue (sy_conns s ! k) @ [m] \<and> acc \<and> length q \<le> out_capacity s \<or>
     q = cn_queue (sy_conns s ! k) \<and> \<not> acc \<and> cn_done (sy_conns s ! k)"
  using assms by (auto simp: enqueue_on_def enqueue_def split: if_splits)

section \<open>The transitions\<close>

text \<open>
  The steps grouped by what they change. \<open>conn_frame\<close> is a change inside one connection that keeps
  its job registry and the state of its receive loop: the loops and the sender make only such steps.
\<close>

definition conn_frame :: "'p Conn \<Rightarrow> 'p Conn \<Rightarrow> bool" where
  "conn_frame c c' \<longleftrightarrow> cn_jobs c' = cn_jobs c \<and> cn_recv c' = cn_recv c \<and> cn_closed c' = cn_closed c \<and>
     (cn_done c \<longrightarrow> cn_done c') \<and> (cn_draining c \<longrightarrow> cn_draining c') \<and>
     prefix (cn_sent c @ cn_queue c) (cn_sent c' @ cn_queue c') \<and>
     prefix (cn_sent c) (cn_sent c')"

text \<open>The message a worker's program counter sends, and where it goes on.\<close>

fun worker_sends :: "JobAssignment \<Rightarrow> 'p wpc \<Rightarrow> ('p RelayToControl \<times> 'p wpc) option" where
  "worker_sends job W_Ack = Some (ack_message (ja_job_id job) (ja_lease_epoch job), W_Started)"
| "worker_sends job W_Started = Some (started_message (ja_job_id job) (ja_lease_epoch job), W_Execute)"
| "worker_sends job (W_Send r) = Some (resultMessage r, W_Remove)"
| "worker_sends job _ = None"

inductive transition :: "(bool \<times> 'c, 'p) executor \<Rightarrow> ('p, 'i) sys \<Rightarrow> ('p, 'i) sys \<Rightarrow> bool"
  for execute where
  Conn: "live s \<Longrightarrow> conn_frame (sy_conns s ! current s) c \<Longrightarrow>
    transition execute s (set_conn (current s) c s)"
| Inventory: "transition execute s (s\<lparr>sy_inventory := i\<rparr>)"
| Open: "\<not> live s \<Longrightarrow> transition execute s (s\<lparr>sy_conns := sy_conns s @ [new_conn (sy_session s)]\<rparr>)"
| Close: "live s \<Longrightarrow> c = sy_conns s ! current s \<Longrightarrow> cn_done c \<Longrightarrow> cn_recv c = Recv_Ready \<Longrightarrow>
    jobs_cancelAll (cn_jobs c) = (ids, jobs) \<Longrightarrow>
    transition execute s
      (cancel_contexts ids (set_conn (current s) (c\<lparr>cn_jobs := jobs, cn_closed := True\<rparr>) s))"
| Admit: "live s \<Longrightarrow> cn_recv (sy_conns s ! current s) = Recv_Ready \<Longrightarrow>
    \<not> cn_draining (sy_conns s ! current s) \<Longrightarrow>
    \<not> jobs_has (ja_job_id job) (cn_jobs (sy_conns s ! current s)) \<Longrightarrow>
    \<not> unacked_has (ja_job_id job) (sy_session s) \<Longrightarrow>
    ja_org_id job = sc_OrgID (ss_config (sy_session s)) \<Longrightarrow>
    ja_registration_id job = sc_RegistrationID (ss_config (sy_session s)) \<Longrightarrow>
    supportsAssignment (sy_session s) job \<Longrightarrow>
    transition execute s (set_recv (current s) (Recv_Acquire job) s)"
| Answer: "live s \<Longrightarrow> cn_recv (sy_conns s ! current s) = Recv_Ready \<Longrightarrow>
    (\<exists>m. r = Recv_Enqueue m) \<or> (\<exists>j e d. r = Recv_CancelAck j e d) \<Longrightarrow>
    transition execute s (set_recv (current s) r s)"
| Ack: "live s \<Longrightarrow> cn_recv (sy_conns s ! current s) = Recv_Ready \<Longrightarrow>
    unacked_has j (sy_session s) \<Longrightarrow>
    transition execute s (set_recv (current s) Recv_Release
      (set_session ((sy_session s)\<lparr>ss_unacked := gomap_del j (ss_unacked (sy_session s))\<rparr>) s))"
| Enqueued: "live s \<Longrightarrow> cn_recv (sy_conns s ! current s) = Recv_Enqueue m \<Longrightarrow>
    enqueue_on (current s) acc m s = Some t \<Longrightarrow>
    transition execute s (set_recv (current s) Recv_Ready t)"
| CancelAcked: "live s \<Longrightarrow> cn_recv (sy_conns s ! current s) = Recv_CancelAck j e d \<Longrightarrow>
    enqueue_on (current s) acc (Msg_CancelAck j e d) s = Some t \<Longrightarrow>
    transition execute s (set_recv (current s) (Recv_Cancel j) t)"
| Cancel: "live s \<Longrightarrow> c = sy_conns s ! current s \<Longrightarrow> cn_recv c = Recv_Cancel j \<Longrightarrow>
    jobs_cancel j (cn_jobs c) = (ids, jobs) \<Longrightarrow>
    transition execute s (cancel_contexts ids
      (set_conn (current s) (c\<lparr>cn_jobs := jobs, cn_recv := Recv_Ready\<rparr>) s))"
| Release: "live s \<Longrightarrow> cn_recv (sy_conns s ! current s) = Recv_Release \<Longrightarrow>
    transition execute s (set_recv (current s) Recv_Ready (set_session (releaseSlot (sy_session s)) s))"
| Acquire: "live s \<Longrightarrow> cn_recv (sy_conns s ! current s) = Recv_Acquire job \<Longrightarrow>
    acquireSlot (sy_session s) = (True, ss) \<Longrightarrow>
    transition execute s (set_recv (current s) (Recv_Add job) (set_session ss s))"
| Shed: "live s \<Longrightarrow> cn_recv (sy_conns s ! current s) = Recv_Acquire job \<Longrightarrow>
    transition execute s (set_recv (current s) (Recv_Enqueue intakeShed) s)"
| Add: "live s \<Longrightarrow> c = sy_conns s ! current s \<Longrightarrow> cn_recv c = Recv_Add job \<Longrightarrow>
    transition execute s (set_conn (current s)
      (c\<lparr>cn_jobs := jobs_add (length (sy_workers s)) (ja_job_id job) (cn_jobs c),
         cn_recv := Recv_Mark job\<rparr>) s)"
| Spawn: "live s \<Longrightarrow> c = sy_conns s ! current s \<Longrightarrow> cn_recv c = Recv_Mark job \<Longrightarrow>
    transition execute s (s\<lparr>sy_session := markInFlight (ja_job_id job) (ja_lease_epoch job) (sy_session s),
      sy_conns := (sy_conns s)[current s := c\<lparr>cn_recv := Recv_Ready\<rparr>],
      sy_workers := sy_workers s @
        [\<lparr>wk_conn = current s, wk_job = job, wk_cancelled = False, wk_pc = W_Ack\<rparr>]\<rparr>)"
| WSend: "i < length (sy_workers s) \<Longrightarrow> w = sy_workers s ! i \<Longrightarrow>
    worker_sends (wk_job w) (wk_pc w) = Some (m, pc) \<Longrightarrow>
    enqueue_on (wk_conn w) acc m s = Some t \<Longrightarrow>
    transition execute s (goto i pc t)"
| WExecute: "i < length (sy_workers s) \<Longrightarrow> w = sy_workers s ! i \<Longrightarrow> wk_pc w = W_Execute \<Longrightarrow>
    (seen \<longrightarrow> wk_cancelled w \<or> cn_done (sy_conns s ! wk_conn w)) \<Longrightarrow>
    r = (case execute (seen, e) (wk_job w) of None \<Rightarrow> nil_result | Some r \<Rightarrow> r) \<Longrightarrow>
    transition execute s (goto i (W_Clear r) s)"
| WClear: "i < length (sy_workers s) \<Longrightarrow> w = sy_workers s ! i \<Longrightarrow> wk_pc w = W_Clear r \<Longrightarrow>
    transition execute s
      (goto i (W_Decide r) (set_session (clearInFlight (ja_job_id (wk_job w)) (sy_session s)) s))"
| WAbandon: "i < length (sy_workers s) \<Longrightarrow> w = sy_workers s ! i \<Longrightarrow> wk_pc w = W_Decide r \<Longrightarrow>
    isCancelled r \<Longrightarrow>
    transition execute s (goto i W_Release s)"
| WKeep: "i < length (sy_workers s) \<Longrightarrow> w = sy_workers s ! i \<Longrightarrow> wk_pc w = W_Decide r \<Longrightarrow>
    \<not> isCancelled r \<or> jobs_wasExplicit (ja_job_id (wk_job w)) (cn_jobs (sy_conns s ! wk_conn w)) \<Longrightarrow>
    transition execute s (goto i (W_Deliver r) s)"
| WRelease: "i < length (sy_workers s) \<Longrightarrow> wk_pc (sy_workers s ! i) = W_Release \<Longrightarrow>
    transition execute s (goto i W_Remove (set_session (releaseSlot (sy_session s)) s))"
| WDeliver: "i < length (sy_workers s) \<Longrightarrow> wk_pc (sy_workers s ! i) = W_Deliver r \<Longrightarrow>
    transition execute s (goto i (W_Send r) (set_session (unacked_add r (sy_session s)) s))"
| WRemove: "i < length (sy_workers s) \<Longrightarrow> w = sy_workers s ! i \<Longrightarrow> wk_pc w = W_Remove \<Longrightarrow>
    c = sy_conns s ! wk_conn w \<Longrightarrow> jobs_remove (ja_job_id (wk_job w)) (cn_jobs c) = (ids, jobs) \<Longrightarrow>
    transition execute s
      (goto i W_Done (cancel_contexts ids (set_conn (wk_conn w) (c\<lparr>cn_jobs := jobs\<rparr>) s)))"

lemma set_conn_same: "k < length (sy_conns s) \<Longrightarrow> set_conn k (sy_conns s ! k) s = s"
  by (simp add: set_conn_def)

lemma live_current: "live s \<Longrightarrow> current s < length (sy_conns s)"
  by (simp add: live_def current_def)

lemma transition_idle: "live s \<Longrightarrow> transition execute s s"
  using transition.Conn [of s "sy_conns s ! current s" execute] live_current [of s]
  by (simp add: conn_frame_def set_conn_same)

lemma transition_worker:
  assumes "worker_step execute i acc seen e s = Some t" "i < length (sy_workers s)"
  shows "transition execute s t"
  using assms
  by (auto simp: worker_step_def Let_def split: wpc.splits if_splits prod.splits
      intro: transition.intros)

lemma acquireSlot_False: "acquireSlot ss = (False, ss') \<Longrightarrow> ss' = ss"
  by (simp add: acquireSlot_def split: if_splits)

lemma set_session_same [simp]: "set_session (sy_session s) s = s"
  by (simp add: set_session_def)

lemma transition_recv_step:
  assumes "recv_step (current s) acc s = Some t" "live s"
  shows "transition execute s t"
proof (cases "cn_recv (sy_conns s ! current s)")
  case (Recv_Mark job)
  with assms transition.Spawn [OF assms(2) refl Recv_Mark] show ?thesis
    by (simp add: recv_step_def Let_def set_recv_def set_session_def set_conn_def)
next
  case (Recv_Acquire job)
  with assms show ?thesis
    by (auto simp: recv_step_def split: bool.splits prod.splits dest!: acquireSlot_False
        intro: transition.Acquire transition.Shed)
qed (use assms in \<open>auto simp: recv_step_def Let_def split: prod.splits intro: transition.intros\<close>)

lemma set_conn_twice [simp]: "set_conn k c' (set_conn k c s) = set_conn k c' s"
  by (simp add: set_conn_def)

lemma conn_frame_trans: "conn_frame a b \<Longrightarrow> conn_frame b c \<Longrightarrow> conn_frame a c"
  by (auto simp: conn_frame_def intro: prefix_order.trans)

lemma conn_frame_queue: "prefix (cn_queue c) q \<Longrightarrow> conn_frame c (c\<lparr>cn_queue := q\<rparr>)"
  by (simp add: conn_frame_def)

lemma transition_enqueued:
  assumes "map_option (\<lambda>s1. set_conn (current s) (f (sy_conns s1 ! current s)) s1)
             (enqueue_on (current s) acc m s) = Some t"
    and "live s" "\<And>c. conn_frame c (f c)"
  shows "transition execute s t"
proof -
  from assms(1) obtain s1 where s1: "enqueue_on (current s) acc m s = Some s1"
    "t = set_conn (current s) (f (sy_conns s1 ! current s)) s1" by auto
  from s1(1) obtain q where "s1 = set_conn (current s) ((sy_conns s ! current s)\<lparr>cn_queue := q\<rparr>) s"
    and "prefix (cn_queue (sy_conns s ! current s)) q"
    by (rule enqueue_onE) auto
  then have q: "t = set_conn (current s) (f ((sy_conns s ! current s)\<lparr>cn_queue := q\<rparr>)) s"
    "prefix (cn_queue (sy_conns s ! current s)) q"
    using s1(2) live_current [OF assms(2)] by simp_all
  have "conn_frame (sy_conns s ! current s) (f ((sy_conns s ! current s)\<lparr>cn_queue := q\<rparr>))"
    by (rule conn_frame_trans [OF conn_frame_queue [OF q(2)] assms(3)])
  then show ?thesis
    using transition.Conn [OF assms(2)] q(1) by simp
qed

lemma transition_set_conn:
  "live s \<Longrightarrow> conn_frame (sy_conns s ! current s) c \<Longrightarrow> Some (set_conn (current s) c s) = Some t \<Longrightarrow>
   transition execute s t"
  by (auto intro: transition.Conn)

lemma transition_heartbeatLoop:
  "heartbeatLoop iops (current s) acc s = Some t \<Longrightarrow> live s \<Longrightarrow> transition execute s t"
  by (auto simp: heartbeatLoop_def Let_def conn_frame_def split: option.splits
      intro: transition.Conn transition_enqueued)

lemma transition_resendLoop:
  "resendLoop iops (current s) acc s = Some t \<Longrightarrow> live s \<Longrightarrow> transition execute s t"
  by (auto simp: resendLoop_def Let_def conn_frame_def split: option.splits resend.splits list.splits
      intro: transition.Conn transition_enqueued)

lemma transition_drainWatcher:
  "drainWatcher (current s) acc ev s = Some t \<Longrightarrow> live s \<Longrightarrow> transition execute s t"
  by (auto simp: drainWatcher_def Let_def conn_frame_def endConnection_def
      split: option.splits watch.splits watch_event.splits if_splits
      intro: transition.Conn transition_enqueued)

lemma transition_receiveMessage:
  assumes "live s" "cn_recv (sy_conns s ! current s) = Recv_Ready"
  shows "transition execute s (receiveMessage iops (current s) message s)"
  using assms transition_idle [OF assms(1), of execute]
  by (cases message)
    (auto simp: receiveMessage_def dispatchAssignment_def handleCancellation_def unacked_ack_def
      unacked_has_def [symmetric] Let_def conn_frame_def
      intro: transition.Conn transition.Inventory transition.Admit transition.Answer transition.Ack)

lemma relay_step_transition:
  assumes "relay_step execute iops l s = Some t"
  shows "transition execute s t"
proof (cases l)
  case L_Send
  with assms show ?thesis
    by (auto simp: relay_step_def Let_def sender_run_once_def conn_frame_def
        split: list.splits if_splits intro!: transition.Conn)
next
  case L_Close
  with assms show ?thesis
    by (auto simp: relay_step_def runConnection_close_def Let_def split: if_splits prod.splits
        intro: transition.Close)
qed (use assms in \<open>auto simp: relay_step_def Let_def runConnection_open_def endConnection_def conn_frame_def
       split: if_splits
       intro: transition.Inventory transition.Open transition_worker transition_receiveMessage
         transition_recv_step transition_heartbeatLoop transition_resendLoop transition_drainWatcher
         transition.Conn\<close>)

section \<open>Shape of the state\<close>

text \<open>Only the last connection can be open, and a closed one is finished receiving.\<close>

definition wf_sys :: "('p, 'i) sys \<Rightarrow> bool" where
  "wf_sys s \<longleftrightarrow>
     (\<forall>i < length (sy_workers s). wk_conn (sy_workers s ! i) < length (sy_conns s)) \<and>
     (\<forall>k < length (sy_conns s).
        (k \<noteq> current s \<longrightarrow> cn_closed (sy_conns s ! k)) \<and>
        (cn_closed (sy_conns s ! k) \<longrightarrow> cn_done (sy_conns s ! k) \<and> cn_recv (sy_conns s ! k) = Recv_Ready))"

lemma wf_sys_worker: "wf_sys s \<Longrightarrow> i < length (sy_workers s) \<Longrightarrow> wk_conn (sy_workers s ! i) < length (sy_conns s)"
  by (simp add: wf_sys_def)

text \<open>An update of one connection or one worker that keeps what the shape speaks of.\<close>

lemma wf_sys_update:
  assumes "wf_sys s" "length (sy_conns t) = length (sy_conns s)"
    "map wk_conn (sy_workers t) = map wk_conn (sy_workers s)"
    "\<And>j. j < length (sy_conns s) \<Longrightarrow> cn_closed (sy_conns t ! j) = cn_closed (sy_conns s ! j) \<and>
       (cn_done (sy_conns s ! j) \<longrightarrow> cn_done (sy_conns t ! j)) \<and>
       (cn_recv (sy_conns t ! j) = cn_recv (sy_conns s ! j) \<or> \<not> cn_closed (sy_conns s ! j))"
  shows "wf_sys t"
proof -
  have "length (sy_workers t) = length (sy_workers s)"
    using arg_cong [OF assms(3), of length] by simp
  moreover have "wk_conn (sy_workers t ! i) = wk_conn (sy_workers s ! i)" if "i < length (sy_workers s)" for i
    using arg_cong [OF assms(3), of "\<lambda>xs. xs ! i"] that calculation by simp
  ultimately show ?thesis
    using assms(1,2,4) unfolding wf_sys_def current_def by metis
qed

lemma live_open: "live s \<Longrightarrow> \<not> cn_closed (sy_conns s ! current s)"
  by (auto simp: live_def current_def last_conv_nth)

lemma not_live_closed:
  assumes "wf_sys s" "\<not> live s" "k < length (sy_conns s)"
  shows "cn_closed (sy_conns s ! k)"
proof -
  from assms(3) have "last (sy_conns s) = sy_conns s ! current s"
    by (cases "sy_conns s = []") (simp_all add: last_conv_nth current_def)
  with assms show ?thesis
    by (cases "k = current s") (auto simp: wf_sys_def live_def)
qed

lemma wf_sys_transition:
  assumes "transition execute s t" "wf_sys s"
  shows "wf_sys t"
  using assms(1)
proof cases
  case Open
  with assms(2) not_live_closed [OF assms(2)] show ?thesis
    by (auto simp: wf_sys_def new_conn_def current_def nth_append less_Suc_eq)
next
  case (Close c ids jobs)
  with assms(2) live_current [of s] show ?thesis
    by (auto simp: wf_sys_def current_def nth_list_update cancel_contexts_nth)
next
  case (Spawn c job)
  with assms(2) live_current [of s] live_open [of s] show ?thesis
    by (auto simp: wf_sys_def current_def nth_list_update nth_append)
qed (use live_open [of s] live_current [of s] in \<open>auto intro!: wf_sys_update [OF assms(2)]
       simp: nth_list_update conn_frame_def map_cancel_contexts map_update_same wf_sys_worker [OF assms(2)]
       elim!: enqueue_onE split: if_splits\<close>)

section \<open>Slot accounting\<close>

text \<open>
  A slot is held by a worker that has neither retained its result nor abandoned the job, and by the
  receive loop between an acquire and the spawn, or between an ack and its release.
\<close>

fun slot_weight :: "'p wpc \<Rightarrow> nat" where
  "slot_weight (W_Send _) = 0"
| "slot_weight W_Remove = 0"
| "slot_weight W_Done = 0"
| "slot_weight _ = 1"

fun recv_weight :: "'p recv \<Rightarrow> nat" where
  "recv_weight Recv_Release = 1"
| "recv_weight (Recv_Add _) = 1"
| "recv_weight (Recv_Mark _) = 1"
| "recv_weight _ = 0"

definition slot_holders :: "('p, 'i) sys \<Rightarrow> nat" where
  "slot_holders s = sum_list (map (\<lambda>w. slot_weight (wk_pc w)) (sy_workers s)) +
     sum_list (map (\<lambda>c. recv_weight (cn_recv c)) (sy_conns s))"

definition slots_inv :: "('p, 'i) sys \<Rightarrow> bool" where
  "slots_inv s \<longleftrightarrow> gomap_wf (ss_unacked (sy_session s)) \<and>
     length (ss_unacked (sy_session s)) + slot_holders s \<le> ss_outstanding (sy_session s) \<and>
     ss_outstanding (sy_session s) \<le> ss_capacity (sy_session s)"

lemma slot_holders_set_conn [simp]:
  "k < length (sy_conns s) \<Longrightarrow> int (slot_holders (set_conn k c s)) =
     int (slot_holders s) + int (recv_weight (cn_recv c)) - int (recv_weight (cn_recv (sy_conns s ! k)))"
  by (simp add: slot_holders_def sum_list_map_update)

lemma slot_holders_set_conn_same:
  "k < length (sy_conns s) \<Longrightarrow> cn_recv c = cn_recv (sy_conns s ! k) \<Longrightarrow>
   slot_holders (set_conn k c s) = slot_holders s"
  by (simp add: slot_holders_def map_update_same)

lemma slot_holders_set_recv [simp]:
  "k < length (sy_conns s) \<Longrightarrow> int (slot_holders (set_recv k r s)) =
     int (slot_holders s) + int (recv_weight r) - int (recv_weight (cn_recv (sy_conns s ! k)))"
  by (simp add: set_recv_def)

lemma slot_holders_goto [simp]:
  "i < length (sy_workers s) \<Longrightarrow> int (slot_holders (goto i pc s)) =
     int (slot_holders s) + int (slot_weight pc) - int (slot_weight (wk_pc (sy_workers s ! i)))"
  by (simp add: slot_holders_def sum_list_map_update)

lemma slot_holders_other [simp]:
  "slot_holders (set_session ss s) = slot_holders s"
  "slot_holders (s\<lparr>sy_inventory := i\<rparr>) = slot_holders s"
  "slot_holders (cancel_contexts ids s) = slot_holders s"
  by (simp_all add: slot_holders_def map_cancel_contexts)

lemma slot_holders_enqueue [simp]:
  assumes "enqueue_on k acc m s = Some t" "k < length (sy_conns s)"
  shows "slot_holders t = slot_holders s" "sy_session t = sy_session s"
    "length (sy_conns t) = length (sy_conns s)" "sy_workers t = sy_workers s"
    "cn_recv (sy_conns t ! k) = cn_recv (sy_conns s ! k)"
  using assms by (auto elim!: enqueue_onE simp: slot_holders_set_conn_same)

text \<open>A slot is released only while one is held, so a release always frees exactly one.\<close>

lemma slots_inv_int:
  "slots_inv s \<longleftrightarrow> gomap_wf (ss_unacked (sy_session s)) \<and>
     int (length (ss_unacked (sy_session s))) + int (slot_holders s) \<le> int (ss_outstanding (sy_session s)) \<and>
     ss_outstanding (sy_session s) \<le> ss_capacity (sy_session s)"
  unfolding slots_inv_def by linarith

lemma worker_sends_weight:
  "worker_sends job pc = Some (m, pc') \<Longrightarrow> slot_weight pc' = slot_weight pc"
  by (cases pc) auto

lemma slots_inv_transition:
  assumes "transition execute s t" "wf_sys s" "slots_inv s"
  shows "slots_inv t"
  using assms(1)
proof cases
  case Open
  with assms(3) show ?thesis by (simp add: slots_inv_def slot_holders_def new_conn_def)
next
  case (Spawn c job)
  with assms(3) live_current [of s] show ?thesis
    by (simp add: slots_inv_int slot_holders_def sum_list_map_update)
next
  case (WSend i w m pc acc u)
  with assms(3) wf_sys_worker [OF assms(2), of i] show ?thesis
    by (simp add: slots_inv_int worker_sends_weight)
next
  case (WDeliver i r)
  with assms(3) show ?thesis
    by (auto simp: slots_inv_int unacked_add_def gomap_simps length_gomap_set)
next
  case (WRemove i w c ids jobs)
  with assms(3) wf_sys_worker [OF assms(2), of i] show ?thesis
    by (simp add: slots_inv_int cancel_contexts_nth)
next
  case (Ack j)
  with assms(3) live_current [of s] obtain r rs where "ss_unacked (sy_session s) = r # rs"
    by (cases "ss_unacked (sy_session s)") (auto simp: unacked_has_def)
  moreover from Ack assms(3)
  have "length (gomap_del j (ss_unacked (sy_session s))) = length (ss_unacked (sy_session s)) - 1"
    by (simp add: slots_inv_def unacked_has_def length_gomap_del)
  ultimately show ?thesis
    using Ack assms(3) live_current [of s] by (simp add: slots_inv_int)
qed (use assms(3) live_current [of s] in \<open>auto simp: slots_inv_int conn_frame_def acquireSlot_def
       releaseSlot_def split: if_splits\<close>)

section \<open>Deduplication on a connection\<close>

abbreviation job_of :: "('p, 'i) sys \<Rightarrow> nat \<Rightarrow> string" where
  "job_of s i \<equiv> ja_job_id (wk_job (sy_workers s ! i))"

abbreviation conn_of :: "('p, 'i) sys \<Rightarrow> nat \<Rightarrow> nat" where
  "conn_of s i \<equiv> wk_conn (sy_workers s ! i)"

abbreviation pc_of :: "('p, 'i) sys \<Rightarrow> nat \<Rightarrow> 'p wpc" where
  "pc_of s i \<equiv> wk_pc (sy_workers s ! i)"

definition unique_workers :: "('p, 'i) sys \<Rightarrow> bool" where
  "unique_workers s \<longleftrightarrow> (\<forall>j < length (sy_workers s). \<forall>i < j.
     conn_of s i = conn_of s j \<longrightarrow> job_of s i = job_of s j \<longrightarrow> pc_of s i = W_Done)"

definition registered_workers :: "('p, 'i) sys \<Rightarrow> bool" where
  "registered_workers s \<longleftrightarrow> (\<forall>i < length (sy_workers s). pc_of s i \<noteq> W_Done \<longrightarrow>
     \<not> cn_closed (sy_conns s ! conn_of s i) \<longrightarrow>
     jobs_has (job_of s i) (cn_jobs (sy_conns s ! conn_of s i)))"

text \<open>What the receive loop knows of the job it is admitting on connection \<open>k\<close>.\<close>

definition admitting :: "('p, 'i) sys \<Rightarrow> nat \<Rightarrow> bool" where
  "admitting s k \<longleftrightarrow>
     (case cn_recv (sy_conns s ! k) of
        Recv_Acquire job \<Rightarrow> \<not> jobs_has (ja_job_id job) (cn_jobs (sy_conns s ! k))
      | Recv_Add job \<Rightarrow> \<not> jobs_has (ja_job_id job) (cn_jobs (sy_conns s ! k))
      | Recv_Mark job \<Rightarrow> jobs_has (ja_job_id job) (cn_jobs (sy_conns s ! k)) \<and>
          (\<forall>i < length (sy_workers s).
             conn_of s i = k \<longrightarrow> job_of s i = ja_job_id job \<longrightarrow> pc_of s i = W_Done)
      | _ \<Rightarrow> True)"

definition dedup_inv :: "('p, 'i) sys \<Rightarrow> bool" where
  "dedup_inv s \<longleftrightarrow> unique_workers s \<and> registered_workers s \<and>
     (\<forall>k < length (sy_conns s). admitting s k)"

text \<open>Steps that keep the workers' identities, the finished workers and the registries.\<close>

definition same_workers :: "('p, 'i) sys \<Rightarrow> ('p, 'i) sys \<Rightarrow> bool" where
  "same_workers s t \<longleftrightarrow> length (sy_workers t) = length (sy_workers s) \<and>
     (\<forall>i < length (sy_workers s). conn_of t i = conn_of s i \<and> wk_job (sy_workers t ! i) = wk_job (sy_workers s ! i) \<and>
        (pc_of s i = W_Done \<longrightarrow> pc_of t i = W_Done))"

lemma same_workers_refl [simp]: "same_workers s s"
  by (simp add: same_workers_def)

lemma unique_workers_same: "unique_workers s \<Longrightarrow> same_workers s t \<Longrightarrow> unique_workers t"
  unfolding unique_workers_def same_workers_def by fastforce

lemma registered_workers_same:
  assumes "registered_workers s" "same_workers s t" "wf_sys s"
    "\<And>k. k < length (sy_conns s) \<Longrightarrow> cn_closed (sy_conns s ! k) \<longrightarrow> cn_closed (sy_conns t ! k)"
    "\<And>k j. k < length (sy_conns s) \<Longrightarrow> \<not> cn_closed (sy_conns t ! k) \<Longrightarrow>
       jobs_has j (cn_jobs (sy_conns s ! k)) \<Longrightarrow> jobs_has j (cn_jobs (sy_conns t ! k))"
  shows "registered_workers t"
  unfolding registered_workers_def
proof (intro allI impI)
  fix i assume i: "i < length (sy_workers t)" "pc_of t i \<noteq> W_Done"
    "\<not> cn_closed (sy_conns t ! conn_of t i)"
  from i assms(2) have eq: "i < length (sy_workers s)" "conn_of t i = conn_of s i"
    "job_of t i = job_of s i" "pc_of s i \<noteq> W_Done"
    by (auto simp: same_workers_def)
  from wf_sys_worker [OF assms(3) eq(1)] assms(4,5) i eq assms(1)
  show "jobs_has (job_of t i) (cn_jobs (sy_conns t ! conn_of t i))"
    by (auto simp: registered_workers_def)
qed

lemma admitting_same:
  assumes "admitting s k" "same_workers s t"
    "cn_recv (sy_conns t ! k) = cn_recv (sy_conns s ! k)"
    "\<And>j. jobs_has j (cn_jobs (sy_conns t ! k)) = jobs_has j (cn_jobs (sy_conns s ! k))"
  shows "admitting t k"
  using assms by (auto simp: admitting_def same_workers_def split: recv.splits)

lemma same_workers_transition:
  assumes "transition execute s t" "length (sy_workers t) = length (sy_workers s)"
  shows "same_workers s t"
  using assms
  by cases (auto simp: same_workers_def nth_list_update cancel_contexts_nth elim!: enqueue_onE)

lemma dedup_inv_same:
  assumes "dedup_inv s" "same_workers s t" "wf_sys s"
    "length (sy_conns t) = length (sy_conns s)"
    "\<And>k. k < length (sy_conns s) \<Longrightarrow>
       cn_closed (sy_conns t ! k) = cn_closed (sy_conns s ! k) \<and>
       (\<forall>j. jobs_has j (cn_jobs (sy_conns t ! k)) = jobs_has j (cn_jobs (sy_conns s ! k)))"
    "\<And>k. k < length (sy_conns s) \<Longrightarrow> cn_recv (sy_conns t ! k) = cn_recv (sy_conns s ! k) \<or> admitting t k"
  shows "dedup_inv t"
  unfolding dedup_inv_def
proof (intro conjI allI impI)
  show "unique_workers t" using assms(1,2) unique_workers_same by (auto simp: dedup_inv_def)
  show "registered_workers t"
    using assms by (intro registered_workers_same [OF _ assms(2,3)]) (auto simp: dedup_inv_def)
  show "admitting t k" if "k < length (sy_conns t)" for k
    using assms that admitting_same [OF _ assms(2), of k] by (auto simp: dedup_inv_def)
qed

lemma dedup_inv_Open:
  assumes "dedup_inv s" "wf_sys s"
  shows "dedup_inv (s\<lparr>sy_conns := sy_conns s @ [new_conn ss]\<rparr>)"
  using assms wf_sys_worker [OF assms(2)]
  by (auto simp: dedup_inv_def unique_workers_def registered_workers_def admitting_def nth_append
      new_conn_def less_Suc_eq split: recv.splits)

lemma dedup_inv_Close:
  assumes "dedup_inv s" "wf_sys s" "k < length (sy_conns s)" "c = sy_conns s ! k"
    "cn_recv c = Recv_Ready"
  shows "dedup_inv (cancel_contexts ids (set_conn k (c\<lparr>cn_jobs := jobs, cn_closed := True\<rparr>) s))"
    (is "dedup_inv ?t")
proof -
  have same: "same_workers s ?t" by (simp add: same_workers_def cancel_contexts_nth)
  have "admitting ?t j" if "j < length (sy_conns s)" for j
  proof (cases "j = k")
    case True
    with assms show ?thesis by (simp add: admitting_def)
  next
    case False
    with assms(1) that show ?thesis
      by (intro admitting_same [OF _ same]) (auto simp: dedup_inv_def)
  qed
  moreover have "registered_workers ?t"
    using assms by (intro registered_workers_same [OF _ same]) (auto simp: dedup_inv_def nth_list_update split: if_splits)
  ultimately show ?thesis
    using assms(1) unique_workers_same [OF _ same] by (simp add: dedup_inv_def)
qed

lemma dedup_inv_Add:
  assumes "dedup_inv s" "wf_sys s" "k < length (sy_conns s)" "c = sy_conns s ! k"
    "cn_recv c = Recv_Add job" "\<not> cn_closed c"
  shows "dedup_inv (set_conn k (c\<lparr>cn_jobs := jobs_add n (ja_job_id job) (cn_jobs c),
    cn_recv := Recv_Mark job\<rparr>) s)" (is "dedup_inv ?t")
proof -
  have same: "same_workers s ?t" by (simp add: same_workers_def)
  have "\<not> jobs_has (ja_job_id job) (cn_jobs c)"
    using assms by (auto simp: dedup_inv_def admitting_def)
  then have "pc_of s i = W_Done"
    if "i < length (sy_workers s)" "conn_of s i = k" "job_of s i = ja_job_id job" for i
    using assms that by (auto simp: dedup_inv_def registered_workers_def)
  then have "admitting ?t j" if "j < length (sy_conns s)" for j
    using assms that by (cases "j = k") (auto simp: admitting_def dedup_inv_def split: recv.splits)
  moreover have "registered_workers ?t"
    using assms by (intro registered_workers_same [OF _ same]) (auto simp: dedup_inv_def nth_list_update split: if_splits)
  ultimately show ?thesis
    using assms(1) unique_workers_same [OF _ same] by (simp add: dedup_inv_def)
qed

lemma dedup_inv_Spawn:
  assumes "dedup_inv s" "wf_sys s" "k < length (sy_conns s)" "c = sy_conns s ! k"
    "cn_recv c = Recv_Mark job" "k = current s"
  shows "dedup_inv (s\<lparr>sy_session := ss, sy_conns := (sy_conns s)[k := c\<lparr>cn_recv := Recv_Ready\<rparr>],
    sy_workers := sy_workers s @
      [\<lparr>wk_conn = k, wk_job = job, wk_cancelled = False, wk_pc = W_Ack\<rparr>]\<rparr>)" (is "dedup_inv ?t")
proof -
  have mark: "jobs_has (ja_job_id job) (cn_jobs c)"
    "\<forall>i < length (sy_workers s). conn_of s i = k \<longrightarrow> job_of s i = ja_job_id job \<longrightarrow> pc_of s i = W_Done"
    using assms by (auto simp: dedup_inv_def admitting_def)
  have "unique_workers ?t"
    using assms(1) mark(2) by (auto simp: dedup_inv_def unique_workers_def nth_append less_Suc_eq)
  moreover have "registered_workers ?t"
    using assms mark(1) wf_sys_worker [OF assms(2)]
    by (auto simp: dedup_inv_def registered_workers_def nth_append nth_list_update less_Suc_eq)
  moreover have "admitting ?t j" if "j < length (sy_conns s)" for j
  proof (cases "j = k")
    case True
    with assms show ?thesis by (simp add: admitting_def)
  next
    case False
    with assms that have "cn_recv (sy_conns s ! j) = Recv_Ready" by (simp add: wf_sys_def)
    with False show ?thesis by (simp add: admitting_def)
  qed
  ultimately show ?thesis by (simp add: dedup_inv_def)
qed

lemma dedup_inv_Remove:
  assumes "dedup_inv s" "wf_sys s" "i < length (sy_workers s)" "w = sy_workers s ! i"
    "wk_pc w = W_Remove" "c = sy_conns s ! wk_conn w"
    "jobs_remove (ja_job_id (wk_job w)) (cn_jobs c) = (ids, jobs)"
  shows "dedup_inv (goto i W_Done (cancel_contexts ids (set_conn (wk_conn w) (c\<lparr>cn_jobs := jobs\<rparr>) s)))"
    (is "dedup_inv ?t")
proof -
  let ?k = "wk_conn w" and ?j = "ja_job_id (wk_job w)"
  have has: "jobs_has j jobs \<longleftrightarrow> j \<noteq> ?j \<and> jobs_has j (cn_jobs c)" for j
    using jobs_has_remove [of j ?j "cn_jobs c"] assms(7) by simp
  have same: "same_workers s ?t"
    using assms(3) by (auto simp: same_workers_def nth_list_update cancel_contexts_nth)
  have u: "unique_workers s" and r: "registered_workers s" using assms(1) by (auto simp: dedup_inv_def)
  have other: "pc_of s n = W_Done" if "n < length (sy_workers s)" "n \<noteq> i" "conn_of s n = ?k" "job_of s n = ?j" for n
  proof (cases "n < i")
    case True
    with u assms(3,4) that show ?thesis unfolding unique_workers_def by simp
  next
    case False
    with u assms(4) that have "pc_of s i = W_Done" unfolding unique_workers_def by simp
    with assms(4,5) show ?thesis by simp
  qed
  have "registered_workers ?t"
    unfolding registered_workers_def
  proof (intro allI impI)
    fix n assume n: "n < length (sy_workers ?t)" "pc_of ?t n \<noteq> W_Done" "\<not> cn_closed (sy_conns ?t ! conn_of ?t n)"
    then have n': "n < length (sy_workers s)" "n \<noteq> i" "conn_of ?t n = conn_of s n" "job_of ?t n = job_of s n"
      "pc_of s n \<noteq> W_Done"
      using assms(3) by (auto simp: nth_list_update cancel_contexts_nth split: if_splits)
    have lt: "conn_of s n < length (sy_conns s)" by (rule wf_sys_worker [OF assms(2) n'(1)])
    have reg: "\<not> cn_closed (sy_conns s ! conn_of s n) \<Longrightarrow>
        jobs_has (job_of s n) (cn_jobs (sy_conns s ! conn_of s n))"
      using r n'(1,5) by (simp add: registered_workers_def)
    show "jobs_has (job_of ?t n) (cn_jobs (sy_conns ?t ! conn_of ?t n))"
    proof (cases "conn_of s n = ?k")
      case True
      with other [of n] n' have "job_of s n \<noteq> ?j" by auto
      with True n n' lt reg assms(6) show ?thesis by (simp add: has)
    next
      case False
      with n n' reg show ?thesis by simp
    qed
  qed
  moreover have "admitting ?t n" if "n < length (sy_conns s)" for n
  proof (cases "n = ?k")
    case False
    with assms(1) that show ?thesis
      by (intro admitting_same [OF _ same]) (simp_all add: dedup_inv_def)
  next
    case True
    have adm: "admitting s ?k" using assms(1) that True by (simp add: dedup_inv_def)
    have conn: "sy_conns ?t ! ?k = c\<lparr>cn_jobs := jobs\<rparr>" using that True by simp
    show ?thesis
    proof (cases "cn_recv c")
      case (Recv_Mark job)
      with adm assms(3-6) have "ja_job_id job \<noteq> ?j" by (auto simp: admitting_def)
      with adm Recv_Mark same assms(6) True conn show ?thesis
        unfolding admitting_def same_workers_def by (simp add: has)
    qed (use adm assms(6) True conn in \<open>simp_all add: admitting_def has\<close>)
  qed
  ultimately show ?thesis
    using unique_workers_same [OF u same] by (simp add: dedup_inv_def)
qed

lemma dedup_inv_set_conn:
  assumes "dedup_inv s" "wf_sys s" "k < length (sy_conns s)"
    "cn_closed c = cn_closed (sy_conns s ! k)"
    "\<And>j. jobs_has j (cn_jobs c) = jobs_has j (cn_jobs (sy_conns s ! k))"
    "cn_recv c = cn_recv (sy_conns s ! k) \<or> admitting (set_conn k c s) k"
  shows "dedup_inv (set_conn k c s)"
  using assms(3-6)
  by (intro dedup_inv_same [OF assms(1) _ assms(2)]) (auto simp: same_workers_def nth_list_update)

lemma dedup_inv_cong:
  assumes "dedup_inv s" "wf_sys s" "same_workers s t" "sy_conns t = sy_conns s"
  shows "dedup_inv t"
  using assms(4) by (intro dedup_inv_same [OF assms(1,3,2)]) simp_all

lemma dedup_inv_set_recv:
  assumes "dedup_inv s" "wf_sys s" "k < length (sy_conns s)" "admitting (set_recv k r s) k"
  shows "dedup_inv (set_recv k r s)"
  using assms unfolding set_recv_def by (intro dedup_inv_set_conn) simp_all

lemma dedup_inv_enqueue:
  assumes "dedup_inv s" "wf_sys s" "k < length (sy_conns s)" "enqueue_on k acc m s = Some t"
  shows "dedup_inv t"
  using assms(4) by (rule enqueue_onE) (simp add: dedup_inv_set_conn [OF assms(1-3)])

lemma wf_sys_cong:
  assumes "wf_sys s" "sy_conns t = sy_conns s" "sy_workers t = sy_workers s"
  shows "wf_sys t"
  using assms by (simp add: wf_sys_def current_def)

lemma wf_sys_enqueue:
  assumes "wf_sys s" "enqueue_on k acc m s = Some t" "k < length (sy_conns s)"
  shows "wf_sys t"
  using assms(2) by (rule enqueue_onE)
    (use assms(3) in \<open>auto intro!: wf_sys_update [OF assms(1)] simp: nth_list_update split: if_splits\<close>)

lemma dedup_inv_transition:
  assumes "transition execute s t" "wf_sys s" "dedup_inv s"
  shows "dedup_inv t"
proof -
  have session: "dedup_inv (set_session ss s)" "wf_sys (set_session ss s)" for ss
    by (rule dedup_inv_cong [OF assms(3,2)], simp_all add: same_workers_def)
      (rule wf_sys_cong [OF assms(2)], simp_all)
  from assms(1) have same: "sy_conns t = sy_conns s \<Longrightarrow> length (sy_workers t) = length (sy_workers s) \<Longrightarrow>
      dedup_inv t"
    by (intro dedup_inv_cong [OF assms(3,2)] same_workers_transition)
  from assms(1) show ?thesis
  proof cases
    case (Conn c)
    with live_current [of s] show ?thesis
      by (simp add: dedup_inv_set_conn [OF assms(3,2)] conn_frame_def)
  next
    case Open
    then show ?thesis using dedup_inv_Open [OF assms(3,2)] by simp
  next
    case (Close c ids jobs)
    then show ?thesis
      using dedup_inv_Close [OF assms(3,2) live_current [OF Close(2)] Close(3,5)] by simp
  next
    case (Add c job)
    then show ?thesis
      using dedup_inv_Add [OF assms(3,2) live_current [OF Add(2)] Add(3,4)] live_open [OF Add(2)] by simp
  next
    case (Spawn c job)
    then show ?thesis
      using dedup_inv_Spawn [OF assms(3,2) live_current [OF Spawn(2)] Spawn(3,4) refl] by simp
  next
    case (WRemove i w c ids jobs)
    then show ?thesis using dedup_inv_Remove [OF assms(3,2) WRemove(2-6)] by simp
  next
    case (WSend i w m pc acc u)
    with wf_sys_worker [OF assms(2), of i]
    have u: "dedup_inv u" "wf_sys u" "sy_workers u = sy_workers s"
      using dedup_inv_enqueue [OF assms(3,2) _ WSend(5)] wf_sys_enqueue [OF assms(2) WSend(5)] by simp_all
    with WSend have "same_workers u t" by (auto simp: same_workers_def nth_list_update)
    then show ?thesis using WSend(1) by (intro dedup_inv_cong [OF u(1,2)]) simp_all
  next
    case (Cancel c j ids jobs)
    have "dedup_inv (set_conn (current s) (c\<lparr>cn_jobs := jobs, cn_recv := Recv_Ready\<rparr>) s)" (is "dedup_inv ?u")
      using jobs_has_cancel [of n j "cn_jobs c" for n, unfolded Cancel(5) snd_conv] Cancel live_current [of s]
      by (intro dedup_inv_set_conn [OF assms(3,2)]) (simp_all add: admitting_def)
    moreover have "wf_sys ?u"
      using Cancel live_current [of s] live_open [of s]
      by (auto intro!: wf_sys_update [OF assms(2)] simp: nth_list_update split: if_splits)
    ultimately show ?thesis
      unfolding Cancel(1) by (rule dedup_inv_cong) (simp_all add: same_workers_def cancel_contexts_nth)
  next
    case (Acquire job ss)
    then have "admitting s (current s)" using assms(3) live_current [of s] by (simp add: dedup_inv_def)
    with Acquire live_current [of s] show ?thesis
      by (simp add: dedup_inv_set_recv [OF session] admitting_def)
  next
    case (Enqueued m acc u)
    with live_current [of s] dedup_inv_enqueue [OF assms(3,2) _ Enqueued(4)] wf_sys_enqueue [OF assms(2) Enqueued(4)]
    show ?thesis by (simp add: dedup_inv_set_recv admitting_def)
  next
    case (CancelAcked j e d acc u)
    with live_current [of s] dedup_inv_enqueue [OF assms(3,2) _ CancelAcked(4)]
      wf_sys_enqueue [OF assms(2) CancelAcked(4)]
    show ?thesis by (simp add: dedup_inv_set_recv admitting_def)
  next
    case (Answer r)
    with live_current [of s] show ?thesis
      by (auto simp: dedup_inv_set_recv [OF assms(3,2)] admitting_def)
  next
    case (Admit job)
    with live_current [of s] show ?thesis
      by (auto simp: dedup_inv_set_recv [OF assms(3,2)] admitting_def)
  next
    case (Shed job)
    with live_current [of s] show ?thesis
      by (auto simp: dedup_inv_set_recv [OF assms(3,2)] admitting_def)
  next
    case (Ack j)
    with live_current [of s] show ?thesis by (simp add: dedup_inv_set_recv [OF session] admitting_def)
  next
    case Release
    with live_current [of s] show ?thesis by (simp add: dedup_inv_set_recv [OF session] admitting_def)
  qed (rule same; simp)+
qed

end
