(* ===== verification/Session_Safety.thy ===== *)
theory Session_Safety
  imports Session_Invariants
begin

text \<open>
  More invariants of the session runtime (admission, cancellation order, the in-flight roster, the
  handshake, exact slot accounting on the first connection) and the properties of the reachable
  states that follow from them.
\<close>

section \<open>What a transition keeps\<close>

lemma config_transition:
  "transition execute s t \<Longrightarrow> ss_config (sy_session t) = ss_config (sy_session s)"
  by (erule transition.cases) (auto simp: acquireSlot_def split: if_splits elim!: enqueue_onE)

lemma capacity_transition:
  "transition execute s t \<Longrightarrow> ss_capacity (sy_session t) = ss_capacity (sy_session s)"
  by (erule transition.cases) (auto simp: acquireSlot_def split: if_splits elim!: enqueue_onE)

section \<open>Admission\<close>

definition authorised_job :: "Config \<Rightarrow> JobAssignment \<Rightarrow> bool" where
  "authorised_job config job \<longleftrightarrow> ja_org_id job = sc_OrgID config \<and>
     ja_registration_id job = sc_RegistrationID config \<and>
     (\<exists>d \<in> set (sc_Capabilities config). cd_capability_id d = ja_capability_id job \<and>
        cd_capability_version d = ja_capability_version job)"

lemma authorised_job_iff:
  "authorised_job (ss_config ss) job \<longleftrightarrow> ja_org_id job = sc_OrgID (ss_config ss) \<and>
     ja_registration_id job = sc_RegistrationID (ss_config ss) \<and> supportsAssignment ss job"
  by (simp add: authorised_job_def supportsAssignment_def list_ex_iff)

fun recv_job :: "'p recv \<Rightarrow> JobAssignment option" where
  "recv_job (Recv_Acquire job) = Some job"
| "recv_job (Recv_Add job) = Some job"
| "recv_job (Recv_Mark job) = Some job"
| "recv_job _ = None"

definition auth_inv :: "('p, 'i) sys \<Rightarrow> bool" where
  "auth_inv s \<longleftrightarrow>
     (\<forall>w \<in> set (sy_workers s). authorised_job (ss_config (sy_session s)) (wk_job w)) \<and>
     (\<forall>c \<in> set (sy_conns s). \<forall>job. recv_job (cn_recv c) = Some job \<longrightarrow>
        authorised_job (ss_config (sy_session s)) job)"

lemma auth_inv_update:
  assumes "auth_inv s" "ss_config (sy_session t) = ss_config (sy_session s)"
    "set (map wk_job (sy_workers t)) \<subseteq> set (map wk_job (sy_workers s))"
    "\<And>c. c \<in> set (sy_conns t) \<Longrightarrow> c \<in> set (sy_conns s) \<or>
       (\<forall>job. recv_job (cn_recv c) = Some job \<longrightarrow> authorised_job (ss_config (sy_session s)) job)"
  shows "auth_inv t"
proof -
  have "wk_job w \<in> wk_job ` set (sy_workers s)" if "w \<in> set (sy_workers t)" for w
    using assms(3) that by auto
  then show ?thesis
    using assms(1,2,4) unfolding auth_inv_def by (metis imageE)
qed

lemma set_list_update_D: "x \<in> set (xs[i := y]) \<Longrightarrow> x \<in> set xs \<or> x = y"
  by (meson in_mono insert_iff set_update_subset_insert)

lemma map_job_goto:
  "i < length (sy_workers s) \<Longrightarrow> map wk_job (sy_workers (goto i pc s)) = map wk_job (sy_workers s)"
  by (simp add: map_update_same)

lemma auth_inv_recv:
  "auth_inv s \<Longrightarrow> k < length (sy_conns s) \<Longrightarrow> recv_job (cn_recv (sy_conns s ! k)) = Some job \<Longrightarrow>
   authorised_job (ss_config (sy_session s)) job"
  using nth_mem [of k "sy_conns s"] unfolding auth_inv_def by blast

lemma auth_inv_transition:
  assumes "transition execute s t" "wf_sys s" "auth_inv s"
  shows "auth_inv t"
proof -
  note config = config_transition [OF assms(1)]
  have recv: "recv_job (cn_recv (sy_conns s ! current s)) = Some job \<Longrightarrow> live s \<Longrightarrow>
      authorised_job (ss_config (sy_session s)) job" for job
    using auth_inv_recv [OF assms(3) live_current] by blast
  from assms(1) show ?thesis
  proof cases
    case (Spawn c job)
    then have "authorised_job (ss_config (sy_session s)) job" using recv by simp
    with Spawn assms(3) show ?thesis
      by (auto simp: auth_inv_def dest!: set_list_update_D)
  next
    case (WSend i w m pc acc u)
    then obtain q where "u = set_conn (wk_conn w) ((sy_conns s ! wk_conn w)\<lparr>cn_queue := q\<rparr>) s"
      by (auto elim: enqueue_onE)
    with WSend auth_inv_recv [OF assms(3) wf_sys_worker [OF assms(2) WSend(2)]] show ?thesis
      by (auto intro!: auth_inv_update [OF assms(3)] dest!: set_list_update_D
          simp: map_update_same simp del: set_map)
  next
    case (WRemove i w c ids jobs)
    with auth_inv_recv [OF assms(3) wf_sys_worker [OF assms(2) WRemove(2)]] show ?thesis
      by (auto intro!: auth_inv_update [OF assms(3)] dest!: set_list_update_D
          simp: map_update_same map_cancel_contexts cancel_contexts_nth simp del: set_map)
  qed (use config recv in
       \<open>auto intro!: auth_inv_update [OF assms(3)] dest!: set_list_update_D
         simp: map_update_same map_cancel_contexts conn_frame_def new_conn_def
           authorised_job_iff elim!: enqueue_onE simp del: set_map\<close>)
qed

section \<open>Cancellation order\<close>

text \<open>A CancelAck for the job is in the stream of connection \<open>k\<close>, unless the connection is over.\<close>

definition announced :: "('p, 'i) sys \<Rightarrow> nat \<Rightarrow> string \<Rightarrow> bool" where
  "announced s k j \<longleftrightarrow> cn_done (sy_conns s ! k) \<or>
     (\<exists>e d. Msg_CancelAck j e d \<in> set (cn_sent (sy_conns s ! k) @ cn_queue (sy_conns s ! k)))"

fun keeps :: "'p wpc \<Rightarrow> 'p JobResult option" where
  "keeps (W_Deliver r) = Some r"
| "keeps (W_Send r) = Some r"
| "keeps _ = None"

definition cancel_inv :: "('p, 'i) sys \<Rightarrow> bool" where
  "cancel_inv s \<longleftrightarrow>
     (\<forall>k < length (sy_conns s). \<forall>j.
        jobs_wasExplicit j (cn_jobs (sy_conns s ! k)) \<or> cn_recv (sy_conns s ! k) = Recv_Cancel j \<longrightarrow>
        announced s k j) \<and>
     (\<forall>i < length (sy_workers s). \<forall>r. keeps (pc_of s i) = Some r \<longrightarrow> isCancelled r \<longrightarrow>
        announced s (conn_of s i) (job_of s i))"

text \<open>Streams only grow, and a finished connection stays finished.\<close>

definition stream_grows :: "'p Conn \<Rightarrow> 'p Conn \<Rightarrow> bool" where
  "stream_grows c c' \<longleftrightarrow> (cn_done c \<longrightarrow> cn_done c') \<and>
     prefix (cn_sent c @ cn_queue c) (cn_sent c' @ cn_queue c') \<and> prefix (cn_sent c) (cn_sent c')"

lemma stream_grows_refl [simp]: "stream_grows c c"
  by (simp add: stream_grows_def)

lemma conn_frame_grows: "conn_frame c c' \<Longrightarrow> stream_grows c c'"
  by (simp add: conn_frame_def stream_grows_def)

lemma stream_grows_transition:
  assumes "transition execute s t" "wf_sys s" "k < length (sy_conns s)"
  shows "stream_grows (sy_conns s ! k) (sy_conns t ! k)" "k < length (sy_conns t)"
  using assms(1) live_current [of s] wf_sys_worker [OF assms(2)] assms(3)
  by (auto elim!: transition.cases enqueue_onE simp: nth_list_update nth_append stream_grows_def conn_frame_def)

lemma announced_transition:
  assumes "transition execute s t" "wf_sys s" "k < length (sy_conns s)" "announced s k j"
  shows "announced t k j"
proof -
  from stream_grows_transition(1) [OF assms(1-3)]
  have "set (cn_sent (sy_conns s ! k) @ cn_queue (sy_conns s ! k)) \<subseteq>
      set (cn_sent (sy_conns t ! k) @ cn_queue (sy_conns t ! k))"
    unfolding stream_grows_def using set_mono_prefix by blast
  with stream_grows_transition(1) [OF assms(1-3)] assms(4) show ?thesis
    unfolding announced_def stream_grows_def by blast
qed

abbreviation cancel_known :: "('p, 'i) sys \<Rightarrow> nat \<Rightarrow> string \<Rightarrow> bool" where
  "cancel_known s k j \<equiv>
     jobs_wasExplicit j (cn_jobs (sy_conns s ! k)) \<or> cn_recv (sy_conns s ! k) = Recv_Cancel j"

lemma wasExplicit_after:
  "jobs_cancelAll r = (ids, r') \<Longrightarrow> jobs_wasExplicit j r' = jobs_wasExplicit j r"
  "jobs_remove i r = (ids, r') \<Longrightarrow> jobs_wasExplicit j r' \<Longrightarrow> jobs_wasExplicit j r"
  "jobs_cancel i r = (ids, r') \<Longrightarrow> jobs_wasExplicit j r' \<Longrightarrow> j = i \<or> jobs_wasExplicit j r"
  using jobs_cancelAll_sel(2) [of j r] jobs_wasExplicit_remove [of j i r] jobs_wasExplicit_cancel [of j i r]
  by auto

lemma cancel_known_origin:
  assumes "transition execute s t" "wf_sys s" "k < length (sy_conns t)" "cancel_known t k j"
  shows "announced t k j \<or> k < length (sy_conns s) \<and> cancel_known s k j"
  using assms(1)
proof cases
  case (CancelAcked j' e d acc u)
  then obtain q where "u = set_conn (current s) ((sy_conns s ! current s)\<lparr>cn_queue := q\<rparr>) s"
    "q = cn_queue (sy_conns s ! current s) @ [Msg_CancelAck j' e d] \<or> cn_done (sy_conns s ! current s)"
    by (auto elim: enqueue_onE)
  with CancelAcked live_current [of s] assms(3,4) show ?thesis
    by (auto simp: announced_def nth_list_update split: if_splits) blast
next
  case Open
  with assms(3,4) show ?thesis
    by (auto simp: nth_append new_conn_def less_Suc_eq)
qed (use assms(3,4) live_current [of s] wf_sys_worker [OF assms(2)] in
     \<open>auto simp: nth_list_update conn_frame_def elim!: enqueue_onE dest: wasExplicit_after
       split: if_splits\<close>)

lemma keeps_origin:
  assumes "transition execute s t" "i < length (sy_workers t)" "keeps (pc_of t i) = Some r" "isCancelled r"
  shows "i < length (sy_workers s) \<and> conn_of t i = conn_of s i \<and> job_of t i = job_of s i \<and>
    (keeps (pc_of s i) = Some r \<or> jobs_wasExplicit (job_of s i) (cn_jobs (sy_conns s ! conn_of s i)))"
  using assms(1)
proof cases
  case (WSend j w m pc acc u)
  then show ?thesis
    using assms(2,3) by (cases "wk_pc w") (auto simp: nth_list_update elim!: enqueue_onE split: if_splits)
next
  case (Spawn c job)
  then show ?thesis using assms(2,3) by (auto simp: nth_append less_Suc_eq)
qed (use assms(2-4) in \<open>auto simp: nth_list_update cancel_contexts_nth elim!: enqueue_onE split: if_splits\<close>)

lemma cancel_inv_transition:
  assumes "transition execute s t" "wf_sys s" "cancel_inv s"
  shows "cancel_inv t"
  unfolding cancel_inv_def
proof (intro conjI allI impI)
  fix k j assume "k < length (sy_conns t)" "cancel_known t k j"
  then show "announced t k j"
    using cancel_known_origin [OF assms(1,2)] announced_transition [OF assms(1,2)] assms(3)
    unfolding cancel_inv_def by blast
next
  fix i r assume "i < length (sy_workers t)" "keeps (pc_of t i) = Some r" "isCancelled r"
  note o = keeps_origin [OF assms(1) this]
  then have "conn_of s i < length (sy_conns s)" using wf_sys_worker [OF assms(2)] by simp
  moreover from o \<open>isCancelled r\<close> assms(3) this have "announced s (conn_of s i) (job_of s i)"
    unfolding cancel_inv_def by blast
  ultimately show "announced t (conn_of t i) (job_of t i)"
    using o announced_transition [OF assms(1,2)] by simp
qed

section \<open>The in-flight roster\<close>

fun executing :: "'p wpc \<Rightarrow> bool" where
  "executing W_Ack = True"
| "executing W_Started = True"
| "executing W_Execute = True"
| "executing (W_Clear _) = True"
| "executing _ = False"

definition roster_inv :: "('p, 'i) sys \<Rightarrow> bool" where
  "roster_inv s \<longleftrightarrow> gomap_wf (ss_inFlight (sy_session s)) \<and>
     (\<forall>j e. gomap_get (ss_inFlight (sy_session s)) j = Some e \<longrightarrow>
        (\<exists>i < length (sy_workers s). job_of s i = j \<and>
           ja_lease_epoch (wk_job (sy_workers s ! i)) = e \<and> executing (pc_of s i)))"

lemma roster_inv_same:
  assumes "roster_inv s" "ss_inFlight (sy_session t) = ss_inFlight (sy_session s)"
    "length (sy_workers t) = length (sy_workers s)"
    "\<And>i. i < length (sy_workers s) \<Longrightarrow> wk_job (sy_workers t ! i) = wk_job (sy_workers s ! i) \<and>
       (executing (pc_of s i) \<longrightarrow> executing (pc_of t i))"
  shows "roster_inv t"
  using assms unfolding roster_inv_def by metis

lemma worker_sends_executing:
  "worker_sends job pc = Some (m, pc') \<Longrightarrow> executing pc \<Longrightarrow> executing pc'"
  by (cases pc) auto

lemma roster_inv_transition:
  assumes "transition execute s t" "roster_inv s"
  shows "roster_inv t"
  using assms(1)
proof cases
  case (Spawn c job)
  have "\<exists>i < length (sy_workers t). job_of t i = j \<and> ja_lease_epoch (wk_job (sy_workers t ! i)) = e \<and>
      executing (pc_of t i)" if "gomap_get (ss_inFlight (sy_session t)) j = Some e" for j e
  proof (cases "j = ja_job_id job")
    case True
    with that Spawn show ?thesis
      by (intro exI [of _ "length (sy_workers s)"]) (simp add: markInFlight_def gomap_simps)
  next
    case False
    with that Spawn assms(2) obtain i where "i < length (sy_workers s)" "job_of s i = j"
      "ja_lease_epoch (wk_job (sy_workers s ! i)) = e" "executing (pc_of s i)"
      by (auto simp: roster_inv_def markInFlight_def gomap_simps)
    with Spawn show ?thesis by (intro exI [of _ i]) (simp add: nth_append)
  qed
  with Spawn assms(2) show ?thesis by (auto simp: roster_inv_def markInFlight_def)
next
  case (WClear i w r)
  have "\<exists>n < length (sy_workers t). job_of t n = j \<and> ja_lease_epoch (wk_job (sy_workers t ! n)) = e \<and>
      executing (pc_of t n)" if "gomap_get (ss_inFlight (sy_session t)) j = Some e" for j e
  proof -
    from that WClear assms(2) have "j \<noteq> job_of s i" "gomap_get (ss_inFlight (sy_session s)) j = Some e"
      by (auto simp: clearInFlight_def gomap_simps roster_inv_def split: if_splits)
    with assms(2) obtain n where "n < length (sy_workers s)" "job_of s n = j" "n \<noteq> i"
      "ja_lease_epoch (wk_job (sy_workers s ! n)) = e" "executing (pc_of s n)"
      unfolding roster_inv_def by blast
    with WClear show ?thesis by (intro exI [of _ n]) simp
  qed
  with WClear assms(2) show ?thesis by (auto simp: roster_inv_def clearInFlight_def)
next
  case (WSend i w m pc acc u)
  then show ?thesis
    by (intro roster_inv_same [OF assms(2)])
      (auto simp: nth_list_update worker_sends_executing elim!: enqueue_onE)
qed (auto intro!: roster_inv_same [OF assms(2)] simp: nth_list_update cancel_contexts_nth acquireSlot_def
      elim!: enqueue_onE split: if_splits)

section \<open>The handshake\<close>

definition hello_inv :: "('p, 'i) sys \<Rightarrow> bool" where
  "hello_inv s \<longleftrightarrow> (\<forall>c \<in> set (sy_conns s). \<exists>h rest. cn_sent c = Msg_Hello h # rest)"

lemma hello_inv_transition:
  assumes "transition execute s t" "wf_sys s" "hello_inv s"
  shows "hello_inv t"
proof -
  have "\<exists>h rest. cn_sent (sy_conns t ! k) = Msg_Hello h # rest" if "k < length (sy_conns t)" for k
  proof (cases "k < length (sy_conns s)")
    case True
    then have "\<exists>h rest. cn_sent (sy_conns s ! k) = Msg_Hello h # rest"
      using assms(3) nth_mem by (auto simp: hello_inv_def)
    with stream_grows_transition(1) [OF assms(1,2) True] show ?thesis
      by (auto simp: stream_grows_def prefix_def)
  next
    case False
    with assms(1) that show ?thesis
      by (auto elim!: transition.cases enqueue_onE simp: nth_append new_conn_def helloMessage_def less_Suc_eq)
  qed
  then show ?thesis by (auto simp: hello_inv_def in_set_conv_nth)
qed

section \<open>Exact accounting on the first connection\<close>

fun carries :: "'p wpc \<Rightarrow> 'p JobResult option" where
  "carries (W_Clear r) = Some r"
| "carries (W_Decide r) = Some r"
| "carries (W_Deliver r) = Some r"
| "carries (W_Send r) = Some r"
| "carries _ = None"

definition carries_inv :: "('p, 'i) sys \<Rightarrow> bool" where
  "carries_inv s \<longleftrightarrow> (\<forall>i < length (sy_workers s). \<forall>r. carries (pc_of s i) = Some r \<longrightarrow>
     jr_job_id r = job_of s i)"

lemma carries_inv_goto:
  assumes "carries_inv s" "i < length (sy_workers s)"
    "\<And>r. carries pc = Some r \<Longrightarrow> jr_job_id r = job_of s i"
  shows "carries_inv (goto i pc s)"
  using assms by (auto simp: carries_inv_def nth_list_update split: if_splits)

lemma worker_sends_carries: "worker_sends job pc = Some (m, pc') \<Longrightarrow> carries pc' = None"
  by (cases pc) auto

lemma carries_inv_same:
  assumes "carries_inv s" "sy_workers t = sy_workers s"
  shows "carries_inv t"
  using assms by (simp add: carries_inv_def)

lemma carries_inv_cancel: "carries_inv s \<Longrightarrow> carries_inv (cancel_contexts ids s)"
  by (simp add: carries_inv_def cancel_contexts_nth)

lemma carries_inv_transition:
  assumes "transition execute s t" "job_executor execute" "carries_inv s"
  shows "carries_inv t"
proof -
  have c: "carries (pc_of s i) = Some r \<Longrightarrow> i < length (sy_workers s) \<Longrightarrow> jr_job_id r = job_of s i" for i r
    using assms(3) by (simp add: carries_inv_def)
  note same = carries_inv_same [OF assms(3)]
  from assms(1) show ?thesis
  proof cases
    case (WSend j w m pc acc u)
    then have "sy_workers u = sy_workers s" "carries pc = None"
      by (auto elim!: enqueue_onE dest: worker_sends_carries)
    with WSend show ?thesis using same [of u] by (auto intro!: carries_inv_goto)
  next
    case (WExecute i w seen r e)
    then have "jr_job_id r = job_of s i"
      using job_executor.job_id [OF assms(2), of "(seen, e)" "wk_job w"]
        job_executor.not_nil [OF assms(2), of "(seen, e)" "wk_job w"] by auto
    with WExecute assms(3) show ?thesis by (auto intro!: carries_inv_goto)
  next
    case (Spawn d job)
    with assms(3) show ?thesis by (auto simp: carries_inv_def nth_append less_Suc_eq)
  next
    case (WRemove i w d ids jobs)
    then show ?thesis
      unfolding WRemove(1) by (intro carries_inv_goto carries_inv_cancel same) simp_all
  next
    case (Close d ids jobs)
    then show ?thesis unfolding Close(1) by (intro carries_inv_cancel same) simp_all
  next
    case (Cancel d j ids jobs)
    then show ?thesis unfolding Cancel(1) by (intro carries_inv_cancel same) simp_all
  next
    case (Enqueued m acc u)
    then show ?thesis by (intro same) (auto elim!: enqueue_onE)
  next
    case (CancelAcked j e d acc u)
    then show ?thesis by (intro same) (auto elim!: enqueue_onE)
  next
    case (WClear i w r)
    then show ?thesis unfolding WClear(1) using c by (intro carries_inv_goto same) simp_all
  next
    case (WAbandon i w r)
    then show ?thesis unfolding WAbandon(1) using c by (intro carries_inv_goto same) simp_all
  next
    case (WKeep i w r)
    then show ?thesis unfolding WKeep(1) using c by (intro carries_inv_goto same) simp_all
  next
    case (WRelease i)
    then show ?thesis unfolding WRelease(1) by (intro carries_inv_goto same) simp_all
  next
    case (WDeliver i r)
    then show ?thesis unfolding WDeliver(1) using c by (intro carries_inv_goto same) simp_all
  qed (rule same; simp)+
qed

definition fresh_recv :: "'p Session \<Rightarrow> 'p recv \<Rightarrow> bool" where
  "fresh_recv ss r \<longleftrightarrow>
     (case recv_job r of None \<Rightarrow> True | Some job \<Rightarrow> \<not> unacked_has (ja_job_id job) ss)"

definition fresh_inv :: "('p, 'i) sys \<Rightarrow> bool" where
  "fresh_inv s \<longleftrightarrow>
     (\<forall>i < length (sy_workers s). slot_weight (pc_of s i) = 1 \<longrightarrow>
        \<not> unacked_has (job_of s i) (sy_session s)) \<and>
     (\<forall>k < length (sy_conns s). fresh_recv (sy_session s) (cn_recv (sy_conns s ! k)))"

definition exact_slots :: "('p, 'i) sys \<Rightarrow> bool" where
  "exact_slots s \<longleftrightarrow>
     length (ss_unacked (sy_session s)) + slot_holders s = ss_outstanding (sy_session s)"

text \<open>On a single connection a live worker is the only holder of its job identifier.\<close>

lemma no_rival:
  assumes "dedup_inv s" "wf_sys s" "length (sy_conns s) \<le> 1" "i < length (sy_workers s)"
    "pc_of s i \<noteq> W_Done"
  shows "n < length (sy_workers s) \<Longrightarrow> n \<noteq> i \<Longrightarrow> job_of s n = job_of s i \<Longrightarrow> pc_of s n = W_Done"
    and "k < length (sy_conns s) \<Longrightarrow> recv_job (cn_recv (sy_conns s ! k)) = Some job \<Longrightarrow>
      ja_job_id job \<noteq> job_of s i"
proof -
  have zero: "conn_of s m = 0" if "m < length (sy_workers s)" for m
    using wf_sys_worker [OF assms(2) that] assms(3) by linarith
  have u: "unique_workers s" using assms(1) by (simp add: dedup_inv_def)
  {
    assume n: "n < length (sy_workers s)" "n \<noteq> i" "job_of s n = job_of s i"
    then show "pc_of s n = W_Done"
      using u zero [OF n(1)] zero [OF assms(4)] assms(4,5) unfolding unique_workers_def
      by (cases "n < i") (auto dest: le_neq_implies_less)
  next
    assume k: "k < length (sy_conns s)" "recv_job (cn_recv (sy_conns s ! k)) = Some job"
    from k assms(3) have "k = 0" by linarith
    then have eq: "conn_of s i = k" using zero [OF assms(4)] by simp
    from k(2) have "cn_recv (sy_conns s ! k) \<noteq> Recv_Ready" by auto
    with assms(2) k(1) have "\<not> cn_closed (sy_conns s ! k)" by (auto simp: wf_sys_def)
    with assms(1,4,5) eq have "jobs_has (job_of s i) (cn_jobs (sy_conns s ! k))"
      by (auto simp: dedup_inv_def registered_workers_def)
    moreover have "admitting s k" using assms(1) k(1) by (simp add: dedup_inv_def)
    ultimately show "ja_job_id job \<noteq> job_of s i"
      using k(2) eq assms(4,5) by (cases "cn_recv (sy_conns s ! k)") (auto simp: admitting_def)
  }
qed

lemma weight_le_holders:
  assumes "i < length (sy_workers s)"
  shows "slot_weight (pc_of s i) \<le> slot_holders s"
proof -
  have "slot_weight (pc_of s i) \<in> set (map (\<lambda>w. slot_weight (wk_pc w)) (sy_workers s))"
    using nth_mem [OF assms] by auto
  from member_le_sum_list [OF this] show ?thesis by (simp add: slot_holders_def)
qed

lemma recv_weight_le_holders:
  assumes "k < length (sy_conns s)"
  shows "recv_weight (cn_recv (sy_conns s ! k)) \<le> slot_holders s"
proof -
  have "recv_weight (cn_recv (sy_conns s ! k)) \<in> set (map (\<lambda>c. recv_weight (cn_recv c)) (sy_conns s))"
    using nth_mem [OF assms] by auto
  from member_le_sum_list [OF this] show ?thesis by (simp add: slot_holders_def)
qed

lemma exact_slots_int:
  "exact_slots s \<longleftrightarrow> int (length (ss_unacked (sy_session s))) + int (slot_holders s) =
     int (ss_outstanding (sy_session s))"
  unfolding exact_slots_def by linarith

text \<open>Every transition keeps the exact count, provided a delivered result has a fresh identifier.\<close>

lemma exact_slots_transition:
  assumes "transition execute s t" "wf_sys s" "slots_inv s" "exact_slots s"
    "\<And>i r. i < length (sy_workers s) \<Longrightarrow> pc_of s i = W_Deliver r \<Longrightarrow> \<not> unacked_has (jr_job_id r) (sy_session s)"
  shows "exact_slots t"
  using assms(1)
proof cases
  case Open
  with assms(4) show ?thesis by (simp add: exact_slots_def slot_holders_def new_conn_def)
next
  case (Spawn c job)
  with assms(4) live_current [of s] show ?thesis
    by (simp add: exact_slots_int slot_holders_def sum_list_map_update)
next
  case (WSend i w m pc acc u)
  with assms(4) wf_sys_worker [OF assms(2), of i] show ?thesis
    by (simp add: exact_slots_int worker_sends_weight)
next
  case (WDeliver i r)
  with assms(4) assms(5) [of i r] show ?thesis
    by (simp add: exact_slots_int unacked_add_def unacked_has_def length_gomap_set)
next
  case (WRemove i w c ids jobs)
  with assms(4) wf_sys_worker [OF assms(2), of i] show ?thesis
    by (simp add: exact_slots_int cancel_contexts_nth)
next
  case (WRelease i)
  with assms(4) weight_le_holders [of i s] show ?thesis
    by (simp add: exact_slots_int releaseSlot_def split: if_splits)
next
  case Release
  with assms(4) live_current [of s] recv_weight_le_holders [of "current s" s] show ?thesis
    by (simp add: exact_slots_int releaseSlot_def split: if_splits)
next
  case (Ack j)
  with assms(3) have "Suc (length (gomap_del j (ss_unacked (sy_session s)))) = length (ss_unacked (sy_session s))"
    using gomap_has_length_pos [of "ss_unacked (sy_session s)" j]
    by (simp add: slots_inv_def unacked_has_def length_gomap_del)
  with Ack assms(4) live_current [of s] show ?thesis by (simp add: exact_slots_int)
qed (use assms(4) live_current [of s] in \<open>auto simp: exact_slots_int conn_frame_def acquireSlot_def
       split: if_splits\<close>)

lemma slot_weight_cases: "slot_weight pc = 0 \<or> slot_weight pc = 1"
  by (cases pc) auto

lemma fresh_recv_mono:
  "fresh_recv ss r \<Longrightarrow> (\<And>j. unacked_has j ss' \<Longrightarrow> unacked_has j ss) \<Longrightarrow> fresh_recv ss' r"
  by (auto simp: fresh_recv_def split: option.splits)

lemma fresh_inv_same:
  assumes "fresh_inv s" "\<And>j. unacked_has j (sy_session t) \<Longrightarrow> unacked_has j (sy_session s)"
    "length (sy_workers t) = length (sy_workers s)"
    "\<And>i. i < length (sy_workers s) \<Longrightarrow> job_of t i = job_of s i \<and>
       (slot_weight (pc_of t i) = 1 \<longrightarrow> slot_weight (pc_of s i) = 1)"
    "\<And>k. k < length (sy_conns t) \<Longrightarrow> fresh_recv (sy_session s) (cn_recv (sy_conns t ! k))"
  shows "fresh_inv t"
  unfolding fresh_inv_def
proof (intro conjI allI impI)
  fix i assume "i < length (sy_workers t)" "slot_weight (pc_of t i) = 1"
  then show "\<not> unacked_has (job_of t i) (sy_session t)"
    using assms(1-4) unfolding fresh_inv_def by metis
next
  fix k assume "k < length (sy_conns t)"
  then show "fresh_recv (sy_session t) (cn_recv (sy_conns t ! k))"
    using assms(2,5) fresh_recv_mono by blast
qed

lemma fresh_inv_recv: "fresh_inv s \<Longrightarrow> k < length (sy_conns s) \<Longrightarrow> fresh_recv (sy_session s) (cn_recv (sy_conns s ! k))"
  by (simp add: fresh_inv_def)

lemma fresh_inv_set_conn:
  assumes "fresh_inv s" "k < length (sy_conns s)" "fresh_recv (sy_session s) (cn_recv c)"
  shows "fresh_inv (set_conn k c s)"
  using assms(2,3) fresh_inv_recv [OF assms(1)]
  by (intro fresh_inv_same [OF assms(1)]) (auto simp: nth_list_update)

lemma fresh_inv_set_recv:
  "fresh_inv s \<Longrightarrow> k < length (sy_conns s) \<Longrightarrow> fresh_recv (sy_session s) r \<Longrightarrow> fresh_inv (set_recv k r s)"
  by (simp add: set_recv_def fresh_inv_set_conn)

lemma fresh_inv_goto:
  assumes "fresh_inv s" "i < length (sy_workers s)" "slot_weight pc \<le> slot_weight (pc_of s i)"
  shows "fresh_inv (goto i pc s)"
proof (rule fresh_inv_same [OF assms(1)])
  have "slot_weight pc = 1 \<longrightarrow> slot_weight (pc_of s i) = 1"
    using assms(3) slot_weight_cases [of "pc_of s i"] by linarith
  then show "job_of (goto i pc s) n = job_of s n \<and>
      (slot_weight (pc_of (goto i pc s) n) = 1 \<longrightarrow> slot_weight (pc_of s n) = 1)"
    if "n < length (sy_workers s)" for n
    using assms(2) that by (cases "n = i") simp_all
qed (use fresh_inv_recv [OF assms(1)] in simp_all)

lemma fresh_inv_session:
  assumes "fresh_inv s" "\<forall>j. unacked_has j ss \<longrightarrow> unacked_has j (sy_session s)"
  shows "fresh_inv (set_session ss s)"
  using assms(2) fresh_inv_recv [OF assms(1)] by (intro fresh_inv_same [OF assms(1)]) auto

lemma fresh_inv_cancel:
  assumes "fresh_inv s"
  shows "fresh_inv (cancel_contexts ids s)"
  using fresh_inv_recv [OF assms] by (intro fresh_inv_same [OF assms]) (auto simp: cancel_contexts_nth)

lemma fresh_inv_enqueue:
  assumes "fresh_inv s" "k < length (sy_conns s)" "enqueue_on k acc m s = Some t"
  shows "fresh_inv t"
  using assms(3) by (rule enqueue_onE) (simp add: fresh_inv_set_conn fresh_inv_recv assms(1,2))

lemma fresh_inv_Spawn:
  assumes "fresh_inv s" "k < length (sy_conns s)" "cn_recv (sy_conns s ! k) = Recv_Mark job"
    "\<forall>j. unacked_has j ss = unacked_has j (sy_session s)"
  shows "fresh_inv (s\<lparr>sy_session := ss,
    sy_conns := (sy_conns s)[k := (sy_conns s ! k)\<lparr>cn_recv := Recv_Ready\<rparr>],
    sy_workers := sy_workers s @ [\<lparr>wk_conn = k, wk_job = job, wk_cancelled = False, wk_pc = W_Ack\<rparr>]\<rparr>)"
  (is "fresh_inv ?t")
proof -
  have job: "\<not> unacked_has (ja_job_id job) (sy_session s)"
    using fresh_inv_recv [OF assms(1,2)] assms(3) by (simp add: fresh_recv_def)
  have "\<not> unacked_has (job_of ?t n) (sy_session ?t)"
    if "n < length (sy_workers ?t)" "slot_weight (pc_of ?t n) = 1" for n
    using that assms(1,4) job by (auto simp: fresh_inv_def nth_append less_Suc_eq)
  moreover have "fresh_recv (sy_session ?t) (cn_recv (sy_conns ?t ! i))" if "i < length (sy_conns ?t)" for i
    using that assms(4) fresh_inv_recv [OF assms(1), of i]
    by (cases "i = k") (auto simp: fresh_recv_def split: option.splits)
  ultimately show ?thesis by (simp add: fresh_inv_def)
qed

lemma fresh_inv_Deliver:
  assumes "wf_sys s" "dedup_inv s" "fresh_inv s" "carries_inv s" "length (sy_conns s) \<le> 1"
    "i < length (sy_workers s)" "pc_of s i = W_Deliver r"
  shows "fresh_inv (goto i (W_Send r) (set_session (unacked_add r (sy_session s)) s))" (is "fresh_inv ?t")
proof -
  have "pc_of s i \<noteq> W_Done" using assms(7) by simp
  note rival = no_rival [OF assms(2,1,5,6) this]
  have id: "jr_job_id r = job_of s i" using assms(4,6,7) by (simp add: carries_inv_def)
  have has: "unacked_has j (sy_session ?t) \<longleftrightarrow> j = job_of s i \<or> unacked_has j (sy_session s)" for j
    using id by (simp add: unacked_has_def unacked_add_def gomap_simps)
  have "\<not> unacked_has (job_of ?t n) (sy_session ?t)"
    if n: "n < length (sy_workers ?t)" "slot_weight (pc_of ?t n) = 1" for n
  proof -
    from n assms(6) have "n \<noteq> i" by auto
    with n have n': "n < length (sy_workers s)" "slot_weight (pc_of s n) = 1" "job_of ?t n = job_of s n"
      by simp_all
    then have "pc_of s n \<noteq> W_Done" by auto
    with rival(1) [OF n'(1) \<open>n \<noteq> i\<close>] have "job_of s n \<noteq> job_of s i" by blast
    moreover have "\<not> unacked_has (job_of s n) (sy_session s)" using assms(3) n' by (simp add: fresh_inv_def)
    ultimately show ?thesis unfolding has n'(3) by simp
  qed
  moreover have "fresh_recv (sy_session ?t) (cn_recv (sy_conns ?t ! k))" if k: "k < length (sy_conns ?t)" for k
    using fresh_inv_recv [OF assms(3), of k] rival(2) [of k] k unfolding fresh_recv_def has
    by (auto split: option.splits)
  ultimately show ?thesis by (simp add: fresh_inv_def)
qed

lemma fresh_inv_transition:
  assumes "transition execute s t" "wf_sys s" "dedup_inv s" "fresh_inv s" "carries_inv s"
    "length (sy_conns t) \<le> 1"
  shows "fresh_inv t"
proof -
  note fr = assms(4)
  note recv = fresh_inv_recv [OF fr]
  note cur = live_current [of s]
  note rules = fresh_inv_set_recv fresh_inv_goto fresh_inv_session fresh_inv_cancel fresh_inv_set_conn
  from assms(1) show ?thesis
  proof cases
    case (Conn c)
    with cur recv [of "current s"] fr show ?thesis by (simp add: rules conn_frame_def)
  next
    case Inventory
    with fr show ?thesis by (simp add: fresh_inv_def)
  next
    case Open
    with recv show ?thesis
      by (intro fresh_inv_same [OF fr]) (auto simp: nth_append new_conn_def less_Suc_eq fresh_recv_def)
  next
    case (Ack j)
    with cur fr show ?thesis by (simp add: rules unacked_has_def gomap_has_del fresh_recv_def)
  next
    case (Acquire job ss')
    then have "unacked_has j ss' = unacked_has j (sy_session s)" for j
      by (auto simp: acquireSlot_def unacked_has_def split: if_splits)
    with Acquire cur fr recv [of "current s"] show ?thesis by (simp add: rules fresh_recv_def)
  next
    case (Spawn c job)
    then show ?thesis
      using fresh_inv_Spawn [OF fr cur [OF Spawn(2)], of job] by (simp add: unacked_has_def)
  next
    case (WDeliver i r)
    then show ?thesis using fresh_inv_Deliver [OF assms(2,3) fr assms(5)] assms(6) by simp
  next
    case (WSend i w m pc acc u)
    with fresh_inv_enqueue [OF fr wf_sys_worker [OF assms(2) WSend(2)]] wf_sys_worker [OF assms(2) WSend(2)]
    show ?thesis by (simp add: rules worker_sends_weight)
  next
    case (WRemove i w c ids jobs)
    with recv [OF wf_sys_worker [OF assms(2) WRemove(2)]] wf_sys_worker [OF assms(2) WRemove(2)] fr show ?thesis
      by (simp add: rules cancel_contexts_nth)
  next
    case (Enqueued m acc u)
    with cur fresh_inv_enqueue [OF fr _ Enqueued(4)] show ?thesis by (simp add: rules fresh_recv_def)
  next
    case (CancelAcked j e d acc u)
    with cur fresh_inv_enqueue [OF fr _ CancelAcked(4)] show ?thesis by (simp add: rules fresh_recv_def)
  next
    case (Add c job)
    with cur recv [of "current s"] fr show ?thesis by (simp add: rules fresh_recv_def)
  next
    case (Answer r)
    with cur fr show ?thesis by (auto simp: rules fresh_recv_def)
  qed (use cur fr in \<open>simp_all add: rules unacked_has_def fresh_recv_def\<close>)
qed

end
