(* ===== verification/Session_Backoff.thy ===== *)
theory Session_Backoff
  imports Relay_Prelude
begin

text \<open>
  Reconnection: internal/session/backoff.go and the supervisor loop of internal/session/run.go.
  Durations are int64 nanoseconds. The random source is the argument \<open>int63n\<close>; rand.Int63n
  panics on a non-positive bound, so the jittered delay is an option, \<^const>\<open>None\<close> for the panic.
\<close>

section \<open>backoff.go\<close>

record backoff =
  bo_base :: int
  bo_max :: int
  bo_current :: int



definition backoff_advance :: "backoff \<Rightarrow> backoff" where
  "backoff_advance b =
     (if bo_current b = 0 then b\<lparr>bo_current := bo_base b\<rparr>
      else let doubled = wrap64 (bo_current b * 2)
           in b\<lparr>bo_current := (if doubled > bo_max b then bo_max b else doubled)\<rparr>)"



section \<open>run.go\<close>





section \<open>The delay progression\<close>

definition backoff_ok :: "backoff \<Rightarrow> bool" where
  "backoff_ok b \<longleftrightarrow> 0 < bo_base b \<and> bo_base b \<le> bo_max b \<and> bo_max b \<le> 2 ^ 61 \<and>
     0 \<le> bo_current b \<and> bo_current b \<le> bo_max b"



lemma backoff_advance_current:
  assumes "backoff_ok b"
  shows "bo_current (backoff_advance b) =
    (if bo_current b = 0 then bo_base b else min (2 * bo_current b) (bo_max b))"
proof -
  have "wrap64 (bo_current b * 2) = bo_current b * 2"
    using assms by (intro wrap64_id int64_rangeI) (auto simp: backoff_ok_def)
  then show ?thesis
    by (simp add: backoff_advance_def Let_def min_def)
qed

lemma backoff_advance_frame [simp]:
  "bo_base (backoff_advance b) = bo_base b" "bo_max (backoff_advance b) = bo_max b"
  by (simp_all add: backoff_advance_def Let_def)


lemma backoff_current_pos: "backoff_ok b \<Longrightarrow> 0 < bo_current (backoff_advance b)"
  by (auto simp: backoff_advance_current) (auto simp: backoff_ok_def)



section \<open>Properties\<close>







end
