(* ===== verification/Session_Properties.thy ===== *)
theory Session_Properties
  imports Session_Safety Session_Backoff
begin

text \<open>
  The properties of the session: what holds in every reachable state of the runtime, what one step
  can and cannot do, and how a run proceeds. The example runs at the end of each group instantiate
  the executor and the configuration with concrete values.
\<close>

section \<open>The invariants hold in every reachable state\<close>

definition sys_inv :: "Config \<Rightarrow> ('p, 'i) sys \<Rightarrow> bool" where
  "sys_inv config s \<longleftrightarrow> wf_sys s \<and> slots_inv s \<and> dedup_inv s \<and> auth_inv s \<and> cancel_inv s \<and>
     roster_inv s \<and> hello_inv s \<and> ss_config (sy_session s) = ss_config (session_New config :: 'p Session) \<and>
     ss_capacity (sy_session s) = max 1 (unat (sc_MaxConcurrentJobs config))"

lemma sys_inv_init: "sys_inv config (init_sys config inventory)"
  by (simp add: sys_inv_def init_sys_def wf_sys_def slots_inv_def slot_holders_def dedup_inv_def
      unique_workers_def registered_workers_def auth_inv_def cancel_inv_def roster_inv_def hello_inv_def)

lemma sys_inv_transition:
  assumes "transition execute s t" "sys_inv config s"
  shows "sys_inv config t"
  using assms(2) wf_sys_transition [OF assms(1)] slots_inv_transition [OF assms(1)]
    dedup_inv_transition [OF assms(1)] auth_inv_transition [OF assms(1)]
    cancel_inv_transition [OF assms(1)] roster_inv_transition [OF assms(1)]
    hello_inv_transition [OF assms(1)] config_transition [OF assms(1)] capacity_transition [OF assms(1)]
  unfolding sys_inv_def by simp

lemma reachable_sys_inv: "reachable execute iops config s \<Longrightarrow> sys_inv config s"
  by (induction rule: reachable.induct)
    (auto intro: sys_inv_init sys_inv_transition relay_step_transition)

lemmas reachable_invs = reachable_sys_inv [unfolded sys_inv_def]





section \<open>A concrete relay\<close>

definition example_config :: Config where
  "example_config = \<lparr>sc_OrgID = ''org'', sc_RegistrationID = ''reg'',
     sc_Capabilities = [\<lparr>cd_capability_id = ''logs'', cd_capability_version = 1\<rparr>],
     sc_MaxConcurrentJobs = 2, sc_RelayVersion = ''v1'', sc_ClusterFingerprint = ''f'',
     sc_LocalPolicyHash = ''h'', sc_HeartbeatInterval = 1, sc_ResendInterval = 1,
     sc_OutboundBuffer = 8, sc_ReconnectBase = 1, sc_ReconnectMax = 2\<rparr>"

definition example_job :: "string \<Rightarrow> uint64 \<Rightarrow> JobAssignment" where
  "example_job j epoch = \<lparr>ja_job_id = j, ja_org_id = ''org'', ja_registration_id = ''reg'',
     ja_lease_epoch = epoch, ja_capability_id = ''logs'', ja_capability_version = 1,
     ja_deadline_budget = 0, ja_arguments = None\<rparr>"

definition example_execute :: "(bool \<times> unit, unit) executor" where
  "example_execute c job = Some \<lparr>jr_job_id = ja_job_id job, jr_lease_epoch = ja_lease_epoch job,
     jr_outcome = (if fst c
       then Some (JobResult_Failure \<lparr>jf_kind = KIND_CANCELLED, jf_detail = []\<rparr>) else None),
     jr_execution_duration_ms = 0\<rparr>"

definition example_inventory :: "unit Inventory" where
  "example_inventory = \<lparr>inv_ApplyPolicy = \<lambda>_ i. i, inv_Ack = \<lambda>_ i. i, inv_Pending = \<lambda>_. [],
     inv_Statuses = \<lambda>_. []\<rparr>"

abbreviation admit :: "string \<Rightarrow> uint64 \<Rightarrow> (unit, unit) label list" where
  "admit j e \<equiv> [L_Recv (Ctl_JobAssignment (example_job j e)), L_Handle True, L_Handle True, L_Handle True]"

abbreviation steps_of :: "nat \<Rightarrow> nat \<Rightarrow> (unit, unit) label list" where
  "steps_of i n \<equiv> replicate n (L_Worker i True False ())"

definition example_run :: "(unit, unit) label list \<Rightarrow> (unit, unit) sys option" where
  "example_run ls = relay_run example_execute example_inventory ls (init_sys example_config None)"

lemma example_reachable:
  "example_run ls = Some s \<Longrightarrow> reachable example_execute example_inventory example_config s"
  unfolding example_run_def by (rule reachable_run [OF reachable.start])

definition holds_after :: "(unit, unit) label list \<Rightarrow> ((unit, unit) sys \<Rightarrow> bool) \<Rightarrow> bool" where
  "holds_after ls P = (case example_run ls of None \<Rightarrow> False | Some s \<Rightarrow> P s)"

lemma holds_afterE:
  assumes "holds_after ls P"
  obtains s where "example_run ls = Some s" "P s" "reachable example_execute example_inventory example_config s"
  using assms example_reachable by (auto simp: holds_after_def split: option.splits)

lemma holds_afterI: "example_run ls = Some s \<Longrightarrow> P s \<Longrightarrow> holds_after ls P"
  by (simp add: holds_after_def)

lemma example_run_step:
  "example_run ls = Some s \<Longrightarrow> relay_step example_execute example_inventory l s = Some t \<Longrightarrow>
   example_run (ls @ [l]) = Some t"
  unfolding example_run_def by (simp add: relay_run_append)

definition connect :: "(unit, unit) label list" where
  "connect = [L_Connect (Ctl_SessionAccepted ''s'')]"

section \<open>Capacity\<close>

text \<open>C2: In every reachable state the results that wait for an acknowledgement, the jobs that still
  hold a slot and the slots the receive loop is handing over fit into the occupied slots, and the
  occupied slots never exceed the configured number of concurrent jobs (one when it is zero). So the
  unacked buffer is bounded by the capacity, whatever the interleaving, the number of reconnects and
  the executor.\<close>

theorem session_slots_bounded:
  assumes "reachable execute iops config s"
  shows "unacked_len (sy_session s) + slot_holders s \<le> heldSlots (sy_session s) \<and>
    heldSlots (sy_session s) \<le> max 1 (unat (sc_MaxConcurrentJobs config))"
  using reachable_invs [OF assms] by (simp add: slots_inv_def unacked_len_def heldSlots_def)

theorem session_slots_bounded_witness:
  "holds_after (connect @ admit ''j'' 1 @ steps_of 0 6 @ admit ''k'' 1)
     (\<lambda>s. unacked_len (sy_session s) = 1 \<and> slot_holders s = 1 \<and> heldSlots (sy_session s) \<le> 2)"
proof -
  have "holds_after (connect @ admit ''j'' 1 @ steps_of 0 6 @ admit ''k'' 1)
      (\<lambda>s. unacked_len (sy_session s) = 1 \<and> slot_holders s = 1)"
    by code_simp
  then show ?thesis
    by (rule holds_afterE)
      (rule holds_afterI, assumption, use session_slots_bounded in \<open>fastforce simp: example_config_def\<close>)
qed





section \<open>Admission and deduplication\<close>

text \<open>C17: On one connection a job runs at most once at a time: of two workers of the same connection
  and job, the earlier one has finished before the later one is started. A redelivered assignment of
  a running job is never executed a second time by the connection that runs it.\<close>

theorem session_one_worker_per_job:
  assumes "reachable execute iops config s" "j < length (sy_workers s)" "i < j"
    "wk_conn (sy_workers s ! i) = wk_conn (sy_workers s ! j)"
    "ja_job_id (wk_job (sy_workers s ! i)) = ja_job_id (wk_job (sy_workers s ! j))"
  shows "wk_pc (sy_workers s ! i) = W_Done"
  using reachable_invs [OF assms(1)] assms(2-5) by (simp add: dedup_inv_def unique_workers_def)

text \<open>The job is offered three times: while it runs, while its result is retained (both answered
  with an ack only), and after the acknowledgement, when it runs again.\<close>

theorem session_one_worker_per_job_witness:
  "holds_after (connect @ admit ''j'' 1 @ take 2 (admit ''j'' 2) @ steps_of 0 8 @ take 2 (admit ''j'' 3) @
      [L_Recv (Ctl_ResultAck ''j''), L_Handle True] @ admit ''j'' 4)
     (\<lambda>s. length (sy_workers s) = 2 \<and> wk_pc (sy_workers s ! 0) = W_Done)"
proof -
  have "holds_after (connect @ admit ''j'' 1 @ take 2 (admit ''j'' 2) @ steps_of 0 8 @ take 2 (admit ''j'' 3) @
      [L_Recv (Ctl_ResultAck ''j''), L_Handle True] @ admit ''j'' 4)
     (\<lambda>s. length (sy_workers s) = 2 \<and>
        wk_conn (sy_workers s ! 0) = wk_conn (sy_workers s ! 1) \<and>
        ja_job_id (wk_job (sy_workers s ! 0)) = ja_job_id (wk_job (sy_workers s ! 1)))"
    by code_simp
  then obtain s where s: "example_run (connect @ admit ''j'' 1 @ take 2 (admit ''j'' 2) @ steps_of 0 8 @
      take 2 (admit ''j'' 3) @ [L_Recv (Ctl_ResultAck ''j''), L_Handle True] @ admit ''j'' 4) = Some s"
    "reachable example_execute example_inventory example_config s" "length (sy_workers s) = 2"
    "wk_conn (sy_workers s ! 0) = wk_conn (sy_workers s ! 1)"
    "ja_job_id (wk_job (sy_workers s ! 0)) = ja_job_id (wk_job (sy_workers s ! 1))"
    by (blast elim: holds_afterE)
  show ?thesis
    using holds_afterI [OF s(1)] session_one_worker_per_job [OF s(2) _ _ s(4,5)] s(3) by simp
qed

text \<open>C5: Only authorised work is executed: every job a worker was ever started for carries the
  organisation and registration identifier the relay is configured with, and names a capability at a
  version that the relay declared.\<close>

theorem session_runs_only_authorised:
  fixes s :: "('p, 'i) sys"
  assumes "reachable execute iops config s" "w \<in> set (sy_workers s)"
  shows "authorised_job config (wk_job w)"
proof -
  have "authorised_job (ss_config (session_New config :: 'p Session)) (wk_job w)"
    using reachable_invs [OF assms(1)] assms(2) by (auto simp: auth_inv_def)
  then show ?thesis by (simp add: authorised_job_def)
qed

theorem session_runs_only_authorised_witness:
  "holds_after (connect @ admit ''j'' 1 @
      [L_Recv (Ctl_JobAssignment ((example_job ''k'' 1)\<lparr>ja_org_id := ''other''\<rparr>)), L_Handle True,
       L_Recv (Ctl_JobAssignment ((example_job ''l'' 1)\<lparr>ja_capability_version := 2\<rparr>)), L_Handle True])
     (\<lambda>s. length (sy_workers s) = 1 \<and> authorised_job example_config (wk_job (sy_workers s ! 0)))"
proof -
  have "holds_after (connect @ admit ''j'' 1 @
      [L_Recv (Ctl_JobAssignment ((example_job ''k'' 1)\<lparr>ja_org_id := ''other''\<rparr>)), L_Handle True,
       L_Recv (Ctl_JobAssignment ((example_job ''l'' 1)\<lparr>ja_capability_version := 2\<rparr>)), L_Handle True])
     (\<lambda>s. length (sy_workers s) = 1)"
    by code_simp
  then show ?thesis
    by (rule holds_afterE)
      (rule holds_afterI, assumption, simp add: session_runs_only_authorised [OF _ nth_mem])
qed

section \<open>Results\<close>


lemma unacked_has_ops [simp]:
  "unacked_has j (releaseSlot ss) = unacked_has j ss"
  "unacked_has j (markInFlight i e ss) = unacked_has j ss"
  "unacked_has j (clearInFlight i ss) = unacked_has j ss"
  "acquireSlot ss = (b, ss') \<Longrightarrow> unacked_has j ss' = unacked_has j ss"
  "unacked_has j (unacked_add r ss) \<longleftrightarrow> j = jr_job_id r \<or> unacked_has j ss"
  by (auto simp: unacked_has_def unacked_add_def gomap_simps acquireSlot_def split: if_splits)







section \<open>Cancellation\<close>



section \<open>Drain\<close>

text \<open>C30: A draining connection takes no new work: once the drain instruction has been received and
  no admission is under way, a step on the connection starts no worker and begins no admission, and
  the connection stays draining.\<close>

theorem session_draining_admits_nothing:
  assumes "relay_step execute iops l s = Some t" "live s"
    "cn_draining (sy_conns s ! current s)" "recv_job (cn_recv (sy_conns s ! current s)) = None"
  shows "length (sy_workers t) = length (sy_workers s) \<and>
    cn_draining (sy_conns t ! current s) \<and> recv_job (cn_recv (sy_conns t ! current s)) = None"
proof -
  note cur = live_current [OF assms(2)]
  from relay_step_transition [OF assms(1)] show ?thesis
    by cases (use assms(2-4) cur in \<open>auto simp: nth_update_if conn_frame_def elim!: enqueue_onE\<close>)
qed

theorem session_draining_admits_nothing_witness:
  "holds_after (connect @ [L_Recv (Ctl_DrainInstruction 5), L_Recv (Ctl_JobAssignment (example_job ''j'' 1))])
     (\<lambda>s. sy_workers s = [] \<and> cn_draining (sy_conns s ! 0))"
proof -
  let ?ls = "connect @ [L_Recv (Ctl_DrainInstruction 5)]"
  let ?l = "L_Recv (Ctl_JobAssignment (example_job ''j'' 1))"
  have "holds_after ?ls (\<lambda>s. sy_workers s = [] \<and> live s \<and> current s = 0 \<and>
      cn_draining (sy_conns s ! current s) \<and> recv_job (cn_recv (sy_conns s ! current s)) = None \<and>
      relay_step example_execute example_inventory ?l s \<noteq> None)"
    by code_simp
  then obtain s t where s: "example_run ?ls = Some s" "sy_workers s = []" "live s" "current s = 0"
    "cn_draining (sy_conns s ! current s)" "recv_job (cn_recv (sy_conns s ! current s)) = None"
    "relay_step example_execute example_inventory ?l s = Some t"
    by (blast elim: holds_afterE)
  from example_run_step [OF s(1,7)] session_draining_admits_nothing [OF s(7,3,5,6)] s(2,4)
  show ?thesis by (simp add: holds_after_def)
qed

lemma drained_end:
  assumes "cn_watch (sy_conns s ! k) = Watch_Test" "\<not> cn_done (sy_conns s ! k)" "k < length (sy_conns s)"
    "drainWatcher k acc ev s = Some t" "cn_done (sy_conns t ! k)"
  shows "ss_outstanding (sy_session s) = 0 \<and> sy_session t = sy_session s \<and> sy_workers t = sy_workers s"
  using assms by (auto simp: drainWatcher_def Let_def split: if_splits)

text \<open>C35: When the drain watcher ends a connection because everything has drained, it has: no result
  waits for an acknowledgement and every worker of every connection has given up its slot. (The other
  end of a drain is the deadline, which abandons what is left.)\<close>

theorem session_drained_means_empty:
  assumes "reachable execute iops config s" "live s"
    "cn_watch (sy_conns s ! current s) = Watch_Test" "\<not> cn_done (sy_conns s ! current s)"
    "relay_step execute iops (L_Watch acc ev) s = Some t" "cn_done (sy_conns t ! current s)"
  shows "unacked_pending (sy_session t) = [] \<and> (\<forall>w \<in> set (sy_workers t). slot_weight (wk_pc w) = 0)"
proof -
  from assms have d: "ss_outstanding (sy_session s) = 0 \<and> sy_session t = sy_session s \<and> sy_workers t = sy_workers s"
    by (intro drained_end [OF assms(3,4) live_current]) (auto simp: relay_step_def Let_def)
  with reachable_invs [OF assms(1)] have "ss_unacked (sy_session s) = []" "slot_holders s = 0"
    by (auto simp: slots_inv_def)
  with d weight_le_holders [of _ s] show ?thesis
    by (auto simp: unacked_pending_def in_set_conv_nth)
qed

theorem session_drained_means_empty_witness:
  "holds_after (connect @ admit ''j'' 1 @ steps_of 0 8 @ [L_Recv (Ctl_ResultAck ''j''), L_Handle True,
      L_Recv (Ctl_DrainInstruction 5), L_Watch True Ev_Proceed, L_Watch True Ev_Proceed,
      L_Watch True Ev_Proceed, L_Watch True Ev_Proceed])
     (\<lambda>s. unacked_pending (sy_session s) = [] \<and> cn_done (sy_conns s ! 0))"
proof -
  let ?ls = "connect @ admit ''j'' 1 @ steps_of 0 8 @ [L_Recv (Ctl_ResultAck ''j''), L_Handle True,
      L_Recv (Ctl_DrainInstruction 5), L_Watch True Ev_Proceed, L_Watch True Ev_Proceed,
      L_Watch True Ev_Proceed]"
  let ?l = "L_Watch True Ev_Proceed"
  have "holds_after ?ls (\<lambda>s. live s \<and> current s = 0 \<and> cn_watch (sy_conns s ! current s) = Watch_Test \<and>
      \<not> cn_done (sy_conns s ! current s) \<and>
      (case relay_step example_execute example_inventory ?l s of None \<Rightarrow> False
       | Some t \<Rightarrow> cn_done (sy_conns t ! current s)))"
    by code_simp
  then obtain s t where s: "example_run ?ls = Some s" "reachable example_execute example_inventory example_config s"
    "live s" "current s = 0" "cn_watch (sy_conns s ! current s) = Watch_Test" "\<not> cn_done (sy_conns s ! current s)"
    "relay_step example_execute example_inventory ?l s = Some t" "cn_done (sy_conns t ! current s)"
    by (elim holds_afterE) (auto split: option.splits)
  from example_run_step [OF s(1,7)] session_drained_means_empty [OF s(2,3,5-8)] s(4,8)
  show ?thesis by (simp add: holds_after_def)
qed

section \<open>Reconnect handshake\<close>



section \<open>Progress\<close>

fun wpc_rank :: "'p wpc \<Rightarrow> nat" where
  "wpc_rank W_Ack = 8"
| "wpc_rank W_Started = 7"
| "wpc_rank W_Execute = 6"
| "wpc_rank (W_Clear _) = 5"
| "wpc_rank (W_Decide _) = 4"
| "wpc_rank W_Release = 3"
| "wpc_rank (W_Deliver _) = 3"
| "wpc_rank (W_Send _) = 2"
| "wpc_rank W_Remove = 1"
| "wpc_rank W_Done = 0"

lemma enqueue_on_done:
  "cn_done (sy_conns s ! k) \<Longrightarrow> k < length (sy_conns s) \<Longrightarrow> enqueue_on k False m s = Some s"
  unfolding enqueue_on_def enqueue_def by (simp only: if_False if_True option.map set_conn_same)

text \<open>On a finished connection a worker is never blocked, and every step brings it nearer its end.\<close>

lemma worker_progress:
  assumes "i < length (sy_workers s)" "conn_of s i < length (sy_conns s)"
    "cn_done (sy_conns s ! conn_of s i)" "pc_of s i \<noteq> W_Done"
  shows "\<exists>t. worker_step execute i False seen e s = Some t \<and> wpc_rank (pc_of t i) < wpc_rank (pc_of s i) \<and>
    i < length (sy_workers t) \<and> conn_of t i = conn_of s i \<and> length (sy_conns t) = length (sy_conns s) \<and>
    cn_done (sy_conns t ! conn_of s i)"
  using assms
  by (cases "pc_of s i")
    (auto simp: worker_step_def Let_def enqueue_on_done cancel_contexts_nth split: prod.splits)

lemma worker_finishes:
  assumes "i < length (sy_workers s)" "conn_of s i < length (sy_conns s)"
    "cn_done (sy_conns s ! conn_of s i)"
  shows "\<exists>n t. n \<le> wpc_rank (pc_of s i) \<and>
    relay_run execute iops (replicate n (L_Worker i False seen e)) s = Some t \<and> pc_of t i = W_Done"
  using assms
proof (induction "wpc_rank (pc_of s i)" arbitrary: s rule: less_induct)
  case less
  show ?case
  proof (cases "pc_of s i = W_Done")
    case True
    then show ?thesis by (intro exI [of _ 0] exI [of _ s]) simp
  next
    case False
    from worker_progress [OF less.prems False, of execute seen e] obtain u where
      u: "worker_step execute i False seen e s = Some u" "wpc_rank (pc_of u i) < wpc_rank (pc_of s i)"
      "i < length (sy_workers u)" "conn_of u i < length (sy_conns u)" "cn_done (sy_conns u ! conn_of u i)"
      using less.prems by auto
    from less.hyps [OF u(2-5)] obtain n t where "n \<le> wpc_rank (pc_of u i)"
      "relay_run execute iops (replicate n (L_Worker i False seen e)) u = Some t" "pc_of t i = W_Done" by blast
    with u(1,2) less.prems(1) show ?thesis
      by (intro exI [of _ "Suc n"] exI [of _ t]) (simp add: relay_step_def)
  qed
qed

text \<open>C37: No worker hangs on a dead connection: when its connection is over, a worker that is
  scheduled reaches its end within eight of its own steps, whatever it was doing, even when the
  outbound channel is full and nobody drains it.\<close>

theorem session_worker_finishes_after_teardown:
  assumes "reachable execute iops config s" "i < length (sy_workers s)"
    "cn_done (sy_conns s ! wk_conn (sy_workers s ! i))"
  shows "\<exists>n t. n \<le> 8 \<and> relay_run execute iops (replicate n (L_Worker i False seen e)) s = Some t \<and>
    wk_pc (sy_workers t ! i) = W_Done"
proof -
  have "wpc_rank (pc_of s i) \<le> 8" by (cases "pc_of s i") auto
  moreover have "conn_of s i < length (sy_conns s)"
    using reachable_invs [OF assms(1)] assms(2) wf_sys_worker by blast
  ultimately show ?thesis
    using worker_finishes [OF assms(2) _ assms(3), of execute iops seen e] order.trans by blast
qed

theorem session_worker_finishes_after_teardown_witness:
  "holds_after (connect @ admit ''j'' 1 @ [L_Fail])
     (\<lambda>s. \<exists>n t. n \<le> 8 \<and> relay_run example_execute example_inventory
          (replicate n (L_Worker 0 False True ())) s = Some t \<and> wk_pc (sy_workers t ! 0) = W_Done)"
  (is "holds_after ?ls ?P")
proof -
  have "holds_after ?ls (\<lambda>s. length (sy_workers s) = 1 \<and> cn_done (sy_conns s ! wk_conn (sy_workers s ! 0)))"
    by code_simp
  then obtain s where s: "example_run ?ls = Some s" "reachable example_execute example_inventory example_config s"
    "length (sy_workers s) = 1" "cn_done (sy_conns s ! wk_conn (sy_workers s ! 0))" by (blast elim: holds_afterE)
  have "?P s" by (rule session_worker_finishes_after_teardown [OF s(2) _ s(4)]) (simp add: s(3))
  with s(1) show ?thesis by (rule holds_afterI)
qed

end
