(* ===== verification/Go_Strings.thy ===== *)
theory Go_Strings
  imports Relay_Prelude
begin

text \<open>
  What the program uses of Go's strings: the UTF-8 view of a byte string (range loops, []rune
  conversions and back) and the functions of package strings. A string is a list of bytes.
\<close>

section \<open>UTF-8\<close>

definition rune_error :: int where "rune_error = 65533"

definition byte :: "char \<Rightarrow> int" where "byte c = of_char c"

definition continuation :: "int \<Rightarrow> bool" where "continuation b \<longleftrightarrow> 128 \<le> b \<and> b < 192"

text \<open>The second byte a lead byte admits: overlong forms, surrogates and values above 10FFFF are out.\<close>

definition second_ok :: "int \<Rightarrow> int \<Rightarrow> bool" where
  "second_ok b0 b1 \<longleftrightarrow>
     (if b0 = 224 then 160 \<le> b1 \<and> b1 < 192
      else if b0 = 237 then 128 \<le> b1 \<and> b1 < 160
      else if b0 = 240 then 144 \<le> b1 \<and> b1 < 192
      else if b0 = 244 then 128 \<le> b1 \<and> b1 < 144
      else continuation b1)"

text \<open>utf8.DecodeRuneInString on a non-empty string: the rune and its width in bytes.\<close>

definition decode_rune :: "string \<Rightarrow> int \<times> nat" where
  "decode_rune s =
     (let b = map byte (take 4 s); b0 = hd b in
      if b0 < 128 then (b0, 1)
      else if 194 \<le> b0 \<and> b0 < 224 \<and> 2 \<le> length b \<and> continuation (b ! 1)
      then ((b0 - 192) * 64 + (b ! 1 - 128), 2)
      else if 224 \<le> b0 \<and> b0 < 240 \<and> 3 \<le> length b \<and> second_ok b0 (b ! 1) \<and> continuation (b ! 2)
      then ((b0 - 224) * 4096 + (b ! 1 - 128) * 64 + (b ! 2 - 128), 3)
      else if 240 \<le> b0 \<and> b0 < 245 \<and> 4 \<le> length b \<and> second_ok b0 (b ! 1) \<and> continuation (b ! 2) \<and>
              continuation (b ! 3)
      then ((b0 - 240) * 262144 + (b ! 1 - 128) * 4096 + (b ! 2 - 128) * 64 + (b ! 3 - 128), 4)
      else (rune_error, 1))"

lemma decode_rune_width: "0 < snd (decode_rune s)" "s \<noteq> [] \<Longrightarrow> snd (decode_rune s) \<le> length s"
  by (auto simp: decode_rune_def Let_def Suc_le_eq)

text \<open>The runes of a string, each with the bytes it was read from.\<close>

function rune_chunks :: "string \<Rightarrow> (int \<times> string) list" where
  "rune_chunks s = (if s = [] then [] else
     (fst (decode_rune s), take (snd (decode_rune s)) s) # rune_chunks (drop (snd (decode_rune s)) s))"
  by pat_completeness auto
termination
  by (relation "measure length") (simp_all add: decode_rune_width(1))

declare rune_chunks.simps [simp del]

definition runes :: "string \<Rightarrow> int list" where
  "runes s = map fst (rune_chunks s)"

text \<open>utf8.AppendRune: what string(rune) writes.\<close>

definition encode_bytes :: "int \<Rightarrow> int list" where
  "encode_bytes r =
     (if r < 128 then [r]
      else if r < 2048 then [192 + r div 64, 128 + r mod 64]
      else if 55296 \<le> r \<and> r < 57344 \<or> 1114111 < r then [239, 191, 189]
      else if r < 65536 then [224 + r div 4096, 128 + r div 64 mod 64, 128 + r mod 64]
      else [240 + r div 262144, 128 + r div 4096 mod 64, 128 + r div 64 mod 64, 128 + r mod 64])"

definition encode_rune :: "int \<Rightarrow> string" where
  "encode_rune r = map char_of (encode_bytes r)"

definition string_of_runes :: "int list \<Rightarrow> string" where
  "string_of_runes rs = concat (map encode_rune rs)"

lemma rune_chunks_Nil [simp]: "rune_chunks [] = []"
  by (simp add: rune_chunks.simps)

lemma rune_chunks_Cons:
  "s \<noteq> [] \<Longrightarrow> rune_chunks s =
     (fst (decode_rune s), take (snd (decode_rune s)) s) # rune_chunks (drop (snd (decode_rune s)) s)"
  by (simp add: rune_chunks.simps [of s])

lemma concat_rune_chunks: "concat (map snd (rune_chunks s)) = s"
proof (induction s rule: rune_chunks.induct)
  case (1 s)
  then show ?case by (cases "s = []") (simp_all add: rune_chunks_Cons)
qed

lemma length_rune_chunks_le: "length (rune_chunks s) \<le> length s"
proof (induction s rule: rune_chunks.induct)
  case (1 s)
  then show ?case
    using decode_rune_width [of s] by (cases "s = []") (auto simp: rune_chunks_Cons)
qed

text \<open>A valid encoding is read back as it was written.\<close>

lemma char_of_byte [simp]: "char_of (byte c) = c"
  by (simp add: byte_def)

lemma div64:
  "0 \<le> x \<Longrightarrow> x < (64::int) \<Longrightarrow> (y * 64 + x) div 64 = y"
  "0 \<le> x \<Longrightarrow> x < (64::int) \<Longrightarrow> (y * 64 + x) mod 64 = x"
  by simp_all

lemma encode_two:
  assumes "194 \<le> b0" "b0 < 224" "continuation b1"
  shows "encode_bytes ((b0 - 192) * 64 + (b1 - 128)) = [b0, b1]"
proof -
  have "0 \<le> b1 - 128" "b1 - 128 < 64" using assms(3) by (auto simp: continuation_def)
  from div64 [OF this, of "b0 - 192"] assms show ?thesis
    unfolding encode_bytes_def continuation_def by (simp add: not_less)
qed

lemma encode_three:
  assumes "224 \<le> b0" "b0 < 240" "second_ok b0 b1" "continuation b2"
  shows "encode_bytes ((b0 - 224) * 4096 + (b1 - 128) * 64 + (b2 - 128)) = [b0, b1, b2]"
proof -
  define c0 c1 c2 where c: "c0 = b0 - 224" "c1 = b1 - 128" "c2 = b2 - 128"
  have b: "0 \<le> c0" "c0 < 16" "0 \<le> c1" "c1 < 64" "0 \<le> c2" "c2 < 64" "c0 = 0 \<longrightarrow> 32 \<le> c1" "c0 = 13 \<longrightarrow> c1 < 32"
    using assms unfolding c continuation_def second_ok_def by (auto split: if_splits)
  define r where "r = c0 * 4096 + c1 * 64 + c2"
  have r: "r = (c0 * 64 + c1) * 64 + c2" unfolding r_def by simp
  have d: "r div 64 = c0 * 64 + c1" "r mod 64 = c2" unfolding r by (rule div64 [OF b(5,6)])+
  have "r div 4096 = r div 64 div 64" by (simp add: div_mult2_eq [symmetric] zdiv_zmult2_eq [symmetric])
  then have e: "r div 4096 = c0" "r div 64 mod 64 = c1" unfolding d by (simp_all only: div64 [OF b(3,4)])
  have "2048 \<le> r" using b unfolding r_def by (cases "c0 = 0"; linarith)
  moreover have "r < 65536" using b unfolding r_def by linarith
  moreover have "\<not> (55296 \<le> r \<and> r < 57344)" using b unfolding r_def by (cases "c0 = 13"; linarith)
  ultimately have "encode_bytes r = [224 + c0, 128 + c1, 128 + c2]"
    unfolding encode_bytes_def e d(2) by auto
  then show ?thesis unfolding r_def c by simp
qed

lemma encode_four:
  assumes "240 \<le> b0" "b0 < 245" "second_ok b0 b1" "continuation b2" "continuation b3"
  shows "encode_bytes ((b0 - 240) * 262144 + (b1 - 128) * 4096 + (b2 - 128) * 64 + (b3 - 128)) =
    [b0, b1, b2, b3]"
proof -
  define c0 c1 c2 c3 where c: "c0 = b0 - 240" "c1 = b1 - 128" "c2 = b2 - 128" "c3 = b3 - 128"
  have b: "0 \<le> c0" "c0 < 5" "0 \<le> c1" "c1 < 64" "0 \<le> c2" "c2 < 64" "0 \<le> c3" "c3 < 64"
    "c0 = 0 \<longrightarrow> 16 \<le> c1" "c0 = 4 \<longrightarrow> c1 < 16"
    using assms unfolding c continuation_def second_ok_def by (auto split: if_splits)
  define r where "r = c0 * 262144 + c1 * 4096 + c2 * 64 + c3"
  have r: "r = ((c0 * 64 + c1) * 64 + c2) * 64 + c3" unfolding r_def by simp
  have d: "r div 64 = (c0 * 64 + c1) * 64 + c2" "r mod 64 = c3" unfolding r by (rule div64 [OF b(7,8)])+
  have "r div 4096 = r div 64 div 64" by (simp add: zdiv_zmult2_eq [symmetric])
  then have e: "r div 4096 = c0 * 64 + c1" "r div 64 mod 64 = c2" unfolding d by (simp_all only: div64 [OF b(5,6)])
  have "r div 262144 = r div 4096 div 64" by (simp add: zdiv_zmult2_eq [symmetric])
  then have f: "r div 262144 = c0" "r div 4096 mod 64 = c1" unfolding e by (simp_all only: div64 [OF b(3,4)])
  have "65536 \<le> r" using b unfolding r_def by (cases "c0 = 0"; linarith)
  moreover have "r \<le> 1114111" using b unfolding r_def by (cases "c0 = 4"; linarith)
  ultimately have "encode_bytes r = [240 + c0, 128 + c1, 128 + c2, 128 + c3]"
    unfolding encode_bytes_def e(2) f d(2) by auto
  then show ?thesis unfolding r_def c by simp
qed

lemma take_chars: "n \<le> 4 \<Longrightarrow> take n s = map char_of (take n (map byte (take 4 s)))"
  by (simp add: take_map comp_def min_def)

lemma take_two: "2 \<le> length xs \<Longrightarrow> take 2 xs = [hd xs, xs ! 1]"
  by (cases xs; cases "tl xs") auto

lemma take_three: "3 \<le> length xs \<Longrightarrow> take 3 xs = [hd xs, xs ! 1, xs ! 2]"
  by (cases xs; cases "tl xs"; cases "tl (tl xs)") (auto simp: numeral_3_eq_3)

lemma take_four: "4 \<le> length xs \<Longrightarrow> take 4 xs = [hd xs, xs ! 1, xs ! 2, xs ! 3]"
  by (cases xs; cases "tl xs"; cases "tl (tl xs)"; cases "tl (tl (tl xs))")
    (auto simp: numeral_3_eq_3 numeral_eq_Suc)

lemma if4_cases:
  "x = (if a then u else if b then v else if c then w else if d then y else z) \<Longrightarrow> x \<noteq> z \<Longrightarrow>
   a \<and> x = u \<or> b \<and> x = v \<or> c \<and> x = w \<or> d \<and> x = y"
  by (auto split: if_splits)

lemma decode_rune_cases:
  fixes s
  defines "b \<equiv> map byte (take 4 s)"
  assumes "decode_rune s \<noteq> (rune_error, 1)"
  obtains (one) "hd b < 128" "decode_rune s = (hd b, 1)"
  | (two) "194 \<le> hd b" "hd b < 224" "2 \<le> length b" "continuation (b ! 1)"
      "decode_rune s = ((hd b - 192) * 64 + (b ! 1 - 128), 2)"
  | (three) "224 \<le> hd b" "hd b < 240" "3 \<le> length b" "second_ok (hd b) (b ! 1)" "continuation (b ! 2)"
      "decode_rune s = ((hd b - 224) * 4096 + (b ! 1 - 128) * 64 + (b ! 2 - 128), 3)"
  | (four) "240 \<le> hd b" "hd b < 245" "4 \<le> length b" "second_ok (hd b) (b ! 1)" "continuation (b ! 2)"
      "continuation (b ! 3)" "decode_rune s = ((hd b - 240) * 262144 + (b ! 1 - 128) * 4096 +
        (b ! 2 - 128) * 64 + (b ! 3 - 128), 4)"
  using if4_cases [OF decode_rune_def [of s, unfolded b_def [symmetric] Let_def] assms(2)] by blast

lemma decode_rune_valid:
  assumes "s \<noteq> []" "decode_rune s \<noteq> (rune_error, 1)"
  shows "encode_rune (fst (decode_rune s)) = take (snd (decode_rune s)) s"
proof -
  let ?b = "map byte (take 4 s)"
  note tk = take_chars [of _ s]
  from assms(2) show ?thesis
  proof (cases rule: decode_rune_cases)
    case one
    have "take 1 ?b = [hd ?b]" using assms(1) by (cases s) auto
    with one(1) tk [of 1] show ?thesis
      unfolding one(2) by (simp add: encode_rune_def encode_bytes_def)
  next
    case two
    show ?thesis
      unfolding two(5) fst_conv snd_conv encode_rune_def encode_two [OF two(1,2,4)]
      using tk [of 2] unfolding take_two [OF two(3)] by simp
  next
    case three
    show ?thesis
      unfolding three(6) fst_conv snd_conv encode_rune_def encode_three [OF three(1,2,4,5)]
      using tk [of 3] unfolding take_three [OF three(3)] by simp
  next
    case four
    show ?thesis
      unfolding four(7) fst_conv snd_conv encode_rune_def encode_four [OF four(1,2,4-6)]
      using tk [of 4] unfolding take_four [OF four(3)] by simp
  qed
qed

text \<open>
  A string without invalid bytes. U+FFFD itself is three bytes long, so a chunk of width one with the
  error rune is an invalid byte.
\<close>

definition valid_utf8 :: "string \<Rightarrow> bool" where
  "valid_utf8 s \<longleftrightarrow> list_all (\<lambda>(r, bs). \<not> (r = rune_error \<and> length bs = 1)) (rune_chunks s)"

lemma string_of_runes_chunks:
  assumes "valid_utf8 s"
  shows "map encode_rune (runes s) = map snd (rune_chunks s)"
  using assms
proof (induction s rule: rune_chunks.induct)
  case (1 s)
  show ?case
  proof (cases "s = []")
    case False
    let ?w = "snd (decode_rune s)"
    note cons = rune_chunks_Cons [OF False]
    from 1(2) have v: "valid_utf8 (drop ?w s)" "\<not> (fst (decode_rune s) = rune_error \<and> length (take ?w s) = 1)"
      unfolding valid_utf8_def cons by simp_all
    have "decode_rune s \<noteq> (rune_error, 1)"
      using v(2) False by (cases s) auto
    from decode_rune_valid [OF False this] 1(1) [OF False v(1)] show ?thesis
      unfolding runes_def cons by simp
  qed (simp add: runes_def)
qed

lemma string_of_runes_id: "valid_utf8 s \<Longrightarrow> string_of_runes (runes s) = s"
  by (simp add: string_of_runes_def string_of_runes_chunks concat_rune_chunks)

text \<open>Writing a rune and reading it back gives the rune.\<close>

definition valid_rune :: "int \<Rightarrow> bool" where
  "valid_rune r \<longleftrightarrow> 0 \<le> r \<and> r \<le> 1114111 \<and> \<not> (55296 \<le> r \<and> r < 57344)"

lemma byte_range: "0 \<le> byte x \<and> byte x < 256"
proof -
  have "byte x = byte (char_of (byte x))" by simp
  also have "\<dots> = byte x mod 256" by (simp only: byte_def of_char_of)
  finally show ?thesis using pos_mod_bound [of 256 "byte x"] pos_mod_sign [of 256 "byte x"] by simp
qed

lemma byte_char_of: "0 \<le> k \<Longrightarrow> k < 256 \<Longrightarrow> byte (char_of k) = k"
  by (simp add: byte_def)

lemma split64: "(r::int) = r div 64 * 64 + r mod 64" "0 \<le> r mod 64" "r mod 64 < 64"
  by simp_all

lemma decode_encode_two:
  assumes "128 \<le> r" "r < 2048"
  shows "decode_rune (encode_rune r @ rest) = (r, 2)"
proof -
  define c0 c1 where c: "c0 = r div 64" "c1 = r mod 64"
  have b: "2 \<le> c0" "c0 < 32" "0 \<le> c1" "c1 < 64" "r = c0 * 64 + c1" using assms split64 [of r] by (auto simp: c)
  have "encode_rune r = [char_of (192 + c0), char_of (128 + c1)]"
    using assms by (simp add: encode_rune_def encode_bytes_def c)
  with b show ?thesis by (simp add: decode_rune_def byte_char_of continuation_def)
qed

lemma decode_encode_three:
  assumes "2048 \<le> r" "r < 65536" "valid_rune r"
  shows "decode_rune (encode_rune r @ rest) = (r, 3)"
proof -
  define c0 c1 c2 where c: "c0 = r div 4096" "c1 = r div 64 mod 64" "c2 = r mod 64"
  have "r div 4096 = r div 64 div 64" by (simp add: zdiv_zmult2_eq [symmetric])
  then have r: "r = (c0 * 64 + c1) * 64 + c2" using split64(1) [of r] split64(1) [of "r div 64"] by (simp add: c)
  have m: "0 \<le> c1" "c1 < 64" "0 \<le> c2" "c2 < 64" by (simp_all add: c)
  have x: "r = c0 * 4096 + c1 * 64 + c2" using r by simp
  have "0 \<le> c0" "c0 < 16" using assms m x by linarith+
  moreover have "c0 = 0 \<longrightarrow> 32 \<le> c1" using assms m x by linarith
  moreover have "c0 = 13 \<longrightarrow> c1 < 32" using assms(3) m x unfolding valid_rune_def by linarith
  ultimately have b: "0 \<le> c0" "c0 < 16" "c0 = 0 \<Longrightarrow> 32 \<le> c1" "c0 = 13 \<Longrightarrow> c1 < 32" by simp_all
  have "encode_rune r = [char_of (224 + c0), char_of (128 + c1), char_of (128 + c2)]"
    using assms by (auto simp: encode_rune_def encode_bytes_def c valid_rune_def)
  moreover have "second_ok (224 + c0) (128 + c1)" using b m by (auto simp: second_ok_def continuation_def)
  ultimately show ?thesis using b(1,2) m r by (simp add: decode_rune_def byte_char_of continuation_def)
qed

lemma decode_encode_four:
  assumes "65536 \<le> r" "valid_rune r"
  shows "decode_rune (encode_rune r @ rest) = (r, 4)"
proof -
  define c0 c1 c2 c3 where c: "c0 = r div 262144" "c1 = r div 4096 mod 64" "c2 = r div 64 mod 64" "c3 = r mod 64"
  have "r div 4096 = r div 64 div 64" "r div 262144 = r div 4096 div 64" by (simp_all add: zdiv_zmult2_eq [symmetric])
  then have r: "r = ((c0 * 64 + c1) * 64 + c2) * 64 + c3"
    using split64(1) [of r] split64(1) [of "r div 64"] split64(1) [of "r div 4096"] by (simp add: c)
  have m: "0 \<le> c1" "c1 < 64" "0 \<le> c2" "c2 < 64" "0 \<le> c3" "c3 < 64" by (simp_all add: c)
  have x: "r = c0 * 262144 + c1 * 4096 + c2 * 64 + c3" using r by simp
  have hi: "r \<le> 1114111" using assms(2) by (simp add: valid_rune_def)
  have "0 \<le> c0" "c0 < 5" using assms(1) hi m x by linarith+
  moreover have "c0 = 0 \<longrightarrow> 16 \<le> c1" using assms(1) m x by linarith
  moreover have "c0 = 4 \<longrightarrow> c1 < 16" using hi m x by linarith
  ultimately have b: "0 \<le> c0" "c0 < 5" "c0 = 0 \<Longrightarrow> 16 \<le> c1" "c0 = 4 \<Longrightarrow> c1 < 16" by simp_all
  have "encode_rune r = [char_of (240 + c0), char_of (128 + c1), char_of (128 + c2), char_of (128 + c3)]"
    using assms by (auto simp: encode_rune_def encode_bytes_def c valid_rune_def)
  moreover have "second_ok (240 + c0) (128 + c1)" using b m by (auto simp: second_ok_def continuation_def)
  ultimately show ?thesis using b(1,2) m r by (simp add: decode_rune_def byte_char_of continuation_def)
qed

lemma decode_encode:
  assumes "valid_rune r"
  shows "decode_rune (encode_rune r @ rest) = (r, length (encode_rune r)) \<and> 0 < length (encode_rune r) \<and>
    length (encode_rune r) \<le> 4"
proof -
  have len: "0 < length (encode_rune r) \<and> length (encode_rune r) \<le> 4"
    "128 \<le> r \<and> r < 2048 \<Longrightarrow> length (encode_rune r) = 2" "2048 \<le> r \<and> r < 65536 \<Longrightarrow> length (encode_rune r) = 3"
    "65536 \<le> r \<Longrightarrow> length (encode_rune r) = 4"
    using assms by (auto simp: encode_rune_def encode_bytes_def valid_rune_def)
  consider "r < 128" | "128 \<le> r" "r < 2048" | "2048 \<le> r" "r < 65536" | "65536 \<le> r" by linarith
  then show ?thesis
  proof cases
    case 1
    then show ?thesis using assms
      by (simp add: encode_rune_def encode_bytes_def decode_rune_def byte_char_of valid_rune_def)
  qed (use assms len decode_encode_two decode_encode_three decode_encode_four in simp_all)
qed

lemma decode_rune_is_valid:
  assumes "s \<noteq> []"
  shows "valid_rune (fst (decode_rune s))"
proof -
  have hd: "0 \<le> hd (map byte (take 4 s))" using assms byte_range by (cases s) auto
  show ?thesis
  proof (cases "decode_rune s = (rune_error, 1)")
    case True
    then show ?thesis by (simp add: valid_rune_def rune_error_def)
  next
    case False
    then show ?thesis
    proof (cases rule: decode_rune_cases)
      case one
      with hd show ?thesis by (simp add: valid_rune_def)
    next
      case two
      then show ?thesis by (simp add: valid_rune_def continuation_def)
    next
      case three
      then show ?thesis unfolding three(6) fst_conv valid_rune_def second_ok_def continuation_def
        by (simp split: if_splits)
    next
      case four
      then show ?thesis unfolding four(7) fst_conv valid_rune_def second_ok_def continuation_def
        by (simp split: if_splits)
    qed
  qed
qed

lemma runes_are_valid: "r \<in> set (runes s) \<Longrightarrow> valid_rune r"
proof (induction s rule: rune_chunks.induct)
  case (1 s)
  then show ?case
    by (cases "s = []") (auto simp: runes_def rune_chunks_Cons decode_rune_is_valid)
qed

lemma runes_string_of_runes: "list_all valid_rune rs \<Longrightarrow> runes (string_of_runes rs) = rs"
proof (induction rs)
  case (Cons r rs)
  have d: "decode_rune (encode_rune r @ string_of_runes rs) = (r, length (encode_rune r))"
    "encode_rune r @ string_of_runes rs \<noteq> []"
    using decode_encode [of r "string_of_runes rs"] Cons.prems by auto
  have "rune_chunks (string_of_runes (r # rs)) = (r, encode_rune r) # rune_chunks (string_of_runes rs)"
    using rune_chunks_Cons [OF d(2)] by (simp add: string_of_runes_def d(1) [unfolded string_of_runes_def])
  with Cons show ?case by (simp add: runes_def)
qed (simp add: runes_def string_of_runes_def)

lemma length_string_of_runes_le: "list_all valid_rune rs \<Longrightarrow> length (string_of_runes rs) \<le> 4 * length rs"
proof (induction rs)
  case (Cons r rs)
  then show ?case using decode_encode [of r "[]"] by (simp add: string_of_runes_def)
qed (simp add: string_of_runes_def)

text \<open>The ASCII strings are their own runes.\<close>

lemma decode_rune_ascii: "byte c < 128 \<Longrightarrow> decode_rune (c # s) = (byte c, 1)"
  by (simp add: decode_rune_def)

lemma decode_rune_ascii_only:
  assumes "s \<noteq> []" "fst (decode_rune s) < 128"
  shows "decode_rune s = (byte (hd s), 1) \<and> byte (hd s) < 128"
proof -
  have h: "hd (map byte (take 4 s)) = byte (hd s)" using assms(1) by (cases s) auto
  have "decode_rune s \<noteq> (rune_error, 1)" using assms(2) by (auto simp: rune_error_def)
  then show ?thesis
  proof (cases rule: decode_rune_cases)
    case one
    then show ?thesis using h by simp
  next
    case two
    then show ?thesis using assms(2) by (simp add: continuation_def)
  next
    case three
    then show ?thesis using assms(2) by (simp add: continuation_def second_ok_def split: if_splits)
  next
    case four
    then show ?thesis using assms(2) by (simp add: continuation_def second_ok_def split: if_splits)
  qed
qed

lemma runes_Cons_ascii: "byte c < 128 \<Longrightarrow> runes (c # s) = byte c # runes s"
  by (simp add: runes_def rune_chunks_Cons decode_rune_ascii)

lemma runes_ascii: "list_all (\<lambda>c. byte c < 128) s \<Longrightarrow> runes s = map byte s"
  by (induction s) (simp_all add: runes_Cons_ascii, simp add: runes_def)

lemma runes_ascii_only:
  "list_all (\<lambda>r. r < 128) (runes s) \<Longrightarrow> runes s = map byte s \<and> list_all (\<lambda>c. byte c < 128) s"
proof (induction s rule: rune_chunks.induct)
  case (1 s)
  show ?case
  proof (cases s)
    case (Cons c s')
    then have ne: "s \<noteq> []" by simp
    have "fst (decode_rune s) < 128" using 1(2) by (simp add: runes_def rune_chunks_Cons [OF ne])
    with decode_rune_ascii_only [OF ne] Cons have d: "decode_rune s = (byte c, 1)" "byte c < 128" by auto
    have r: "runes s = byte c # runes s'" using runes_Cons_ascii [OF d(2)] Cons by simp
    have "list_all (\<lambda>r. r < 128) (runes (drop (snd (decode_rune s)) s))" using 1(2) r d Cons by simp
    from 1(1) [OF ne this] show ?thesis using r d Cons by simp
  qed (simp add: runes_def)
qed

section \<open>Package strings\<close>

definition newline :: char where "newline = CHR 0x0A"

definition HasPrefix :: "string \<Rightarrow> string \<Rightarrow> bool" where
  "HasPrefix s p = prefix p s"

definition TrimSuffix :: "string \<Rightarrow> string \<Rightarrow> string" where
  "TrimSuffix s x = (if suffix x s then take (length s - length x) s else s)"

definition IndexByte :: "string \<Rightarrow> char \<Rightarrow> nat option" where
  "IndexByte s c =
     (let n = length (takeWhile (\<lambda>d. d \<noteq> c) s) in if n < length s then Some n else None)"

text \<open>strings.Cut: the text before and after the first occurrence of a separator.\<close>

fun Cut :: "string \<Rightarrow> string \<Rightarrow> string \<times> string \<times> bool" where
  "Cut s sep =
     (if prefix sep s then ([], drop (length sep) s, True)
      else case s of
        [] \<Rightarrow> ([], [], False)
      | c # rest \<Rightarrow> (case Cut rest sep of
            (before, after, True) \<Rightarrow> (c # before, after, True)
          | (_, _, False) \<Rightarrow> (s, [], False)))"

declare Cut.simps [simp del]

definition Contains :: "string \<Rightarrow> string \<Rightarrow> bool" where
  "Contains s x = snd (snd (Cut s x))"

lemma Cut_found: "Cut s sep = (b, a, True) \<Longrightarrow> s = b @ sep @ a"
proof (induction s arbitrary: b a)
  case Nil
  then show ?case by (auto simp: Cut.simps [of "[]"] prefix_def split: if_splits)
next
  case (Cons c s)
  then show ?case
    by (auto simp: Cut.simps [of "c # s"] prefix_def split: if_splits prod.splits bool.splits)
qed

lemma Cut_missing: "Cut s sep = (b, a, False) \<Longrightarrow> b = s \<and> a = []"
  by (auto simp: Cut.simps [of s] split: if_splits list.splits prod.splits bool.splits)

text \<open>strings.Split with a non-empty separator.\<close>

function Split :: "string \<Rightarrow> string \<Rightarrow> string list" where
  "Split s sep =
     (if sep = [] then map (\<lambda>c. [c]) s
      else if snd (snd (Cut s sep)) then fst (Cut s sep) # Split (fst (snd (Cut s sep))) sep
      else [s])"
  by pat_completeness auto
termination
proof (relation "measure (\<lambda>(s, sep). length s)")
  fix s sep :: string assume sep: "sep \<noteq> []" "snd (snd (Cut s sep))"
  then obtain b a where c: "Cut s sep = (b, a, True)" by (cases "Cut s sep") auto
  then have "s = b @ sep @ a" by (rule Cut_found)
  with sep(1) c show "((fst (snd (Cut s sep)), sep), s, sep) \<in> measure (\<lambda>(s, sep). length s)"
    by (simp add: measure_def inv_image_def)
qed simp

declare Split.simps [simp del]

fun Join :: "string list \<Rightarrow> string \<Rightarrow> string" where
  "Join [] sep = []"
| "Join [x] sep = x"
| "Join (x # y # ys) sep = x @ sep @ Join (y # ys) sep"

lemma Split_neq_Nil: "sep \<noteq> [] \<Longrightarrow> Split s sep \<noteq> []"
  by (simp add: Split.simps)

lemma Join_Cons: "xs \<noteq> [] \<Longrightarrow> Join (x # xs) sep = x @ sep @ Join xs sep"
  by (cases xs) auto

text \<open>Joining what was split gives the string back.\<close>

lemma Join_Split: "sep \<noteq> [] \<Longrightarrow> Join (Split s sep) sep = s"
proof (induction s sep rule: Split.induct)
  case (1 s sep)
  obtain b a f where c: "Cut s sep = (b, a, f)" by (cases "Cut s sep")
  show ?case
  proof (cases f)
    case True
    with 1(2) c have "Split s sep = b # Split a sep" by (simp add: Split.simps [of s])
    moreover have "Join (Split a sep) sep = a" using 1 c True by auto
    ultimately have "Join (Split s sep) sep = b @ sep @ a"
      using Join_Cons [OF Split_neq_Nil [OF 1(2)], of b a sep] by simp
    then show ?thesis using Cut_found [of s sep b a] c True by simp
  next
    case False
    with 1 c show ?thesis by (simp add: Split.simps [of s])
  qed
qed

text \<open>strings.TrimSpace: the Unicode white space runes, by their encodings.\<close>

definition space_encodings :: "string list" where
  "space_encodings = map encode_rune
     ([9, 10, 11, 12, 13, 32, 133, 160, 5760] @ [8192..8202] @ [8232, 8233, 8239, 8287, 12288])"

definition space_prefix :: "string \<Rightarrow> string option" where
  "space_prefix s = find (\<lambda>e. prefix e s) space_encodings"

definition space_suffix :: "string \<Rightarrow> string option" where
  "space_suffix s = find (\<lambda>e. suffix e s) space_encodings"

lemma space_encodings_pos: "e \<in> set space_encodings \<Longrightarrow> 0 < length e"
  by (auto simp: space_encodings_def encode_rune_def encode_bytes_def)

lemma space_find_pos: "find P space_encodings = Some e \<Longrightarrow> 0 < length e \<and> P e"
proof -
  assume "find P space_encodings = Some e"
  then obtain i where "i < length space_encodings" "P e" "e = space_encodings ! i"
    by (auto simp: find_Some_iff)
  then show ?thesis using space_encodings_pos [of e] nth_mem [of i space_encodings] by simp
qed

function TrimLeftSpace :: "string \<Rightarrow> string" where
  "TrimLeftSpace s =
     (if space_prefix s = None then s else TrimLeftSpace (drop (length (the (space_prefix s))) s))"
  by pat_completeness auto
termination
proof (relation "measure length")
  fix s assume "space_prefix s \<noteq> None"
  then obtain e where "space_prefix s = Some e" by blast
  with space_find_pos [OF this [unfolded space_prefix_def]]
  show "(drop (length (the (space_prefix s))) s, s) \<in> measure length"
    by (cases s) auto
qed simp

function TrimRightSpace :: "string \<Rightarrow> string" where
  "TrimRightSpace s =
     (if space_suffix s = None then s
      else TrimRightSpace (take (length s - length (the (space_suffix s))) s))"
  by pat_completeness auto
termination
proof (relation "measure length")
  fix s assume "space_suffix s \<noteq> None"
  then obtain e where "space_suffix s = Some e" by blast
  with space_find_pos [OF this [unfolded space_suffix_def]]
  show "(take (length s - length (the (space_suffix s))) s, s) \<in> measure length"
    by (cases s) auto
qed simp

declare TrimLeftSpace.simps [simp del] TrimRightSpace.simps [simp del]

definition TrimSpace :: "string \<Rightarrow> string" where
  "TrimSpace s = TrimRightSpace (TrimLeftSpace s)"

end
