(* ===== verification/Go_Regexp.thy ===== *)
theory Go_Regexp
  imports Go_Strings
begin

text \<open>
  What the program uses of package regexp. A compiled pattern is a syntax tree; matching is
  leftmost-first over the runes of the text, as for a pattern compiled by regexp.Compile: among the
  matches that begin earliest, the one a backtracking search finds first. \<open>ends\<close> gives the end
  positions of the matches that begin at a position, in the order of preference.

  Customer-written patterns are turned into trees by a parameter (the pattern syntax is not modelled);
  the compiled-in patterns are written as trees.
\<close>

section \<open>Patterns\<close>

datatype regex =
  R_Empty
| R_Class bool "(int \<times> int) list"
| R_Begin
| R_End
| R_WordBoundary
| R_Cat regex regex
| R_Alt regex regex
| R_Star bool regex

text \<open>\<open>R_Class negated ranges\<close> is one rune; \<open>R_Star greedy r\<close> a repetition.\<close>

definition R_Quest :: "regex \<Rightarrow> regex" where
  "R_Quest r = R_Alt r R_Empty"

definition R_Plus :: "regex \<Rightarrow> regex" where
  "R_Plus r = R_Cat r (R_Star True r)"

fun R_Seq :: "regex list \<Rightarrow> regex" where
  "R_Seq [] = R_Empty"
| "R_Seq [r] = r"
| "R_Seq (r # rs) = R_Cat r (R_Seq rs)"

fun R_Any_of :: "regex list \<Rightarrow> regex" where
  "R_Any_of [] = R_Class False []"
| "R_Any_of [r] = r"
| "R_Any_of (r # rs) = R_Alt r (R_Any_of rs)"

text \<open>\<open>r{n,}\<close> and \<open>r{0,n}\<close>.\<close>

definition R_AtLeast :: "nat \<Rightarrow> regex \<Rightarrow> regex" where
  "R_AtLeast n r = R_Seq (replicate n r @ [R_Star True r])"

fun R_UpTo :: "nat \<Rightarrow> regex \<Rightarrow> regex" where
  "R_UpTo 0 r = R_Empty"
| "R_UpTo (Suc n) r = R_Quest (R_Cat r (R_UpTo n r))"

definition R_Chars :: "string \<Rightarrow> regex" where
  "R_Chars cs = R_Class False (map (\<lambda>c. (byte c, byte c)) cs)"

definition R_Lit :: "string \<Rightarrow> regex" where
  "R_Lit s = R_Seq (map (\<lambda>c. R_Class False [(byte c, byte c)]) s)"

text \<open>
  Case folding of one lower-case ASCII letter: the upper-case letter, and the two non-ASCII runes that
  fold to ASCII, the long s and the Kelvin sign.
\<close>

definition fold_ranges :: "int \<Rightarrow> (int \<times> int) list" where
  "fold_ranges c =
     (if 97 \<le> c \<and> c \<le> 122
      then [(c, c), (c - 32, c - 32)] @ (if c = 115 then [(383, 383)] else []) @
           (if c = 107 then [(8490, 8490)] else [])
      else [(c, c)])"

definition R_LitFold :: "string \<Rightarrow> regex" where
  "R_LitFold s = R_Seq (map (\<lambda>c. R_Class False (fold_ranges (byte c))) s)"

section \<open>Matching\<close>

definition in_ranges :: "int \<Rightarrow> (int \<times> int) list \<Rightarrow> bool" where
  "in_ranges c ranges \<longleftrightarrow> list_ex (\<lambda>(lo, hi). lo \<le> c \<and> c \<le> hi) ranges"

definition word_rune :: "int \<Rightarrow> bool" where
  "word_rune c = in_ranges c [(48, 57), (65, 90), (95, 95), (97, 122)]"

definition word_at :: "int list \<Rightarrow> nat \<Rightarrow> bool" where
  "word_at rs i \<longleftrightarrow> i < length rs \<and> word_rune (rs ! i)"

definition word_boundary :: "int list \<Rightarrow> nat \<Rightarrow> bool" where
  "word_boundary rs i \<longleftrightarrow> (0 < i \<and> word_at rs (i - 1)) \<noteq> word_at rs i"

text \<open>Of equal end positions only the most preferred one counts.\<close>

fun keep_first :: "nat list \<Rightarrow> nat list" where
  "keep_first [] = []"
| "keep_first (x # xs) = x # keep_first (filter (\<lambda>y. y \<noteq> x) xs)"

text \<open>
  The repetitions of a step: an iteration that consumes nothing ends the repetition, so at most one
  iteration per remaining rune is taken, which is the fuel.
\<close>

fun star_ends :: "(nat \<Rightarrow> nat list) \<Rightarrow> bool \<Rightarrow> nat \<Rightarrow> nat \<Rightarrow> nat list" where
  "star_ends step greedy 0 i = [i]"
| "star_ends step greedy (Suc fuel) i =
     (let more = concat (map (star_ends step greedy fuel) (filter (\<lambda>j. i < j) (step i)))
      in keep_first (if greedy then more @ [i] else i # more))"

primrec ends :: "int list \<Rightarrow> regex \<Rightarrow> nat \<Rightarrow> nat list" where
  "ends rs R_Empty i = [i]"
| "ends rs (R_Class negated ranges) i =
     (if i < length rs \<and> in_ranges (rs ! i) ranges \<noteq> negated then [Suc i] else [])"
| "ends rs R_Begin i = (if i = 0 then [i] else [])"
| "ends rs R_End i = (if i = length rs then [i] else [])"
| "ends rs R_WordBoundary i = (if word_boundary rs i then [i] else [])"
| "ends rs (R_Cat r s) i = keep_first (concat (map (ends rs s) (ends rs r i)))"
| "ends rs (R_Alt r s) i = keep_first (ends rs r i @ ends rs s i)"
| "ends rs (R_Star greedy r) i = star_ends (ends rs r) greedy (length rs - i) i"

text \<open>The leftmost match at or after a position.\<close>

definition find_from :: "int list \<Rightarrow> regex \<Rightarrow> nat \<Rightarrow> (nat \<times> nat) option" where
  "find_from rs r pos =
     (case find (\<lambda>i. ends rs r i \<noteq> []) [pos..<Suc (length rs)] of
        None \<Rightarrow> None
      | Some i \<Rightarrow> Some (i, hd (ends rs r i)))"

definition MatchString :: "regex \<Rightarrow> string \<Rightarrow> bool" where
  "MatchString r s \<longleftrightarrow> find_from (runes s) r 0 \<noteq> None"

text \<open>
  The scan of FindAll: an empty match right after the previous match is not reported, and after an
  empty match the scan moves on by one rune. \<open>prev\<close> is the end of the previous match.
\<close>

fun all_matches ::
  "int list \<Rightarrow> regex \<Rightarrow> nat \<Rightarrow> nat \<Rightarrow> nat option \<Rightarrow> (nat \<times> nat) list" where
  "all_matches rs r 0 pos prev = []"
| "all_matches rs r (Suc fuel) pos prev =
     (case find_from rs r pos of
        None \<Rightarrow> []
      | Some (b, e) \<Rightarrow>
          if e = pos
          then (if prev = Some b then [] else [(b, e)]) @ all_matches rs r fuel (Suc pos) (Some e)
          else (b, e) # all_matches rs r fuel e (Some e))"

text \<open>Byte offset of the rune at an index.\<close>

definition rune_offset :: "(int \<times> string) list \<Rightarrow> nat \<Rightarrow> nat" where
  "rune_offset chunks i = sum_list (map (\<lambda>c. length (snd c)) (take i chunks))"

definition FindAllStringIndex :: "regex \<Rightarrow> string \<Rightarrow> (nat \<times> nat) list" where
  "FindAllStringIndex r s =
     (let chunks = rune_chunks s; rs = map fst chunks
      in map (\<lambda>(b, e). (rune_offset chunks b, rune_offset chunks e))
           (all_matches rs r (Suc (length rs)) 0 None))"

section \<open>Matches lie inside the text, in order\<close>

lemma set_keep_first [simp]: "set (keep_first xs) = set xs"
  by (induction xs rule: keep_first.induct) auto

lemma keep_first_Nil [simp]: "keep_first xs = [] \<longleftrightarrow> xs = []"
  by (cases xs) auto

lemma star_ends_bounds:
  assumes "\<And>i j. i \<le> n \<Longrightarrow> j \<in> set (step i) \<Longrightarrow> i \<le> j \<and> j \<le> n"
  shows "i \<le> n \<Longrightarrow> j \<in> set (star_ends step greedy fuel i) \<Longrightarrow> i \<le> j \<and> j \<le> n"
proof (induction fuel arbitrary: i)
  case (Suc fuel)
  from Suc.prems(2) consider "j = i" | k where "k \<in> set (step i)" "i < k" "j \<in> set (star_ends step greedy fuel k)"
    by (auto simp: Let_def split: if_splits)
  then show ?case
  proof cases
    case 2
    with assms [OF Suc.prems(1)] Suc.IH [of k] show ?thesis by force
  qed (use Suc.prems in simp)
qed simp

lemma ends_bounds:
  "i \<le> length rs \<Longrightarrow> j \<in> set (ends rs r i) \<Longrightarrow> i \<le> j \<and> j \<le> length rs"
proof (induction r arbitrary: i j)
  case (R_Cat r s)
  from R_Cat.prems(2) obtain k where k: "k \<in> set (ends rs r i)" and j: "j \<in> set (ends rs s k)"
    by auto
  have "i \<le> k \<and> k \<le> length rs" by (rule R_Cat.IH(1) [OF R_Cat.prems(1) k])
  moreover from this have "k \<le> j \<and> j \<le> length rs" using R_Cat.IH(2) [OF _ j] by simp
  ultimately show ?case by simp
next
  case (R_Star greedy r)
  from R_Star.prems(2) show ?case
    using star_ends_bounds [OF R_Star.IH R_Star.prems(1)] by simp
next
  case (R_Alt r s)
  from R_Alt.prems(2) consider "j \<in> set (ends rs r i)" | "j \<in> set (ends rs s i)" by auto
  then show ?case by cases (rule R_Alt.IH [OF R_Alt.prems(1)], assumption)+
qed (simp_all split: if_splits)

lemma find_from_bounds:
  assumes "find_from rs r pos = Some (b, e)"
  shows "pos \<le> b \<and> b \<le> e \<and> e \<le> length rs"
proof -
  obtain i where i: "find (\<lambda>i. ends rs r i \<noteq> []) [pos..<Suc (length rs)] = Some i" "b = i" "e = hd (ends rs r i)"
    using assms by (auto simp: find_from_def split: option.splits)
  then obtain k where "k < length [pos..<Suc (length rs)]" "ends rs r i \<noteq> []" "i = [pos..<Suc (length rs)] ! k"
    unfolding find_Some_iff by blast
  then have "i \<in> set [pos..<Suc (length rs)]" "hd (ends rs r i) \<in> set (ends rs r i)"
    using nth_mem by (blast, auto)
  with ends_bounds [of i rs "hd (ends rs r i)" r] i show ?thesis by auto
qed

definition ordered_from :: "nat \<Rightarrow> nat \<Rightarrow> (nat \<times> nat) list \<Rightarrow> bool" where
  "ordered_from pos n spans \<longleftrightarrow>
     (\<forall>(b, e) \<in> set spans. pos \<le> b \<and> b \<le> e \<and> e \<le> n) \<and> sorted_wrt (\<lambda>x y. snd x \<le> fst y) spans"

lemma ordered_from_mono: "ordered_from pos n spans \<Longrightarrow> pos' \<le> pos \<Longrightarrow> ordered_from pos' n spans"
  by (fastforce simp: ordered_from_def)

lemma ordered_from_Cons:
  "pos \<le> b \<Longrightarrow> b \<le> e \<Longrightarrow> e \<le> n \<Longrightarrow> ordered_from e n spans \<Longrightarrow> ordered_from pos n ((b, e) # spans)"
  by (fastforce simp: ordered_from_def)

lemma all_matches_ordered: "ordered_from pos (length rs) (all_matches rs r fuel pos prev)"
proof (induction fuel arbitrary: pos prev)
  case 0
  then show ?case by (simp add: ordered_from_def)
next
  case (Suc fuel)
  show ?case
  proof (cases "find_from rs r pos")
    case None
    then show ?thesis by (simp add: ordered_from_def)
  next
    case (Some m)
    obtain b e where m: "m = (b, e)" by (cases m)
    have be: "pos \<le> b" "b \<le> e" "e \<le> length rs" using find_from_bounds [of rs r pos b e] Some m by auto
    show ?thesis
      using Some m be Suc [of e "Some e"] ordered_from_mono [OF Suc [of "Suc pos" "Some e"], of e]
        ordered_from_mono [OF Suc [of "Suc pos" "Some e"], of pos]
      by (auto intro!: ordered_from_Cons)
  qed
qed

text \<open>The fuel is enough: more of it finds no further match.\<close>

lemma all_matches_end: "length rs < pos \<Longrightarrow> all_matches rs r fuel pos prev = []"
  by (cases fuel) (auto simp: find_from_def)

lemma all_matches_fuel:
  "Suc (length rs) - pos \<le> fuel \<Longrightarrow> all_matches rs r (fuel + n) pos prev = all_matches rs r fuel pos prev"
proof (induction fuel arbitrary: pos prev)
  case 0
  then show ?case by (simp add: all_matches_end)
next
  case (Suc fuel)
  have "all_matches rs r (fuel + n) p q = all_matches rs r fuel p q" if "pos < p" for p q
    using that Suc.prems by (intro Suc.IH) linarith
  moreover have "pos < e" if "find_from rs r pos = Some (b, e)" "e \<noteq> pos" for b e
    using find_from_bounds [OF that(1)] that(2) by linarith
  ultimately show ?case
    by (simp split: option.splits prod.splits)
qed

lemma rune_offset_mono: "i \<le> j \<Longrightarrow> rune_offset chunks i \<le> rune_offset chunks j"
proof -
  assume "i \<le> j"
  then obtain d where "j = i + d" by (auto simp: le_iff_add)
  then show ?thesis by (simp add: rune_offset_def take_add)
qed

lemma rune_offset_le: "rune_offset (rune_chunks s) i \<le> length s"
proof -
  have "rune_offset (rune_chunks s) i \<le> rune_offset (rune_chunks s) (max i (length (rune_chunks s)))"
    by (rule rune_offset_mono) simp
  also have "\<dots> = length (concat (map snd (rune_chunks s)))"
    by (simp add: rune_offset_def length_concat comp_def)
  finally show ?thesis by (simp add: concat_rune_chunks)
qed

lemma ordered_from_map:
  assumes o: "ordered_from 0 n ms" and mono: "\<And>i j. i \<le> j \<Longrightarrow> f i \<le> f j" and top: "\<And>i. f i \<le> N"
  shows "ordered_from 0 N (map (\<lambda>(b, e). (f b, f e)) ms)"
proof -
  have s: "sorted_wrt (\<lambda>x y. snd x \<le> fst y) ms" and r: "\<And>b e. (b, e) \<in> set ms \<Longrightarrow> b \<le> e"
    using o by (auto simp: ordered_from_def case_prod_beta)
  have "sorted_wrt (\<lambda>x y. snd x \<le> fst y) (map (\<lambda>(b, e). (f b, f e)) ms)"
    unfolding sorted_wrt_map
    by (rule sorted_wrt_mono_rel [OF _ s]) (simp add: mono case_prod_beta)
  then show ?thesis
    using r by (auto simp: ordered_from_def mono top case_prod_beta)
qed

lemma FindAllStringIndex_ordered: "ordered_from 0 (length s) (FindAllStringIndex r s)"
  unfolding FindAllStringIndex_def Let_def
  by (rule ordered_from_map) (rule all_matches_ordered, erule rune_offset_mono, rule rune_offset_le)

lemma FindAllStringIndex_bounds: "(b, e) \<in> set (FindAllStringIndex r s) \<Longrightarrow> b \<le> e \<and> e \<le> length s"
  using FindAllStringIndex_ordered [of s r] by (auto simp: ordered_from_def)

section \<open>Anchored matches\<close>

text \<open>The runes a pattern can consume.\<close>

primrec consumes :: "regex \<Rightarrow> int \<Rightarrow> bool" where
  "consumes R_Empty c \<longleftrightarrow> False"
| "consumes (R_Class negated ranges) c \<longleftrightarrow> in_ranges c ranges \<noteq> negated"
| "consumes R_Begin c \<longleftrightarrow> False"
| "consumes R_End c \<longleftrightarrow> False"
| "consumes R_WordBoundary c \<longleftrightarrow> False"
| "consumes (R_Cat r s) c \<longleftrightarrow> consumes r c \<or> consumes s c"
| "consumes (R_Alt r s) c \<longleftrightarrow> consumes r c \<or> consumes s c"
| "consumes (R_Star greedy r) c \<longleftrightarrow> consumes r c"

definition spelled :: "(int \<Rightarrow> bool) \<Rightarrow> int list \<Rightarrow> nat \<Rightarrow> nat \<Rightarrow> bool" where
  "spelled P rs i j \<longleftrightarrow> (\<forall>k. i \<le> k \<and> k < j \<longrightarrow> P (rs ! k))"

lemma spelled_refl [simp]: "spelled P rs i i"
  by (auto simp: spelled_def)

lemma spelled_trans: "spelled P rs i k \<Longrightarrow> spelled P rs k j \<Longrightarrow> spelled P rs i j"
  unfolding spelled_def by (meson not_le)

lemma spelled_mono: "spelled P rs i j \<Longrightarrow> (\<And>c. P c \<Longrightarrow> Q c) \<Longrightarrow> spelled Q rs i j"
  by (auto simp: spelled_def)

lemma star_ends_spelled:
  assumes "\<And>i j. j \<in> set (step i) \<Longrightarrow> spelled P rs i j"
  shows "j \<in> set (star_ends step greedy fuel i) \<Longrightarrow> spelled P rs i j"
proof (induction fuel arbitrary: i)
  case (Suc fuel)
  from Suc.prems consider "j = i" | k where "k \<in> set (step i)" "j \<in> set (star_ends step greedy fuel k)"
    by (auto simp: Let_def split: if_splits)
  then show ?case
  proof cases
    case 2
    then show ?thesis using spelled_trans assms Suc.IH by blast
  qed simp
qed simp

lemma ends_spelled: "j \<in> set (ends rs r i) \<Longrightarrow> spelled (consumes r) rs i j"
proof (induction r arbitrary: i j)
  case (R_Class negated ranges)
  then show ?case by (auto simp: spelled_def less_Suc_eq split: if_splits)
next
  case (R_Cat r s)
  from R_Cat.prems obtain k where k: "k \<in> set (ends rs r i)" "j \<in> set (ends rs s k)" by auto
  show ?case
    by (rule spelled_trans [OF spelled_mono [OF R_Cat.IH(1) [OF k(1)]] spelled_mono [OF R_Cat.IH(2) [OF k(2)]]])
      simp_all
next
  case (R_Alt r s)
  from R_Alt.prems consider "j \<in> set (ends rs r i)" | "j \<in> set (ends rs s i)" by auto
  then show ?case by cases (auto intro: spelled_mono [OF R_Alt.IH(1)] spelled_mono [OF R_Alt.IH(2)])
next
  case (R_Star greedy r)
  then have "spelled (consumes r) rs i j" using star_ends_spelled [of "ends rs r", OF R_Star.IH] by simp
  then show ?case by (rule spelled_mono) simp
qed (simp_all split: if_splits)

text \<open>A pattern anchored at both ends.\<close>

definition full_match :: "int list \<Rightarrow> regex \<Rightarrow> bool" where
  "full_match rs r \<longleftrightarrow> length rs \<in> set (ends rs r 0)"

lemma find_from_begin:
  "find_from rs (R_Cat R_Begin r) 0 \<noteq> None \<longleftrightarrow> ends rs r 0 \<noteq> []"
proof -
  have e: "ends rs (R_Cat R_Begin r) i \<noteq> [] \<longleftrightarrow> i = 0 \<and> ends rs r 0 \<noteq> []" for i
    by (simp add: keep_first_Nil)
  have "find (\<lambda>i. ends rs (R_Cat R_Begin r) i \<noteq> []) [0..<Suc (length rs)] \<noteq> None \<longleftrightarrow>
      (\<exists>i \<in> set [0..<Suc (length rs)]. ends rs (R_Cat R_Begin r) i \<noteq> [])"
    unfolding find_None_iff by blast
  also have "\<dots> \<longleftrightarrow> ends rs r 0 \<noteq> []" unfolding e by auto
  finally have "find (\<lambda>i. ends rs (R_Cat R_Begin r) i \<noteq> []) [0..<Suc (length rs)] \<noteq> None \<longleftrightarrow> ends rs r 0 \<noteq> []" .
  then show ?thesis unfolding find_from_def by (simp only: option.case_eq_if) auto
qed

lemma ends_end: "ends rs (R_Cat r R_End) i \<noteq> [] \<longleftrightarrow> length rs \<in> set (ends rs r i)"
  by (auto simp: concat_eq_Nil_conv split: if_splits)

lemma MatchString_anchored: "MatchString (R_Cat R_Begin (R_Cat r R_End)) s \<longleftrightarrow> full_match (runes s) r"
  unfolding MatchString_def find_from_begin ends_end full_match_def ..

lemma full_match_consumes: "full_match rs r \<Longrightarrow> list_all (consumes r) rs"
  using ends_spelled [of "length rs" rs r 0] by (auto simp: full_match_def spelled_def list_all_length)

text \<open>A starred character class: any run of its runes.\<close>

lemma star_class_mem:
  assumes "i \<le> length rs" "length rs - i \<le> fuel"
  shows "j \<in> set (star_ends (ends rs (R_Class neg ranges)) greedy fuel i) \<longleftrightarrow>
    i \<le> j \<and> j \<le> length rs \<and> spelled (\<lambda>c. in_ranges c ranges \<noteq> neg) rs i j"
  using assms
proof (induction fuel arbitrary: i)
  case 0
  then show ?case by (auto simp: spelled_def)
next
  case (Suc fuel)
  let ?P = "\<lambda>c. in_ranges c ranges \<noteq> neg"
  show ?case
  proof (cases "i < length rs \<and> ?P (rs ! i)")
    case True
    then have step: "filter (\<lambda>j. i < j) (ends rs (R_Class neg ranges) i) = [Suc i]" by simp
    have "j \<in> set (star_ends (ends rs (R_Class neg ranges)) greedy (Suc fuel) i) \<longleftrightarrow>
        j = i \<or> j \<in> set (star_ends (ends rs (R_Class neg ranges)) greedy fuel (Suc i))"
      unfolding star_ends.simps(2) step Let_def by auto
    also have "\<dots> \<longleftrightarrow> j = i \<or> Suc i \<le> j \<and> j \<le> length rs \<and> spelled ?P rs (Suc i) j"
      using True Suc.prems by (subst Suc.IH) simp_all
    also have "\<dots> \<longleftrightarrow> i \<le> j \<and> j \<le> length rs \<and> spelled ?P rs i j"
      using True by (auto simp: spelled_def) (metis Suc_leI le_neq_implies_less)+
    finally show ?thesis .
  next
    case False
    then have step: "filter (\<lambda>j. i < j) (ends rs (R_Class neg ranges) i) = []" by auto
    show ?thesis
      unfolding star_ends.simps(2) step Let_def using False Suc.prems(1)
      by (auto simp: spelled_def le_less)
  qed
qed

end
