(* ===== verification/Redaction_Mask.thy ===== *)
theory Redaction_Mask
  imports Go_Regexp
begin

text \<open>
  internal/redaction/rule.go: named secret shapes, the spans they claim in a text, and the masking of
  the merged spans. A slice expression whose bounds are out of order panics in Go; \<open>slice\<close> gives
  \<^const>\<open>None\<close> for it, so that the absence of panics is a theorem about \<open>mask\<close>.
\<close>

section \<open>Rules\<close>

record Rule =
  ru_ID :: string
  ru_pattern :: regex

text \<open>The compiler of pattern sources is a parameter; a compiled-in pattern is its own tree.\<close>

datatype rule_error = Rule_NoIdentifier | Rule_NoCompile | Rule_MatchesEmpty

definition NewRule ::
  "('src \<Rightarrow> regex option) \<Rightarrow> string \<Rightarrow> 'src \<Rightarrow> rule_error + Rule" where
  "NewRule compile ruleID pattern =
     (if TrimSpace ruleID = [] then Inl Rule_NoIdentifier
      else case compile pattern of
        None \<Rightarrow> Inl Rule_NoCompile
      | Some compiled \<Rightarrow>
          if MatchString compiled [] then Inl Rule_MatchesEmpty
          else Inr \<lparr>ru_ID = ruleID, ru_pattern = compiled\<rparr>)"

definition marker :: "string \<Rightarrow> string" where
  "marker ruleID = ''[redacted:'' @ ruleID @ '']''"

section \<open>Spans\<close>

record span =
  sp_start :: nat
  sp_end :: nat
  sp_rules :: "string list"

definition span_less :: "span \<Rightarrow> span \<Rightarrow> bool" where
  "span_less a b =
     (if sp_start a = sp_start b then sp_end a > sp_end b else sp_start a < sp_start b)"

text \<open>The loop of merge, with the last merged span as an argument.\<close>

fun merge_loop :: "span \<Rightarrow> span list \<Rightarrow> span list" where
  "merge_loop prev [] = [prev]"
| "merge_loop prev (nxt # rest) =
     (if sp_start nxt > sp_end prev then prev # merge_loop nxt rest
      else merge_loop (prev\<lparr>sp_end := (if sp_end nxt > sp_end prev then sp_end nxt else sp_end prev),
                            sp_rules := sp_rules prev @ sp_rules nxt\<rparr>) rest)"

text \<open>merge is called with at least one claim.\<close>

definition merge_spans :: "span list \<Rightarrow> span list" where
  "merge_spans claimed =
     (case sort_slice span_less claimed of [] \<Rightarrow> [] | first # rest \<Rightarrow> merge_loop first rest)"

section \<open>Masking\<close>

definition slice :: "string \<Rightarrow> nat \<Rightarrow> nat \<Rightarrow> string option" where
  "slice s lo hi = (if lo \<le> hi \<and> hi \<le> length s then Some (take (hi - lo) (drop lo s)) else None)"

definition claims :: "Rule list \<Rightarrow> string \<Rightarrow> span list" where
  "claims rules value =
     concat (map (\<lambda>rule. map (\<lambda>(lo, hi). \<lparr>sp_start = lo, sp_end = hi, sp_rules = [ru_ID rule]\<rparr>)
       (FindAllStringIndex (ru_pattern rule) value)) rules)"

fun rebuild :: "string \<Rightarrow> nat \<Rightarrow> span list \<Rightarrow> string option" where
  "rebuild value cursor [] = slice value cursor (length value)"
| "rebuild value cursor (region # rest) =
     (case slice value cursor (sp_start region) of
        None \<Rightarrow> None
      | Some kept \<Rightarrow>
          (case sp_rules region of
             [] \<Rightarrow> None
           | first # _ \<Rightarrow>
               (case rebuild value (sp_end region) rest of
                  None \<Rightarrow> None
                | Some out \<Rightarrow> Some (kept @ marker first @ out))))"

definition mask :: "Rule list \<Rightarrow> string \<Rightarrow> (string \<times> nat \<times> string list) option" where
  "mask rules value =
     (if value = [] then Some (value, 0, [])
      else let claimed = claims rules value in
        if claimed = [] then Some (value, 0, [])
        else let merged = merge_spans claimed;
                 seen = concat (map sp_rules merged)
             in case rebuild value 0 merged of
                  None \<Rightarrow> None
                | Some rebuilt \<Rightarrow>
                    Some (rebuilt, length merged,
                          filter (\<lambda>id. id \<in> set seen) (map ru_ID rules)))"

section \<open>Merged spans\<close>

text \<open>
  A claim is well formed for a text of length \<open>n\<close>. \<open>separated\<close> says that regions follow each other with
  at least one byte between them, and \<open>covered\<close> that a byte is inside one of them.
\<close>

definition wf_span :: "nat \<Rightarrow> span \<Rightarrow> bool" where
  "wf_span n r \<longleftrightarrow> sp_start r \<le> sp_end r \<and> sp_end r \<le> n \<and> sp_rules r \<noteq> []"

definition separated :: "span list \<Rightarrow> bool" where
  "separated = sorted_wrt (\<lambda>a b. sp_end a < sp_start b)"

definition inside :: "nat \<Rightarrow> span \<Rightarrow> bool" where
  "inside i r \<longleftrightarrow> sp_start r \<le> i \<and> i < sp_end r"

definition covered :: "span list \<Rightarrow> nat \<Rightarrow> bool" where
  "covered rs i \<longleftrightarrow> list_ex (inside i) rs"

lemma covered_simps [simp]: "covered [] i = False" "covered (r # rs) i \<longleftrightarrow> inside i r \<or> covered rs i"
  by (simp_all add: covered_def)

interpretation span_order: slice_order span_less
  by unfold_locales (auto simp: span_less_def split: if_splits)

lemma merge_loop_start:
  "r \<in> set (merge_loop prev rest) \<Longrightarrow> sorted_wrt (\<lambda>a b. sp_start a \<le> sp_start b) (prev # rest) \<Longrightarrow>
    sp_start prev \<le> sp_start r"
proof (induction prev rest rule: merge_loop.induct)
  case (2 prev nxt rest)
  then show ?case by (fastforce split: if_splits)
qed simp

lemma merge_loop_separated:
  "sorted_wrt (\<lambda>a b. sp_start a \<le> sp_start b) (prev # rest) \<Longrightarrow> separated (merge_loop prev rest)"
proof (induction prev rest rule: merge_loop.induct)
  case (2 prev nxt rest)
  show ?case
  proof (cases "sp_end prev < sp_start nxt")
    case True
    then show ?thesis
      using 2 merge_loop_start [of _ nxt rest] by (fastforce simp: separated_def)
  next
    case False
    then show ?thesis using 2 by simp
  qed
qed (simp add: separated_def)

lemma merge_loop_wf:
  "\<forall>r \<in> set (prev # rest). wf_span n r \<Longrightarrow> \<forall>r \<in> set (merge_loop prev rest). wf_span n r"
  by (induction prev rest rule: merge_loop.induct) (auto simp: wf_span_def)

lemma merge_loop_rules:
  "concat (map sp_rules (merge_loop prev rest)) = concat (map sp_rules (prev # rest))"
  by (induction prev rest rule: merge_loop.induct) auto

lemma merge_loop_covered:
  "sorted_wrt (\<lambda>a b. sp_start a \<le> sp_start b) (prev # rest) \<Longrightarrow>
    \<forall>r \<in> set (prev # rest). sp_start r \<le> sp_end r \<Longrightarrow>
    covered (merge_loop prev rest) i = covered (prev # rest) i"
  by (induction prev rest rule: merge_loop.induct) (auto simp: inside_def)

lemma sort_spans_start: "sorted_wrt (\<lambda>a b. sp_start a \<le> sp_start b) (sort_slice span_less spans)"
  by (rule sorted_wrt_mono_rel [OF _ span_order.sorted]) (auto simp: span_less_def split: if_splits)

lemma covered_sort_slice: "covered (sort_slice lt spans) i = covered spans i"
  by (simp add: covered_def list_ex_iff)

lemma merge_spans_cases:
  obtains "spans = []" "merge_spans spans = []"
  | first rest where "sort_slice span_less spans = first # rest" "merge_spans spans = merge_loop first rest"
      "set spans = set (first # rest)"
  by (cases "sort_slice span_less spans")
    (auto simp: merge_spans_def simp flip: set_sort_slice [of span_less spans])

lemma merge_spans_separated: "separated (merge_spans spans)"
proof (cases rule: merge_spans_cases [of spans])
  case (2 first rest)
  then show ?thesis using merge_loop_separated sort_spans_start [of spans] by simp
qed (simp add: separated_def)

lemma merge_spans_wf: "\<forall>r \<in> set spans. wf_span n r \<Longrightarrow> r \<in> set (merge_spans spans) \<Longrightarrow> wf_span n r"
proof (cases rule: merge_spans_cases [of spans])
  case (2 first rest)
  assume "\<forall>r \<in> set spans. wf_span n r" "r \<in> set (merge_spans spans)"
  with 2 show ?thesis using merge_loop_wf [of first rest n] by metis
qed simp

lemma merge_spans_covered:
  assumes "\<forall>r \<in> set spans. wf_span n r"
  shows "covered (merge_spans spans) i = covered spans i"
proof (cases rule: merge_spans_cases [of spans])
  case (2 first rest)
  have "covered (merge_loop first rest) i = covered (first # rest) i"
    by (rule merge_loop_covered) (use 2 sort_spans_start [of spans] assms in \<open>auto simp: wf_span_def\<close>)
  then show ?thesis using 2 covered_sort_slice [of span_less spans i] by simp
qed simp

lemma merge_spans_rules: "set (concat (map sp_rules (merge_spans spans))) = set (concat (map sp_rules spans))"
proof (cases rule: merge_spans_cases [of spans])
  case (2 first rest)
  have "set (concat (map sp_rules (merge_loop first rest))) = set (concat (map sp_rules (first # rest)))"
    by (simp only: merge_loop_rules)
  then show ?thesis using 2 by simp
qed simp

lemma merge_spans_Nil [simp]: "merge_spans spans = [] \<longleftrightarrow> spans = []"
proof -
  have "merge_loop a b \<noteq> []" for a b by (induction a b rule: merge_loop.induct) simp_all
  then show ?thesis by (cases rule: merge_spans_cases [of spans]) auto
qed

section \<open>The masked text\<close>

text \<open>The pieces of the text between the regions, and their interleaving with the markers.\<close>

fun kept_pieces :: "string \<Rightarrow> nat \<Rightarrow> span list \<Rightarrow> string list" where
  "kept_pieces v c [] = [drop c v]"
| "kept_pieces v c (r # rs) = take (sp_start r - c) (drop c v) # kept_pieces v (sp_end r) rs"

fun weave :: "string list \<Rightarrow> string list \<Rightarrow> string" where
  "weave (k # ks) (m # ms) = k @ m @ weave ks ms"
| "weave ks ms = concat ks"

lemma length_kept_pieces [simp]: "length (kept_pieces v c rs) = Suc (length rs)"
  by (induction v c rs rule: kept_pieces.induct) simp_all

lemma rebuild_weave:
  "separated rs \<Longrightarrow> \<forall>r \<in> set rs. c \<le> sp_start r \<and> wf_span (length v) r \<Longrightarrow> c \<le> length v \<Longrightarrow>
    rebuild v c rs = Some (weave (kept_pieces v c rs) (map (\<lambda>r. marker (hd (sp_rules r))) rs))"
proof (induction v c rs rule: rebuild.induct)
  case (2 v c r rs)
  have "rebuild v (sp_end r) rs =
      Some (weave (kept_pieces v (sp_end r) rs) (map (\<lambda>r. marker (hd (sp_rules r))) rs))"
    if "slice v c (sp_start r) = Some k" "sp_rules r = x # xs" for k x xs
    by (rule 2(1) [OF that]) (use 2(2,3) in \<open>auto simp: separated_def wf_span_def less_imp_le\<close>)
  with 2(2-) show ?case
    by (auto simp: slice_def wf_span_def split: list.splits)
qed (simp add: slice_def)

lemma map_nth_upt: "lo \<le> hi \<Longrightarrow> hi \<le> length v \<Longrightarrow> map ((!) v) [lo..<hi] = take (hi - lo) (drop lo v)"
  by (rule nth_equalityI) auto

lemma upt_split3: "(c::nat) \<le> a \<Longrightarrow> a \<le> b \<Longrightarrow> b \<le> n \<Longrightarrow> [c..<n] = [c..<a] @ [a..<b] @ [b..<n]"
  using upt_add_eq_append [of c a "n - a"] upt_add_eq_append [of a b "n - b"] by simp

lemma kept_pieces_uncovered:
  "separated rs \<Longrightarrow> \<forall>r \<in> set rs. c \<le> sp_start r \<and> wf_span (length v) r \<Longrightarrow> c \<le> length v \<Longrightarrow>
    concat (kept_pieces v c rs) = map ((!) v) (filter (\<lambda>i. \<not> covered rs i) [c..<length v])"
proof (induction v c rs rule: kept_pieces.induct)
  case (1 v c)
  then show ?case using map_nth_upt [of c "length v" v] by simp
next
  case (2 v c r rs)
  let ?a = "sp_start r" and ?b = "sp_end r"
  have ab: "c \<le> ?a" "?a \<le> ?b" "?b \<le> length v" using 2(3) by (auto simp: wf_span_def)
  have later: "?b < sp_start x" if "x \<in> set rs" for x using 2(2) that by (auto simp: separated_def)
  have "\<not> covered (r # rs) i" if "i \<in> set [c..<?a]" for i
    using that ab later by (fastforce simp: covered_def list_ex_iff inside_def)
  then have one: "filter (\<lambda>i. \<not> covered (r # rs) i) [c..<?a] = [c..<?a]" by simp
  have two: "filter (\<lambda>i. \<not> covered (r # rs) i) [?a..<?b] = []" by (simp add: inside_def)
  have three: "filter (\<lambda>i. \<not> covered (r # rs) i) [?b..<length v] = filter (\<lambda>i. \<not> covered rs i) [?b..<length v]"
    by (rule filter_cong) (auto simp: inside_def)
  have "concat (kept_pieces v ?b rs) = map ((!) v) (filter (\<lambda>i. \<not> covered rs i) [?b..<length v])"
    by (rule 2(1)) (use 2(2,3) later ab in \<open>auto simp: separated_def less_imp_le\<close>)
  then show ?case
    unfolding upt_split3 [OF ab] filter_append one two three
    using ab by (simp add: map_nth_upt)
qed

lemma claims_wf: "r \<in> set (claims rules v) \<Longrightarrow> wf_span (length v) r"
  using FindAllStringIndex_bounds by (fastforce simp: claims_def wf_span_def)

text \<open>A byte is claimed when a match of some rule contains it.\<close>

definition claimed_at :: "Rule list \<Rightarrow> string \<Rightarrow> nat \<Rightarrow> bool" where
  "claimed_at rules v i \<longleftrightarrow>
     list_ex (\<lambda>rule. list_ex (\<lambda>(lo, hi). lo \<le> i \<and> i < hi) (FindAllStringIndex (ru_pattern rule) v)) rules"

definition unclaimed_text :: "Rule list \<Rightarrow> string \<Rightarrow> string" where
  "unclaimed_text rules v = map ((!) v) (filter (\<lambda>i. \<not> claimed_at rules v i) [0..<length v])"

lemma covered_claims: "covered (claims rules v) i = claimed_at rules v i"
  unfolding covered_def claims_def claimed_at_def list_ex_iff
  by (auto simp: inside_def case_prod_beta)

lemma rules_claims:
  "set (concat (map sp_rules (claims rules v))) =
    ru_ID ` {rule \<in> set rules. FindAllStringIndex (ru_pattern rule) v \<noteq> []}"
proof -
  have "set (concat (map sp_rules (map (\<lambda>(lo, hi). \<lparr>sp_start = lo, sp_end = hi, sp_rules = [x]\<rparr>) ms))) =
      (if ms = [] then {} else {x})" for x :: string and ms :: "(nat \<times> nat) list"
    by (induction ms) auto
  then show ?thesis by (induction rules) (auto simp: claims_def)
qed

lemma mask_empty: "mask rules [] = Some ([], 0, [])"
  by (simp add: mask_def)

lemma mask_eq:
  assumes "v \<noteq> []"
  shows "mask rules v = (let merged = merge_spans (claims rules v) in
     Some (weave (kept_pieces v 0 merged) (map (\<lambda>r. marker (hd (sp_rules r))) merged), length merged,
       filter (\<lambda>i. i \<in> set (concat (map sp_rules (claims rules v)))) (map ru_ID rules)))"
proof -
  let ?m = "merge_spans (claims rules v)"
  have wf: "\<forall>r \<in> set ?m. 0 \<le> sp_start r \<and> wf_span (length v) r"
    using merge_spans_wf [of "claims rules v" "length v"] claims_wf by blast
  have rb: "rebuild v 0 ?m = Some (weave (kept_pieces v 0 ?m) (map (\<lambda>r. marker (hd (sp_rules r))) ?m))"
    by (rule rebuild_weave [OF merge_spans_separated wf]) simp
  show ?thesis
  proof (cases "claims rules v = []")
    case True
    then show ?thesis by (simp add: mask_def merge_spans_def)
  next
    case False
    then show ?thesis
      unfolding mask_def Let_def rb using assms by (simp add: merge_spans_rules [simplified])
  qed
qed

end
