(* ===== verification/Go_Strconv.thy ===== *)
theory Go_Strconv
  imports Go_Strings
begin

text \<open>
  What the program uses of packages strconv and time for numbers in text: decimal rendering, decimal
  parsing with the range checks of ParseUint and ParseInt, and time.ParseDuration.
\<close>

section \<open>Decimal rendering\<close>

definition digit_char :: "nat \<Rightarrow> char" where
  "digit_char d = char_of (48 + d)"

function digits :: "nat \<Rightarrow> string" where
  "digits n = (if n < 10 then [digit_char n] else digits (n div 10) @ [digit_char (n mod 10)])"
  by auto
termination by (relation "measure id") auto

declare digits.simps [simp del]

text \<open>strconv.Itoa, FormatInt and FormatUint with base 10, and the verb d of fmt.\<close>

definition Itoa :: "int \<Rightarrow> string" where
  "Itoa i = (if i < 0 then CHR ''-'' # digits (nat (- i)) else digits (nat i))"

section \<open>Decimal parsing\<close>

definition is_digit :: "char \<Rightarrow> bool" where
  "is_digit c \<longleftrightarrow> 48 \<le> byte c \<and> byte c \<le> 57"

definition digit_val :: "char \<Rightarrow> int" where
  "digit_val c = byte c - 48"

text \<open>
  ParseUint with base 10 and a bit size: every byte a digit, and the value representable.
  The underscore form is only for base 0.
\<close>

definition decimal :: "string \<Rightarrow> int" where
  "decimal s = foldl (\<lambda>n c. 10 * n + digit_val c) 0 s"

definition ParseUint :: "string \<Rightarrow> nat \<Rightarrow> int option" where
  "ParseUint s bits =
     (if s = [] \<or> \<not> list_all is_digit s then None
      else let n = decimal s in if n < 2 ^ bits then Some n else None)"

definition ParseInt :: "string \<Rightarrow> nat \<Rightarrow> int option" where
  "ParseInt s bits =
     (let neg = (s \<noteq> [] \<and> hd s = CHR ''-'');
          body = (if s \<noteq> [] \<and> (hd s = CHR ''-'' \<or> hd s = CHR ''+'') then tl s else s)
      in if body = [] \<or> \<not> list_all is_digit body then None
         else let n = decimal body in
           if neg then (if n \<le> 2 ^ (bits - 1) then Some (- n) else None)
           else if n < 2 ^ (bits - 1) then Some n else None)"

definition Atoi :: "string \<Rightarrow> int option" where
  "Atoi s = ParseInt s 64"

section \<open>Durations\<close>

definition Nanosecond :: int where "Nanosecond = 1"
definition Microsecond :: int where "Microsecond = 1000"
definition Millisecond :: int where "Millisecond = 1000000"
definition Second :: int where "Second = 1000000000"
definition Minute :: int where "Minute = 60000000000"
definition Hour :: int where "Hour = 3600000000000"

lemmas duration_units = Nanosecond_def Microsecond_def Millisecond_def Second_def Minute_def Hour_def

definition unitMap :: "(string \<times> int) list" where
  "unitMap = [(''ns'', Nanosecond), (''us'', Microsecond),
     ([char_of (0xC2 :: nat), char_of (0xB5 :: nat), CHR ''s''], Microsecond),
     ([char_of (0xCE :: nat), char_of (0xBC :: nat), CHR ''s''], Microsecond),
     (''ms'', Millisecond), (''s'', Second), (''m'', Minute), (''h'', Hour)]"

definition two63 :: int where "two63 = 9223372036854775808"

text \<open>time.leadingInt: the leading digits, an error when they exceed 1<<63.\<close>

fun leadingInt :: "int \<Rightarrow> string \<Rightarrow> (int \<times> string) option" where
  "leadingInt x [] = Some (x, [])"
| "leadingInt x (c # s) =
     (if \<not> is_digit c then Some (x, c # s)
      else if x > two63 div 10 then None
      else let y = x * 10 + digit_val c in if y > two63 then None else leadingInt y s)"

text \<open>time.leadingFraction: digits that no longer fit are dropped.\<close>

fun leadingFraction :: "int \<Rightarrow> int \<Rightarrow> bool \<Rightarrow> string \<Rightarrow> int \<times> int \<times> string" where
  "leadingFraction x scale overflow [] = (x, scale, [])"
| "leadingFraction x scale overflow (c # s) =
     (if \<not> is_digit c then (x, scale, c # s)
      else if overflow then leadingFraction x scale overflow s
      else if x > (two63 - 1) div 10 then leadingFraction x scale True s
      else let y = x * 10 + digit_val c in
        if y > two63 then leadingFraction x scale True s
        else leadingFraction y (scale * 10) False s)"

text \<open>
  One number with its unit. \<open>fmul f unit scale\<close> is the float64 product of the fraction, truncated.
\<close>

definition duration_term ::
  "(int \<Rightarrow> int \<Rightarrow> int \<Rightarrow> int) \<Rightarrow> string \<Rightarrow> (int \<times> string) option" where
  "duration_term fmul s =
     (if s = [] \<or> \<not> (hd s = CHR ''.'' \<or> is_digit (hd s)) then None
      else case leadingInt 0 s of
        None \<Rightarrow> None
      | Some (v, s1) \<Rightarrow>
          let pre = (length s \<noteq> length s1);
              dot = (s1 \<noteq> [] \<and> hd s1 = CHR ''.'');
              (f, scale, s2) = (if dot then leadingFraction 0 1 False (tl s1) else (0, 1, s1));
              post = (dot \<and> length (tl s1) \<noteq> length s2);
              u = takeWhile (\<lambda>c. \<not> (c = CHR ''.'' \<or> is_digit c)) s2
          in if \<not> pre \<and> \<not> post then None
             else if u = [] then None
             else case map_of unitMap u of
               None \<Rightarrow> None
             | Some unit \<Rightarrow>
                 if v > two63 div unit then None
                 else let w = v * unit; w' = (if f > 0 then w + fmul f unit scale else w)
                      in if f > 0 \<and> w' > two63 then None else Some (w', drop (length u) s2))"

text \<open>Every number is followed by a unit of at least one byte, so the length bounds the rounds.\<close>

fun duration_sum :: "(int \<Rightarrow> int \<Rightarrow> int \<Rightarrow> int) \<Rightarrow> nat \<Rightarrow> int \<Rightarrow> string \<Rightarrow> int option" where
  "duration_sum fmul 0 d s = (if s = [] then Some d else None)"
| "duration_sum fmul (Suc fuel) d s =
     (if s = [] then Some d
      else case duration_term fmul s of
        None \<Rightarrow> None
      | Some (v, rest) \<Rightarrow> if d + v > two63 then None else duration_sum fmul fuel (d + v) rest)"

definition ParseDuration :: "(int \<Rightarrow> int \<Rightarrow> int \<Rightarrow> int) \<Rightarrow> string \<Rightarrow> int option" where
  "ParseDuration fmul s =
     (let neg = (s \<noteq> [] \<and> hd s = CHR ''-'');
          body = (if s \<noteq> [] \<and> (hd s = CHR ''-'' \<or> hd s = CHR ''+'') then tl s else s)
      in if body = ''0'' then Some 0
         else if body = [] then None
         else case duration_sum fmul (length body) 0 body of
           None \<Rightarrow> None
         | Some d \<Rightarrow> if neg then Some (- d) else if d > two63 - 1 then None else Some d)"

text \<open>The product with exact arithmetic, an instance for evaluation.\<close>

definition exact_fmul :: "int \<Rightarrow> int \<Rightarrow> int \<Rightarrow> int" where
  "exact_fmul f unit scale = f * unit div scale"

end
