(* ===== verification/Redaction_Policy.thy ===== *)
theory Redaction_Policy
  imports Redaction_Mask Go_Strconv
begin

text \<open>
  internal/redaction: the declaration table and the field paths derived from it (declared.go, paths.go),
  the built-in rules (builtin.go), the effective policy (policy.go), the parser of a customer policy
  (parse.go) and the dry run (dryrun.go).

  A fault is the faultf call that raised it, with its arguments. The YAML decoder and the pattern
  compiler are parameters: a decoded section, an end of input or an error message, and whether a second
  document follows; the compiled form of a customer pattern.
\<close>

section \<open>Faults\<close>

datatype Fault =
  Fault_Empty string
| Fault_DoesNotParse string string
| Fault_ManyDocuments string
| Fault_Version string int
| Fault_PatternWithoutID string
| Fault_ReservedPrefix string string
| Fault_DeclaredTwice string string
| Fault_PatternDoesNotCompile string string
| Fault_UnknownField string string "string list"
| Fault_BudgetNotPositive string
| Fault_BudgetRaised string int
| Fault_InputNotPositive string
| Fault_InputRaised string int
| Fault_MapField string
| Fault_Unclassified string string
| Fault_TooMuchText int
| Fault_SweepBudget int
| Fault_Unreadable string

section \<open>The declaration table\<close>

datatype Classification = Structural | FreeText

definition pkg :: "string \<Rightarrow> string" where
  "pkg name = ''opencluster.relay.v1.'' @ name"

definition declared :: "(string, (string, Classification) gomap) gomap" where
  "declared =
    [(pkg ''RedactedField'', [(''field_name'', Structural), (''rule_ids'', Structural)]),
     (pkg ''KubernetesWorkloadSummary'',
       [(''kind'', Structural), (''name'', Structural), (''namespace'', Structural),
        (''uid'', Structural), (''container_images'', Structural), (''selector_summary'', Structural)]),
     (pkg ''KubernetesContainerResources'',
       [(''container'', Structural), (''cpu_request'', Structural), (''cpu_limit'', Structural),
        (''memory_request'', Structural), (''memory_limit'', Structural)]),
     (pkg ''KubernetesPodRuntime'',
       [(''name'', Structural), (''phase'', Structural), (''node_name'', Structural),
        (''unscheduled_reason'', Structural)]),
     (pkg ''KubernetesContainerRuntime'', [(''name'', Structural), (''image'', Structural)]),
     (pkg ''KubernetesContainerState'', [(''waiting_reason'', Structural)]),
     (pkg ''KubernetesContainerTermination'', [(''reason'', Structural)]),
     (pkg ''KubernetesInvolvedObject'',
       [(''kind'', Structural), (''name'', Structural), (''uid'', Structural)]),
     (pkg ''KubernetesEvent'',
       [(''type'', Structural), (''reason'', Structural), (''source_component'', Structural),
        (''message'', FreeText)]),
     (pkg ''KubernetesLogLine'', [(''content'', FreeText)])]"

definition classify :: "string \<Rightarrow> string \<Rightarrow> Classification option" where
  "classify message field =
     (case gomap_get declared message of
        None \<Rightarrow> None
      | Some fs \<Rightarrow> gomap_get fs field)"

text \<open>
  The message descriptors reachable from CapabilityResult, as the generated code describes them: the
  fields in declaration order, each a string, a message, a map or another scalar.
\<close>

datatype field_kind = K_String | K_Message string | K_Map | K_Scalar

type_synonym schema = "(string, (string \<times> field_kind) list) gomap"

definition ts :: field_kind where "ts = K_Message ''google.protobuf.Timestamp''"

definition contract :: schema where
  "contract =
    [(pkg ''CapabilityResult'',
       [(''redaction'', K_Message (pkg ''RedactionReport'')),
        (''kubernetes_workload_runtime_v1'', K_Message (pkg ''KubernetesWorkloadRuntimeResultV1'')),
        (''kubernetes_namespace_events_v1'', K_Message (pkg ''KubernetesNamespaceEventsResultV1'')),
        (''kubernetes_container_logs_v1'', K_Message (pkg ''KubernetesContainerLogsResultV1''))]),
     (pkg ''RedactionReport'', [(''fields'', K_Message (pkg ''RedactedField''))]),
     (pkg ''RedactedField'',
       [(''field_name'', K_String), (''masked_occurrence_count'', K_Scalar), (''rule_ids'', K_String)]),
     (pkg ''KubernetesWorkloadRuntimeResultV1'',
       [(''outcome'', K_Scalar), (''workload'', K_Message (pkg ''KubernetesWorkloadSummary'')),
        (''pods'', K_Message (pkg ''KubernetesPodRuntime'')), (''returned_pod_count'', K_Scalar),
        (''complete'', K_Scalar), (''read_at'', ts), (''applied_max_pods'', K_Scalar)]),
     (pkg ''KubernetesWorkloadSummary'',
       [(''kind'', K_String), (''name'', K_String), (''namespace'', K_String), (''uid'', K_String),
        (''desired_replicas'', K_Scalar), (''ready_replicas'', K_Scalar), (''updated_replicas'', K_Scalar),
        (''available_replicas'', K_Scalar), (''generation'', K_Scalar), (''observed_generation'', K_Scalar),
        (''created_at'', ts), (''container_images'', K_String),
        (''container_resources'', K_Message (pkg ''KubernetesContainerResources'')),
        (''selector_summary'', K_String)]),
     (pkg ''KubernetesContainerResources'',
       [(''container'', K_String), (''cpu_request'', K_String), (''cpu_limit'', K_String),
        (''memory_request'', K_String), (''memory_limit'', K_String)]),
     (pkg ''KubernetesPodRuntime'',
       [(''name'', K_String), (''phase'', K_String), (''node_name'', K_String), (''started_at'', ts),
        (''ready'', K_Scalar), (''unscheduled_reason'', K_String),
        (''containers'', K_Message (pkg ''KubernetesContainerRuntime''))]),
     (pkg ''KubernetesContainerRuntime'',
       [(''name'', K_String), (''image'', K_String), (''ready'', K_Scalar), (''restart_count'', K_Scalar),
        (''state'', K_Message (pkg ''KubernetesContainerState'')),
        (''last_termination'', K_Message (pkg ''KubernetesContainerTermination''))]),
     (pkg ''KubernetesContainerState'',
       [(''kind'', K_Scalar), (''waiting_reason'', K_String), (''running_since'', ts),
        (''termination'', K_Message (pkg ''KubernetesContainerTermination''))]),
     (pkg ''KubernetesContainerTermination'',
       [(''reason'', K_String), (''exit_code'', K_Scalar), (''finished_at'', ts)]),
     (pkg ''KubernetesNamespaceEventsResultV1'',
       [(''outcome'', K_Scalar), (''events'', K_Message (pkg ''KubernetesEvent'')),
        (''returned_event_count'', K_Scalar), (''complete'', K_Scalar),
        (''window_predates_retention'', K_Scalar),
        (''applied_retention_horizon'', K_Message ''google.protobuf.Duration''),
        (''read_at'', ts), (''applied_max_events'', K_Scalar)]),
     (pkg ''KubernetesEvent'',
       [(''type'', K_String), (''reason'', K_String), (''message'', K_String),
        (''involved_object'', K_Message (pkg ''KubernetesInvolvedObject'')),
        (''source_component'', K_String), (''count'', K_Scalar), (''first_seen_at'', ts),
        (''last_seen_at'', ts)]),
     (pkg ''KubernetesInvolvedObject'',
       [(''kind'', K_String), (''name'', K_String), (''uid'', K_String)]),
     (pkg ''KubernetesContainerLogsResultV1'',
       [(''outcome'', K_Scalar), (''lines'', K_Message (pkg ''KubernetesLogLine'')),
        (''returned_line_count'', K_Scalar), (''returned_byte_count'', K_Scalar), (''complete'', K_Scalar),
        (''truncated_by_line_bound'', K_Scalar), (''truncated_by_byte_bound'', K_Scalar),
        (''withheld_byte_count'', K_Scalar), (''read_at'', ts), (''applied_max_lines'', K_Scalar),
        (''applied_max_bytes'', K_Scalar)]),
     (pkg ''KubernetesLogLine'', [(''at'', ts), (''content'', K_String)]),
     (''google.protobuf.Timestamp'', [(''seconds'', K_Scalar), (''nanos'', K_Scalar)]),
     (''google.protobuf.Duration'', [(''seconds'', K_Scalar), (''nanos'', K_Scalar)])]"

definition message_fields :: "schema \<Rightarrow> string \<Rightarrow> (string \<times> field_kind) list" where
  "message_fields sch name = (case gomap_get sch name of None \<Rightarrow> [] | Some fs \<Rightarrow> fs)"

section \<open>Field paths\<close>

record FieldPath =
  fp_Path :: string
  fp_Message :: string
  fp_Field :: string
  fp_Classification :: "Classification option"
  fp_Declared :: bool

definition join_path :: "string \<Rightarrow> string \<Rightarrow> string" where
  "join_path dotted field = (if dotted \<noteq> [] then dotted @ ''.'' @ field else field)"

lemma card_unvisited_less:
  assumes "m \<in> K" "finite K" "m \<notin> V"
  shows "card (K - insert m V) < card (K - V)"
  using assms by (intro psubset_card_mono) auto

text \<open>
  walkStrings: the messages being visited guard against cycles, so each nesting level takes a message of
  the schema out of reach.
\<close>

function walkStrings :: "schema \<Rightarrow> string \<Rightarrow> string \<Rightarrow> string list \<Rightarrow> FieldPath list"
  and walkFields :: "schema \<Rightarrow> string \<Rightarrow> string \<Rightarrow> string list \<Rightarrow> (string \<times> field_kind) list \<Rightarrow> FieldPath list"
where
  "walkStrings sch message dotted visiting =
     (if message \<in> set visiting then []
      else walkFields sch message dotted (message # visiting) (message_fields sch message))"
| "walkFields sch message dotted visiting [] = []"
| "walkFields sch message dotted visiting ((name, kind) # fs) =
     (case kind of
        K_String \<Rightarrow>
          [\<lparr>fp_Path = join_path dotted name, fp_Message = message, fp_Field = name,
            fp_Classification = classify message name, fp_Declared = (classify message name \<noteq> None)\<rparr>]
      | K_Message m \<Rightarrow> walkStrings sch m (join_path dotted name) visiting
      | K_Map \<Rightarrow> []
      | K_Scalar \<Rightarrow> []) @ walkFields sch message dotted visiting fs"
  by pat_completeness auto

termination
proof (relation "inv_image (less_than <*lex*> less_than <*lex*> less_than)
    (\<lambda>x. case x of
       Inl (sch, message, dotted, visiting) \<Rightarrow> (card (fst ` set sch - set visiting), 0, 1)
     | Inr (sch, message, dotted, visiting, fs) \<Rightarrow>
         (card (fst ` set sch - set visiting), length fs, 0::nat))", goal_cases)
  case (2 sch message dotted visiting)
  show ?case
  proof (cases "message \<in> fst ` set sch")
    case True
    then show ?thesis using 2 card_unvisited_less [of message "fst ` set sch" "set visiting"] by simp
  next
    case False
    then have "map_of sch message = None" by (simp add: map_of_eq_None_iff)
    then have "message_fields sch message = []" by (simp add: message_fields_def gomap_get_def)
    with False show ?thesis by simp
  qed
qed auto

declare walkStrings.simps [simp del]

definition path_less :: "FieldPath \<Rightarrow> FieldPath \<Rightarrow> bool" where
  "path_less a b \<longleftrightarrow> fp_Path a < fp_Path b"

definition FieldPaths :: "FieldPath list" where
  "FieldPaths = sort_slice path_less (walkStrings contract (pkg ''CapabilityResult'') [] [])"

definition declaredPaths :: "(string, bool) gomap" where
  "declaredPaths = foldl (\<lambda>paths field. if fp_Declared field then gomap_set (fp_Path field) True paths else paths)
     [] FieldPaths"

section \<open>Which capabilities carry free text\<close>

definition capabilityResults :: "(string \<times> uint32 \<times> string) list" where
  "capabilityResults =
     [(''kubernetes.workload.runtime'', 1, ''kubernetes_workload_runtime_v1''),
      (''kubernetes.namespace.events'', 1, ''kubernetes_namespace_events_v1''),
      (''kubernetes.container.logs'', 1, ''kubernetes_container_logs_v1'')]"

text \<open>
  messageCarriesFreeText with the visited set threaded through; the fuel bounds the nesting depth and
  running out of it is \<^const>\<open>None\<close>.
\<close>

fun messageCarriesFreeText ::
  "schema \<Rightarrow> nat \<Rightarrow> string \<Rightarrow> string list \<Rightarrow> (bool \<times> string list) option"
  and fieldsCarryFreeText ::
  "schema \<Rightarrow> nat \<Rightarrow> string \<Rightarrow> string list \<Rightarrow> (string \<times> field_kind) list \<Rightarrow> (bool \<times> string list) option"
where
  "messageCarriesFreeText sch 0 message visited = None"
| "messageCarriesFreeText sch (Suc fuel) message visited =
     (if message \<in> set visited then Some (False, visited)
      else fieldsCarryFreeText sch fuel message (message # visited) (message_fields sch message))"
| "fieldsCarryFreeText sch fuel message visited [] = Some (False, visited)"
| "fieldsCarryFreeText sch fuel message visited ((name, kind) # fs) =
     (case kind of
        K_String \<Rightarrow>
          if classify message name = None \<or> classify message name = Some FreeText then Some (True, visited)
          else fieldsCarryFreeText sch fuel message visited fs
      | K_Message m \<Rightarrow>
          (case messageCarriesFreeText sch fuel m visited of
             None \<Rightarrow> None
           | Some (True, visited') \<Rightarrow> Some (True, visited')
           | Some (False, visited') \<Rightarrow> fieldsCarryFreeText sch fuel message visited' fs)
      | K_Map \<Rightarrow> fieldsCarryFreeText sch fuel message visited fs
      | K_Scalar \<Rightarrow> fieldsCarryFreeText sch fuel message visited fs)"

fun capability_field :: "(string \<times> uint32 \<times> string) list \<Rightarrow> string \<Rightarrow> uint32 \<Rightarrow> string option" where
  "capability_field [] capID version = None"
| "capability_field ((i, v, field) # rest) capID version =
     (if i \<noteq> capID \<or> v \<noteq> version then capability_field rest capID version else Some field)"

definition carriesFreeText :: "string \<Rightarrow> uint32 \<Rightarrow> bool" where
  "carriesFreeText capID version =
     (case capability_field capabilityResults capID version of
        None \<Rightarrow> True
      | Some field \<Rightarrow>
          (case map_of (message_fields contract (pkg ''CapabilityResult'')) field of
             Some (K_Message m) \<Rightarrow>
               (case messageCarriesFreeText contract (Suc (length contract)) m [] of
                  None \<Rightarrow> True
                | Some (free, _) \<Rightarrow> free)
           | _ \<Rightarrow> True))"

text \<open>The fuel is enough: the walk of every result message ends before it runs out.\<close>

lemma carriesFreeText_fuel:
  "list_all (\<lambda>m. messageCarriesFreeText contract (Suc (length contract)) m [] \<noteq> None) (map fst contract)"
  by code_simp

section \<open>The built-in rules\<close>

definition builtinPrefix :: string where
  "builtinPrefix = ''builtin.''"

text \<open>
  The character classes of the patterns. Under the flag i a class is closed under case folding, which
  adds the long s and the Kelvin sign to the ASCII letters; \<open>white\<close> is \<open>\s\<close>.
\<close>

definition upper_digit :: "(int \<times> int) list" where
  "upper_digit = [(65, 90), (48, 57)]"

definition alnum :: "(int \<times> int) list" where
  "alnum = [(65, 90), (97, 122), (48, 57)]"

definition alnum_fold :: "(int \<times> int) list" where
  "alnum_fold = alnum @ [(383, 383), (8490, 8490)]"

definition one_of :: "string \<Rightarrow> (int \<times> int) list" where
  "one_of s = map (\<lambda>c. (byte c, byte c)) s"

definition white_ranges :: "(int \<times> int) list" where
  "white_ranges = [(9, 10), (12, 13), (32, 32)]"

definition white_star :: regex where
  "white_star = R_Star True (R_Class False white_ranges)"

definition quote_opt :: regex where
  "quote_opt = R_Quest (R_Class False [(34, 34), (39, 39)])"

definition colon_eq :: regex where
  "colon_eq = R_Chars '':=''"

definition token_class :: regex where
  "token_class = R_Class False (alnum_fold @ one_of ''-._~+/'')"

definition base64url :: regex where
  "base64url = R_Class False (alnum @ one_of ''_-'')"

definition R_Exactly :: "nat \<Rightarrow> regex \<Rightarrow> regex" where
  "R_Exactly n r = R_Seq (replicate n r)"

definition sep_opt :: regex where
  "sep_opt = R_Quest (R_Chars ''_-'')"

definition private_key_block :: regex where
  "private_key_block = R_Seq
     [R_Lit ''-----BEGIN '', R_Star True (R_Class False (upper_digit @ one_of '' '')),
      R_Lit ''PRIVATE KEY-----'', R_Star False (R_Class True []), R_Lit ''-----END '',
      R_Star True (R_Class False (upper_digit @ one_of '' '')), R_Lit ''PRIVATE KEY-----'']"

definition authorization_header :: regex where
  "authorization_header = R_Seq
     [R_WordBoundary, R_LitFold ''authorization'', quote_opt, white_star, colon_eq, white_star, quote_opt,
      R_Quest (R_Any_of [R_LitFold ''bearer'', R_LitFold ''basic'', R_LitFold ''digest'', R_LitFold ''token'']),
      white_star, R_Plus token_class, R_UpTo 2 (R_Lit ''='')]"

definition bearer_token :: regex where
  "bearer_token = R_Seq
     [R_WordBoundary, R_LitFold ''bearer'', R_Plus (R_Class False white_ranges),
      R_AtLeast 16 token_class, R_UpTo 2 (R_Lit ''='')]"

definition json_web_token :: regex where
  "json_web_token = R_Seq
     [R_WordBoundary, R_Lit ''eyJ'', R_AtLeast 8 base64url, R_Lit ''.'', R_AtLeast 8 base64url,
      R_Lit ''.'', R_AtLeast 8 base64url]"

definition cloud_access_key_id :: regex where
  "cloud_access_key_id = R_Seq
     [R_WordBoundary,
      R_Any_of (map R_Lit [''AKIA'', ''ASIA'', ''AGPA'', ''AIDA'', ''AROA'', ''AIPA'', ''ANPA'', ''ANVA'', ''ABIA'']),
      R_Exactly 16 (R_Class False upper_digit), R_WordBoundary]"

definition cloud_secret_access_key :: regex where
  "cloud_secret_access_key = R_Seq
     [R_WordBoundary, R_LitFold ''aws'', R_Quest (R_Lit ''_''), R_LitFold ''secret'', R_Quest (R_Lit ''_''),
      R_LitFold ''access'', R_Quest (R_Lit ''_''), R_LitFold ''key'', quote_opt, white_star, colon_eq,
      white_star, quote_opt, R_AtLeast 20 (R_Class False (alnum_fold @ one_of ''/+=''))]"

definition credentialed_connection_string :: regex where
  "credentialed_connection_string = R_Seq
     [R_WordBoundary, R_Class False ([(65, 90), (97, 122)] @ [(383, 383), (8490, 8490)]),
      R_Star True (R_Class False (alnum_fold @ one_of ''+.-'')), R_Lit ''://'',
      R_Plus (R_Class True (white_ranges @ one_of '':/@'')), R_Lit '':'',
      R_Plus (R_Class True (white_ranges @ one_of ''/@'')), R_Lit ''@'']"

definition credential_assignment :: regex where
  "credential_assignment = R_Seq
     [R_WordBoundary,
      R_Any_of [R_LitFold ''password'', R_LitFold ''passwd'', R_LitFold ''pwd'', R_LitFold ''secret'',
        R_Seq [R_LitFold ''api'', sep_opt, R_LitFold ''key''], R_LitFold ''apikey'',
        R_Seq [R_LitFold ''access'', sep_opt, R_LitFold ''token''],
        R_Seq [R_LitFold ''auth'', sep_opt, R_LitFold ''token''],
        R_Seq [R_LitFold ''client'', sep_opt, R_LitFold ''secret''],
        R_Seq [R_LitFold ''private'', sep_opt, R_LitFold ''key''], R_LitFold ''token''],
      quote_opt, white_star, colon_eq, white_star, quote_opt,
      R_AtLeast 4 (R_Class True (white_ranges @ [(34, 34), (39, 39), (44, 44), (59, 59)]))]"

definition builtinRules :: "(string \<times> regex) list" where
  "builtinRules =
     [(builtinPrefix @ ''private_key_block'', private_key_block),
      (builtinPrefix @ ''authorization_header'', authorization_header),
      (builtinPrefix @ ''bearer_token'', bearer_token),
      (builtinPrefix @ ''json_web_token'', json_web_token),
      (builtinPrefix @ ''cloud_access_key_id'', cloud_access_key_id),
      (builtinPrefix @ ''cloud_secret_access_key'', cloud_secret_access_key),
      (builtinPrefix @ ''credentialed_connection_string'', credentialed_connection_string),
      (builtinPrefix @ ''credential_assignment'', credential_assignment)]"

text \<open>BuiltIn panics, \<^const>\<open>None\<close>, when a rule is refused.\<close>

fun build_rules :: "(string \<times> regex) list \<Rightarrow> Rule list option" where
  "build_rules [] = Some []"
| "build_rules ((ruleID, pattern) # rest) =
     (case NewRule Some ruleID pattern of
        Inl e \<Rightarrow> None
      | Inr rule \<Rightarrow> map_option ((#) rule) (build_rules rest))"

definition BuiltIn :: "Rule list option" where
  "BuiltIn = build_rules builtinRules"

section \<open>The effective policy\<close>

definition DefaultBudget :: int where "DefaultBudget = 2 * Second"
definition DefaultMaxInputBytes :: int where "DefaultMaxInputBytes = 4194304"

record Policy =
  po_rules :: "Rule list"
  po_alwaysMasked :: "(string, bool) gomap"
  po_budget :: int
  po_maxInput :: int
  po_source :: string

definition Default :: Policy where
  "Default = \<lparr>po_rules = the BuiltIn, po_alwaysMasked = [], po_budget = DefaultBudget,
     po_maxInput = DefaultMaxInputBytes, po_source = ''built-in defaults''\<rparr>"

definition Rules :: "Policy \<Rightarrow> string list" where
  "Rules p = map ru_ID (po_rules p)"

definition AlwaysMasked :: "Policy \<Rightarrow> string list" where
  "AlwaysMasked p = sorted_map_keys (po_alwaysMasked p)"

definition always_masked :: "Policy \<Rightarrow> string \<Rightarrow> bool" where
  "always_masked p path \<longleftrightarrow> gomap_get (po_alwaysMasked p) path = Some True"

section \<open>Parsing a customer policy\<close>

definition maskedFieldRule :: string where "maskedFieldRule = ''policy.masked_field''"
definition policyVersion :: int where "policyVersion = 1"

record patternEntry =
  pe_ID :: string
  pe_Pattern :: string

record limitsDocument =
  ld_SweepBudget :: string
  ld_MaxInputBytes :: int

record document =
  do_Version :: int
  do_Patterns :: "patternEntry list"
  do_MaskedFields :: "string list"
  do_Limits :: "limitsDocument option"

text \<open>
  The strict YAML decoder on the file's bytes: the first document, the end of input, or an error
  message; and whether a second document follows. With it, the pattern compiler and the float64
  product ParseDuration needs.
\<close>

datatype yaml = Yaml_EOF | Yaml_Error string | Yaml_Document document

record parsers =
  ps_decode :: "string \<Rightarrow> yaml"
  ps_more :: "string \<Rightarrow> bool"
  ps_compile :: "string \<Rightarrow> regex option"
  ps_fmul :: "int \<Rightarrow> int \<Rightarrow> int \<Rightarrow> int"

definition firstLine :: "string \<Rightarrow> string" where
  "firstLine message =
     (case IndexByte message newline of
        Some index \<Rightarrow> TrimSpace (take index message)
      | None \<Rightarrow> TrimSpace message)"

fun addPatterns_loop ::
  "(string \<Rightarrow> regex option) \<Rightarrow> string \<Rightarrow> patternEntry list \<Rightarrow> (string, bool) gomap \<Rightarrow> Policy \<Rightarrow> Fault + Policy" where
  "addPatterns_loop compile source [] seen p = Inr p"
| "addPatterns_loop compile source (entry # entries) seen p =
     (let ruleID = TrimSpace (pe_ID entry) in
      if ruleID = [] then Inl (Fault_PatternWithoutID source)
      else if HasPrefix ruleID builtinPrefix then Inl (Fault_ReservedPrefix source ruleID)
      else if gomap_get seen ruleID = Some True then Inl (Fault_DeclaredTwice source ruleID)
      else case NewRule compile ruleID (pe_Pattern entry) of
        Inl e \<Rightarrow> Inl (Fault_PatternDoesNotCompile source ruleID)
      | Inr rule \<Rightarrow>
          addPatterns_loop compile source entries (gomap_set ruleID True seen)
            (p\<lparr>po_rules := po_rules p @ [rule]\<rparr>))"

definition addPatterns ::
  "(string \<Rightarrow> regex option) \<Rightarrow> patternEntry list \<Rightarrow> string \<Rightarrow> Policy \<Rightarrow> Fault + Policy" where
  "addPatterns compile entries source p =
     addPatterns_loop compile source entries
       (foldl (\<lambda>seen rule. gomap_set (ru_ID rule) True seen) [] (po_rules p)) p"

fun addMaskedFields_loop ::
  "(string, bool) gomap \<Rightarrow> string \<Rightarrow> string list \<Rightarrow> Policy \<Rightarrow> Fault + Policy" where
  "addMaskedFields_loop known source [] p = Inr p"
| "addMaskedFields_loop known source (field # rest) p =
     (let name = TrimSpace field in
      if gomap_get known name \<noteq> Some True
      then Inl (Fault_UnknownField source name (sorted_map_keys known))
      else addMaskedFields_loop known source rest
             (p\<lparr>po_alwaysMasked := gomap_set name True (po_alwaysMasked p)\<rparr>))"

definition addMaskedFields :: "string list \<Rightarrow> string \<Rightarrow> Policy \<Rightarrow> Fault + Policy" where
  "addMaskedFields names source p = addMaskedFields_loop declaredPaths source names p"

definition lowerBudget ::
  "(int \<Rightarrow> int \<Rightarrow> int \<Rightarrow> int) \<Rightarrow> limitsDocument \<Rightarrow> string \<Rightarrow> Policy \<Rightarrow> Fault + Policy" where
  "lowerBudget fmul limits source p =
     (if ld_SweepBudget limits = [] then Inr p
      else case ParseDuration fmul (ld_SweepBudget limits) of
        None \<Rightarrow> Inl (Fault_BudgetNotPositive source)
      | Some budget \<Rightarrow>
          if budget \<le> 0 then Inl (Fault_BudgetNotPositive source)
          else if budget > DefaultBudget then Inl (Fault_BudgetRaised source budget)
          else Inr (p\<lparr>po_budget := budget\<rparr>))"

definition lowerMaxInput :: "limitsDocument \<Rightarrow> string \<Rightarrow> Policy \<Rightarrow> Fault + Policy" where
  "lowerMaxInput limits source p =
     (if ld_MaxInputBytes limits = 0 then Inr p
      else if ld_MaxInputBytes limits < 0 then Inl (Fault_InputNotPositive source)
      else if ld_MaxInputBytes limits > DefaultMaxInputBytes
      then Inl (Fault_InputRaised source (ld_MaxInputBytes limits))
      else Inr (p\<lparr>po_maxInput := ld_MaxInputBytes limits\<rparr>))"

definition lowerLimits ::
  "(int \<Rightarrow> int \<Rightarrow> int \<Rightarrow> int) \<Rightarrow> limitsDocument option \<Rightarrow> string \<Rightarrow> Policy \<Rightarrow> Fault + Policy" where
  "lowerLimits fmul limits source p =
     (case limits of
        None \<Rightarrow> Inr p
      | Some l \<Rightarrow>
          (case lowerBudget fmul l source p of
             Inl fault \<Rightarrow> Inl fault
           | Inr p' \<Rightarrow> lowerMaxInput l source p'))"

definition Parse :: "parsers \<Rightarrow> string \<Rightarrow> string \<Rightarrow> Fault + Policy" where
  "Parse ps raw source =
     (case ps_decode ps raw of
        Yaml_EOF \<Rightarrow> Inl (Fault_Empty source)
      | Yaml_Error message \<Rightarrow> Inl (Fault_DoesNotParse source (firstLine message))
      | Yaml_Document parsed \<Rightarrow>
          if ps_more ps raw then Inl (Fault_ManyDocuments source)
          else if do_Version parsed \<noteq> policyVersion then Inl (Fault_Version source (do_Version parsed))
          else case addPatterns (ps_compile ps) (do_Patterns parsed) source (Default\<lparr>po_source := source\<rparr>) of
            Inl fault \<Rightarrow> Inl fault
          | Inr p1 \<Rightarrow>
              (case addMaskedFields (do_MaskedFields parsed) source p1 of
                 Inl fault \<Rightarrow> Inl fault
               | Inr p2 \<Rightarrow> lowerLimits (ps_fmul ps) (do_Limits parsed) source p2))"

section \<open>Dry run\<close>

record PreviewLine =
  pl_Number :: int
  pl_Masked :: string
  pl_Occurrences :: nat
  pl_Rules :: "string list"

record Preview =
  pv_Masked :: string
  pv_Occurrences :: nat
  pv_ByRule :: "(string, nat) gomap"
  pv_Lines :: "PreviewLine list"

definition count_rule :: "(string, nat) gomap \<Rightarrow> string \<Rightarrow> (string, nat) gomap" where
  "count_rule byRule ruleID =
     gomap_set ruleID (case gomap_get byRule ruleID of None \<Rightarrow> 1 | Some n \<Rightarrow> Suc n) byRule"

text \<open>The loop of DryRun over the numbered lines, with the rendered lines so far.\<close>

fun dry_run_lines :: "Rule list \<Rightarrow> int \<Rightarrow> string list \<Rightarrow> string list \<Rightarrow> Preview \<Rightarrow> Preview option" where
  "dry_run_lines rules index [] rendered preview =
     Some (preview\<lparr>pv_Masked := Join rendered [newline]\<rparr>)"
| "dry_run_lines rules index (line # rest) rendered preview =
     (case mask rules line of
        None \<Rightarrow> None
      | Some (masked, occurrences, matched) \<Rightarrow>
          dry_run_lines rules (index + 1) rest (rendered @ [masked])
            (if occurrences = 0 then preview
             else preview\<lparr>pv_Occurrences := pv_Occurrences preview + occurrences,
                    pv_ByRule := foldl count_rule (pv_ByRule preview) matched,
                    pv_Lines := pv_Lines preview @
                      [\<lparr>pl_Number = index + 1, pl_Masked = masked, pl_Occurrences = occurrences,
                        pl_Rules = matched\<rparr>]\<rparr>))"

definition DryRun :: "Policy \<Rightarrow> string \<Rightarrow> Preview option" where
  "DryRun p sample =
     dry_run_lines (po_rules p) 0 (Split sample [newline]) []
       \<lparr>pv_Masked = [], pv_Occurrences = 0, pv_ByRule = [], pv_Lines = []\<rparr>"

definition line_of :: "string \<Rightarrow> string" where
  "line_of s = s @ [newline]"

definition Render :: "Policy \<Rightarrow> Preview \<Rightarrow> string" where
  "Render policy p =
     line_of (''policy: '' @ po_source policy) @
     line_of (''rules in force: '' @ Itoa (int (length (Rules policy)))) @
     concat (map (\<lambda>ruleID. line_of (''  '' @ ruleID)) (Rules policy)) @
     (if AlwaysMasked policy = [] then []
      else line_of ''fields excluded categorically:'' @
           concat (map (\<lambda>field. line_of (''  '' @ field)) (AlwaysMasked policy))) @
     [newline] @ line_of (''masked '' @ Itoa (int (pv_Occurrences p)) @ '' occurrence(s) across '' @
       Itoa (int (length (pv_Lines p))) @ '' line(s)'') @
     (if pv_Occurrences p = 0 then []
      else line_of ''by rule:'' @
           concat (map (\<lambda>ruleID. line_of (''  '' @ ruleID @ '': '' @
             Itoa (int (case gomap_get (pv_ByRule p) ruleID of None \<Rightarrow> 0 | Some n \<Rightarrow> n))))
             (sorted_map_keys (pv_ByRule p)))) @
     [newline] @ line_of ''what would leave the cluster:'' @
     concat (map (\<lambda>line. line_of (''  '' @ line)) (Split (pv_Masked p) [newline]))"

section \<open>The defaults\<close>

lemma build_rules_Some:
  "build_rules entries = Some rules \<Longrightarrow> rules = map (\<lambda>(i, p). \<lparr>ru_ID = i, ru_pattern = p\<rparr>) entries"
  by (induction entries arbitrary: rules)
    (auto simp: NewRule_def split: sum.splits if_splits)

lemma BuiltIn_compiles: "BuiltIn \<noteq> None"
  by code_simp

lemma BuiltIn_eq: "BuiltIn = Some (map (\<lambda>(i, p). \<lparr>ru_ID = i, ru_pattern = p\<rparr>) builtinRules)"
  using BuiltIn_compiles build_rules_Some unfolding BuiltIn_def by (auto simp del: builtinRules_def)

lemma Rules_Default: "Rules Default = map fst builtinRules"
  by (simp add: Rules_def Default_def BuiltIn_eq case_prod_beta comp_def)

lemma distinct_Rules_Default: "distinct (Rules Default)"
  unfolding Rules_Default by code_simp

section \<open>A customer policy only adds\<close>

definition seen_ids :: "string list \<Rightarrow> (string, bool) gomap \<Rightarrow> bool" where
  "seen_ids ids seen \<longleftrightarrow> (\<forall>i. (gomap_get seen i = Some True) = (i \<in> set ids))"

lemma seen_ids_set: "seen_ids ids seen \<Longrightarrow> seen_ids (ids @ [i]) (gomap_set i True seen)"
  by (auto simp: seen_ids_def gomap_get_set)

lemma seen_ids_foldl:
  "seen_ids ids seen \<Longrightarrow>
    seen_ids (ids @ map ru_ID rules) (foldl (\<lambda>seen rule. gomap_set (ru_ID rule) True seen) seen rules)"
proof (induction rules arbitrary: ids seen)
  case (Cons r rules)
  from Cons.IH [OF seen_ids_set [OF Cons.prems, of "ru_ID r"]] show ?case by simp
qed simp

definition customer_rule :: "Rule \<Rightarrow> bool" where
  "customer_rule r \<longleftrightarrow> ru_ID r \<noteq> [] \<and> \<not> HasPrefix (ru_ID r) builtinPrefix \<and> \<not> MatchString (ru_pattern r) []"

lemma addPatterns_loop_Inr:
  "addPatterns_loop compile source entries seen p = Inr p' \<Longrightarrow> seen_ids (Rules p) seen \<Longrightarrow> distinct (Rules p) \<Longrightarrow>
    \<exists>extra. p' = p\<lparr>po_rules := po_rules p @ extra\<rparr> \<and> list_all customer_rule extra \<and> distinct (Rules p')"
proof (induction compile source entries seen p rule: addPatterns_loop.induct)
  case (1 compile source seen p)
  then show ?case by (intro exI [of _ "[]"]) simp
next
  case (2 compile source entry entries seen p)
  let ?i = "TrimSpace (pe_ID entry)"
  from 2(2) obtain rule where g: "?i \<noteq> []" "\<not> HasPrefix ?i builtinPrefix" "gomap_get seen ?i \<noteq> Some True"
    and r: "NewRule compile ?i (pe_Pattern entry) = Inr rule"
    by (auto simp: Let_def split: if_splits sum.splits)
  let ?p = "p\<lparr>po_rules := po_rules p @ [rule]\<rparr>"
  have loop: "addPatterns_loop compile source entries (gomap_set ?i True seen) ?p = Inr p'"
    using 2(2) g r by (simp add: Let_def)
  have ru: "ru_ID rule = ?i" "customer_rule rule"
    using r g by (auto simp: NewRule_def customer_rule_def split: if_splits option.splits)
  have "seen_ids (Rules ?p) (gomap_set ?i True seen)"
    using seen_ids_set [OF 2(3), of ?i] ru by (simp add: Rules_def)
  moreover have "distinct (Rules ?p)"
    using 2(3,4) g(3) ru by (auto simp: Rules_def seen_ids_def)
  ultimately obtain extra where "p' = ?p\<lparr>po_rules := po_rules ?p @ extra\<rparr>" "list_all customer_rule extra"
      "distinct (Rules p')"
    using 2(1) [OF refl g r loop] by auto
  with ru show ?case by (intro exI [of _ "rule # extra"]) simp
qed

lemma addPatterns_Inr:
  assumes "addPatterns compile entries source p = Inr p'" "distinct (Rules p)"
  shows "\<exists>extra. p' = p\<lparr>po_rules := po_rules p @ extra\<rparr> \<and> list_all customer_rule extra \<and> distinct (Rules p')"
proof (rule addPatterns_loop_Inr [OF assms(1) [unfolded addPatterns_def] _ assms(2)])
  have "seen_ids [] []" by (simp add: seen_ids_def gomap_get_def)
  from seen_ids_foldl [OF this, of "po_rules p"]
  show "seen_ids (Rules p) (foldl (\<lambda>seen rule. gomap_set (ru_ID rule) True seen) [] (po_rules p))"
    by (simp add: Rules_def)
qed

lemma addMaskedFields_loop_Inr:
  "addMaskedFields_loop known source names p = Inr p' \<Longrightarrow>
    \<exists>m. p' = p\<lparr>po_alwaysMasked := m\<rparr> \<and>
      (\<forall>path. (gomap_get m path = Some True) =
        (gomap_get (po_alwaysMasked p) path = Some True \<or> path \<in> TrimSpace ` set names)) \<and>
      (\<forall>name \<in> TrimSpace ` set names. gomap_get known name = Some True)"
proof (induction known source names p rule: addMaskedFields_loop.induct)
  case (1 known source p)
  then show ?case by (intro exI [of _ "po_alwaysMasked p"]) simp
next
  case (2 known source field rest p)
  let ?p = "p\<lparr>po_alwaysMasked := gomap_set (TrimSpace field) True (po_alwaysMasked p)\<rparr>"
  have k: "gomap_get known (TrimSpace field) = Some True"
    and l: "addMaskedFields_loop known source rest ?p = Inr p'"
    using 2(2) by (auto simp: Let_def split: if_splits)
  from 2(1) [OF refl _ l] k obtain m where "p' = ?p\<lparr>po_alwaysMasked := m\<rparr>"
      "\<forall>path. (gomap_get m path = Some True) =
        (gomap_get (po_alwaysMasked ?p) path = Some True \<or> path \<in> TrimSpace ` set rest)"
      "\<forall>name \<in> TrimSpace ` set rest. gomap_get known name = Some True"
    by auto
  with k show ?case by (intro exI [of _ m]) (auto simp: gomap_get_set)
qed

lemma declaredPaths_get:
  "gomap_get declaredPaths path = Some True \<longleftrightarrow> (\<exists>f \<in> set FieldPaths. fp_Declared f \<and> fp_Path f = path)"
proof -
  have "gomap_get (foldl (\<lambda>paths field. if fp_Declared field then gomap_set (fp_Path field) True paths else paths) m fs)
      path = Some True \<longleftrightarrow> gomap_get m path = Some True \<or> (\<exists>f \<in> set fs. fp_Declared f \<and> fp_Path f = path)" for m fs
    by (induction fs arbitrary: m) (auto simp: gomap_get_set)
  from this [of "[]" FieldPaths] show ?thesis by (simp add: declaredPaths_def gomap_get_def)
qed

definition bounded_limits :: "Policy \<Rightarrow> bool" where
  "bounded_limits p \<longleftrightarrow> 0 < po_budget p \<and> po_budget p \<le> DefaultBudget \<and>
     0 < po_maxInput p \<and> po_maxInput p \<le> DefaultMaxInputBytes"

lemma bounded_limits_Default: "bounded_limits Default"
  by (simp add: bounded_limits_def Default_def DefaultBudget_def DefaultMaxInputBytes_def Second_def)

lemma lowerLimits_Inr:
  assumes "lowerLimits fmul limits source p = Inr p'" "bounded_limits p"
  shows "bounded_limits p' \<and> po_rules p' = po_rules p \<and> po_alwaysMasked p' = po_alwaysMasked p \<and>
    po_source p' = po_source p"
  using assms
  by (auto simp: lowerLimits_def lowerBudget_def lowerMaxInput_def bounded_limits_def
      split: option.splits sum.splits if_splits)

lemma Parse_Inr:
  assumes "Parse ps raw source = Inr p"
  obtains doc extra where "ps_decode ps raw = Yaml_Document doc" "do_Version doc = policyVersion"
    "po_rules p = po_rules Default @ extra" "list_all customer_rule extra" "distinct (Rules p)"
    "bounded_limits p" "po_source p = source"
    "\<And>path. always_masked p path = (path \<in> TrimSpace ` set (do_MaskedFields doc))"
    "\<And>path. always_masked p path \<Longrightarrow> \<exists>f \<in> set FieldPaths. fp_Declared f \<and> fp_Path f = path"
proof -
  from assms obtain doc p1 p2 where doc: "ps_decode ps raw = Yaml_Document doc" "do_Version doc = policyVersion"
    and s1: "addPatterns (ps_compile ps) (do_Patterns doc) source (Default\<lparr>po_source := source\<rparr>) = Inr p1"
    and s2: "addMaskedFields (do_MaskedFields doc) source p1 = Inr p2"
    and s3: "lowerLimits (ps_fmul ps) (do_Limits doc) source p2 = Inr p"
    by (auto simp: Parse_def split: yaml.splits if_splits sum.splits)
  have "distinct (Rules (Default\<lparr>po_source := source\<rparr>))"
    using distinct_Rules_Default by (simp add: Rules_def)
  from addPatterns_Inr [OF s1 this] obtain extra where
    p1: "p1 = Default\<lparr>po_source := source, po_rules := po_rules Default @ extra\<rparr>"
      "list_all customer_rule extra" "distinct (Rules p1)" by auto
  from addMaskedFields_loop_Inr [OF s2 [unfolded addMaskedFields_def]] obtain m where
    p2: "p2 = p1\<lparr>po_alwaysMasked := m\<rparr>"
      "\<forall>path. (gomap_get m path = Some True) =
        (gomap_get (po_alwaysMasked p1) path = Some True \<or> path \<in> TrimSpace ` set (do_MaskedFields doc))"
      "\<forall>name \<in> TrimSpace ` set (do_MaskedFields doc). gomap_get declaredPaths name = Some True" by auto
  have "bounded_limits p2" using bounded_limits_Default p1 p2 by (simp add: bounded_limits_def)
  note p3 = lowerLimits_Inr [OF s3 this]
  have masked: "always_masked p path = (path \<in> TrimSpace ` set (do_MaskedFields doc))" for path
    using p1 p2 p3 by (simp add: always_masked_def Default_def gomap_get_def)
  show ?thesis
    by (rule that [OF doc, of extra])
      (use p1 p2 p3 masked in \<open>auto simp: Rules_def declaredPaths_get\<close>)
qed

lemma claimed_at_append: "claimed_at (a @ b) v i \<longleftrightarrow> claimed_at a v i \<or> claimed_at b v i"
  by (simp add: claimed_at_def)

section \<open>The dry run masks line by line\<close>

definition masked_text :: "Rule list \<Rightarrow> string \<Rightarrow> string" where
  "masked_text rules v = fst (the (mask rules v))"

definition masked_count :: "Rule list \<Rightarrow> string \<Rightarrow> nat" where
  "masked_count rules v = fst (snd (the (mask rules v)))"

definition masked_ids :: "Rule list \<Rightarrow> string \<Rightarrow> string list" where
  "masked_ids rules v = snd (snd (the (mask rules v)))"

lemma mask_total: "mask rules v = Some (masked_text rules v, masked_count rules v, masked_ids rules v)"
proof -
  have "mask rules v \<noteq> None"
    by (cases "v = []") (simp_all add: mask_empty mask_eq Let_def)
  then show ?thesis by (auto simp: masked_text_def masked_count_def masked_ids_def)
qed

lemma masked_ids_count_0:
  assumes "masked_count rules v = 0"
  shows "masked_ids rules v = []"
proof (cases "v = []")
  case True
  then show ?thesis by (simp add: masked_ids_def mask_empty)
next
  case False
  then have "claims rules v = []" using assms by (simp add: masked_count_def mask_eq Let_def)
  then show ?thesis using False by (simp add: masked_ids_def mask_eq Let_def)
qed

lemma count_rules:
  "gomap_get (foldl count_rule m ids) i =
    (let n = (case gomap_get m i of None \<Rightarrow> 0 | Some n \<Rightarrow> n) + count_list ids i
     in if gomap_get m i = None \<and> i \<notin> set ids then None else Some n)"
  by (induction ids arbitrary: m)
    (auto simp: count_rule_def gomap_get_set Let_def split: option.splits)

definition rule_count :: "Preview \<Rightarrow> string \<Rightarrow> nat" where
  "rule_count pv i = (case gomap_get (pv_ByRule pv) i of None \<Rightarrow> 0 | Some n \<Rightarrow> n)"

lemma dry_run_lines_eq:
  "\<exists>pv. dry_run_lines rules index ls rendered preview = Some pv \<and>
    pv_Masked pv = Join (rendered @ map (masked_text rules) ls) [newline] \<and>
    pv_Occurrences pv = pv_Occurrences preview + sum_list (map (masked_count rules) ls) \<and>
    rule_count pv i = rule_count preview i + sum_list (map (\<lambda>l. count_list (masked_ids rules l) i) ls) \<and>
    map pl_Masked (pv_Lines pv) = map pl_Masked (pv_Lines preview) @
      map (masked_text rules) (filter (\<lambda>l. masked_count rules l \<noteq> 0) ls)"
proof (induction ls arbitrary: index rendered preview)
  case Nil
  then show ?case by (simp add: rule_count_def)
next
  case (Cons l ls)
  note IH = Cons.IH [of "index + 1" "rendered @ [masked_text rules l]"]
  show ?case
  proof (cases "masked_count rules l = 0")
    case True
    then show ?thesis using IH [of preview] by (simp add: mask_total [of rules l] masked_ids_count_0)
  next
    case False
    let ?pv = "preview\<lparr>pv_Occurrences := pv_Occurrences preview + masked_count rules l,
      pv_ByRule := foldl count_rule (pv_ByRule preview) (masked_ids rules l),
      pv_Lines := pv_Lines preview @ [\<lparr>pl_Number = index + 1, pl_Masked = masked_text rules l,
        pl_Occurrences = masked_count rules l, pl_Rules = masked_ids rules l\<rparr>]\<rparr>"
    have rc: "rule_count ?pv i = rule_count preview i + count_list (masked_ids rules l) i"
      by (auto simp: rule_count_def count_rules Let_def count_list_0_iff split: option.splits)
    from False show ?thesis using IH [of ?pv] unfolding rc by (simp add: mask_total [of rules l] add.assoc)
  qed
qed

end
