(* ===== verification/Redaction_Sweep.thy ===== *)
theory Redaction_Sweep
  imports Redaction_Policy Relay_Wire
begin

text \<open>
  internal/redaction/sweep.go and enforcement.go: the sweep of a capability result, the loaded guard and
  the enforcing executor.

  A result is the tree protoreflect shows of it: a message is its full name with its populated fields in
  descriptor order. time.Since is a clock parameter, indexed by the number of readings before it. A sweep
  ends in a fault, in a panic (only the masking could raise one) or in the swept tree; what a faulted sweep
  had already rewritten is dropped with the result.
\<close>

section \<open>Reflected messages\<close>

datatype pmsg = PMsg string "(string \<times> pval) list"
  and pval =
    PStr string
  | PStrs "string list"
  | PSub pmsg
  | PSubs "pmsg list"
  | PMapField
  | PScalar int

section \<open>Sweep state\<close>

record tally =
  ta_order :: nat
  ta_occurrences :: uint32
  ta_rules :: "(string, bool) gomap"

record sweep =
  sw_swept :: int
  sw_counts :: "(string, tally) gomap"
  sw_next :: nat
  sw_reads :: nat

datatype sweep_error = Sweep_Fault Fault | Sweep_Panic

definition new_sweep :: sweep where
  "new_sweep = \<lparr>sw_swept = 0, sw_counts = [], sw_next = 0, sw_reads = 0\<rparr>"

definition record_masked :: "string \<Rightarrow> uint32 \<Rightarrow> string list \<Rightarrow> sweep \<Rightarrow> sweep" where
  "record_masked path occurrences rules s =
     (let (entry, nxt) = (case gomap_get (sw_counts s) path of
            Some entry \<Rightarrow> (entry, sw_next s)
          | None \<Rightarrow> (\<lparr>ta_order = sw_next s, ta_occurrences = 0, ta_rules = []\<rparr>, Suc (sw_next s)));
          entry' = entry\<lparr>ta_occurrences := ta_occurrences entry + occurrences,
            ta_rules := foldl (\<lambda>m i. gomap_set i True m) (ta_rules entry) rules\<rparr>
      in s\<lparr>sw_counts := gomap_set path entry' (sw_counts s), sw_next := nxt\<rparr>)"

text \<open>\<open>over_budget\<close> is one reading of the clock against the budget.\<close>

definition over_budget :: "(nat \<Rightarrow> int) \<Rightarrow> Policy \<Rightarrow> sweep \<Rightarrow> bool" where
  "over_budget since p s \<longleftrightarrow> since (sw_reads s) > po_budget p"

definition tick_read :: "sweep \<Rightarrow> sweep" where
  "tick_read s = s\<lparr>sw_reads := Suc (sw_reads s)\<rparr>"

definition sweep_value ::
  "(nat \<Rightarrow> int) \<Rightarrow> Policy \<Rightarrow> string \<Rightarrow> string \<Rightarrow> sweep \<Rightarrow> sweep_error + (sweep \<times> string)" where
  "sweep_value since p path v s0 =
     (let s1 = s0\<lparr>sw_swept := sw_swept s0 + int (length v)\<rparr> in
      if sw_swept s1 > po_maxInput p then Inl (Sweep_Fault (Fault_TooMuchText (po_maxInput p)))
      else if over_budget since p s1 then Inl (Sweep_Fault (Fault_SweepBudget (po_budget p)))
      else let s2 = tick_read s1 in
        if always_masked p path then
          (if v = [] then Inr (s2, v)
           else Inr (record_masked path 1 [maskedFieldRule] s2, marker maskedFieldRule))
        else case mask (po_rules p) v of
          None \<Rightarrow> Inl Sweep_Panic
        | Some (masked, occurrences, matched) \<Rightarrow>
            if over_budget since p s2 then Inl (Sweep_Fault (Fault_SweepBudget (po_budget p)))
            else let s3 = tick_read s2 in
              if occurrences > 0 then Inr (record_masked path (of_nat occurrences) matched s3, masked)
              else Inr (s3, masked))"

fun sweep_values ::
  "(nat \<Rightarrow> int) \<Rightarrow> Policy \<Rightarrow> string \<Rightarrow> string list \<Rightarrow> sweep \<Rightarrow> sweep_error + (sweep \<times> string list)" where
  "sweep_values since p path [] s = Inr (s, [])"
| "sweep_values since p path (v # vs) s =
     (case sweep_value since p path v s of
        Inl e \<Rightarrow> Inl e
      | Inr (s1, v') \<Rightarrow>
          (case sweep_values since p path vs s1 of
             Inl e \<Rightarrow> Inl e
           | Inr (s2, vs') \<Rightarrow> Inr (s2, v' # vs')))"

text \<open>sweep.strings: an undeclared field faults, a structural one is left alone unless excluded.\<close>

definition swept_field :: "Policy \<Rightarrow> Classification \<Rightarrow> string \<Rightarrow> bool" where
  "swept_field p c path \<longleftrightarrow> c = FreeText \<or> always_masked p path"

definition sweep_strings ::
  "(nat \<Rightarrow> int) \<Rightarrow> Policy \<Rightarrow> string \<Rightarrow> string \<Rightarrow> string \<Rightarrow> pval \<Rightarrow> sweep \<Rightarrow> sweep_error + (sweep \<times> pval)" where
  "sweep_strings since p message field path value s =
     (case classify message field of
        None \<Rightarrow> Inl (Sweep_Fault (Fault_Unclassified message field))
      | Some c \<Rightarrow>
          if \<not> swept_field p c path then Inr (s, value)
          else case value of
            PStr v \<Rightarrow>
              (case sweep_value since p path v s of Inl e \<Rightarrow> Inl e | Inr (s', v') \<Rightarrow> Inr (s', PStr v'))
          | PStrs vs \<Rightarrow>
              (case sweep_values since p path vs s of Inl e \<Rightarrow> Inl e | Inr (s', vs') \<Rightarrow> Inr (s', PStrs vs'))
          | _ \<Rightarrow> Inr (s, value))"

text \<open>sweep.message and sweep.messages.\<close>

fun sweep_message ::
  "(nat \<Rightarrow> int) \<Rightarrow> Policy \<Rightarrow> string \<Rightarrow> pmsg \<Rightarrow> sweep \<Rightarrow> sweep_error + (sweep \<times> pmsg)"
  and sweep_fields ::
  "(nat \<Rightarrow> int) \<Rightarrow> Policy \<Rightarrow> string \<Rightarrow> string \<Rightarrow> (string \<times> pval) list \<Rightarrow> sweep \<Rightarrow>
    sweep_error + (sweep \<times> (string \<times> pval) list)"
  and sweep_field ::
  "(nat \<Rightarrow> int) \<Rightarrow> Policy \<Rightarrow> string \<Rightarrow> string \<Rightarrow> string \<Rightarrow> pval \<Rightarrow> sweep \<Rightarrow> sweep_error + (sweep \<times> pval)"
  and sweep_messages ::
  "(nat \<Rightarrow> int) \<Rightarrow> Policy \<Rightarrow> string \<Rightarrow> pmsg list \<Rightarrow> sweep \<Rightarrow> sweep_error + (sweep \<times> pmsg list)"
where
  "sweep_message since p path (PMsg name fs) s =
     (case sweep_fields since p name path fs s of
        Inl e \<Rightarrow> Inl e
      | Inr (s', fs') \<Rightarrow> Inr (s', PMsg name fs'))"
| "sweep_fields since p name path [] s = Inr (s, [])"
| "sweep_fields since p name path ((field, value) # fs) s =
     (case sweep_field since p name field (join_path path field) value s of
        Inl e \<Rightarrow> Inl e
      | Inr (s1, value') \<Rightarrow>
          (case sweep_fields since p name path fs s1 of
             Inl e \<Rightarrow> Inl e
           | Inr (s2, fs') \<Rightarrow> Inr (s2, (field, value') # fs')))"
| "sweep_field since p name field here (PStr v) s = sweep_strings since p name field here (PStr v) s"
| "sweep_field since p name field here (PStrs vs) s = sweep_strings since p name field here (PStrs vs) s"
| "sweep_field since p name field here PMapField s = Inl (Sweep_Fault (Fault_MapField here))"
| "sweep_field since p name field here (PSub m) s =
     (case sweep_message since p here m s of Inl e \<Rightarrow> Inl e | Inr (s', m') \<Rightarrow> Inr (s', PSub m'))"
| "sweep_field since p name field here (PSubs ms) s =
     (case sweep_messages since p here ms s of Inl e \<Rightarrow> Inl e | Inr (s', ms') \<Rightarrow> Inr (s', PSubs ms'))"
| "sweep_field since p name field here (PScalar n) s = Inr (s, PScalar n)"
| "sweep_messages since p path [] s = Inr (s, [])"
| "sweep_messages since p path (m # ms) s =
     (case sweep_message since p path m s of
        Inl e \<Rightarrow> Inl e
      | Inr (s1, m') \<Rightarrow>
          (case sweep_messages since p path ms s1 of
             Inl e \<Rightarrow> Inl e
           | Inr (s2, ms') \<Rightarrow> Inr (s2, m' # ms')))"

section \<open>The report\<close>

definition order_less :: "(string, tally) gomap \<Rightarrow> string \<Rightarrow> string \<Rightarrow> bool" where
  "order_less counts a b \<longleftrightarrow>
     (case (gomap_get counts a, gomap_get counts b) of
        (Some x, Some y) \<Rightarrow> ta_order x < ta_order y
      | _ \<Rightarrow> False)"

definition report :: "sweep \<Rightarrow> RedactionReport option" where
  "report s =
     (if sw_counts s = [] then None
      else Some (map (\<lambda>path.
        let entry = the (gomap_get (sw_counts s) path) in
        \<lparr>rf_field_name = path, rf_masked_occurrence_count = ta_occurrences entry,
         rf_rule_ids = sorted_map_keys (ta_rules entry)\<rparr>)
        (sort_slice (order_less (sw_counts s)) (gomap_keys (sw_counts s)))))"

text \<open>Setting the singular field redaction, the first of CapabilityResult; nil clears it.\<close>

definition scalar_field :: "string \<Rightarrow> int \<Rightarrow> (string \<times> pval) list" where
  "scalar_field name n = (if n = 0 then [] else [(name, PScalar n)])"

definition string_field :: "string \<Rightarrow> string \<Rightarrow> (string \<times> pval) list" where
  "string_field name v = (if v = [] then [] else [(name, PStr v)])"

definition strings_field :: "string \<Rightarrow> string list \<Rightarrow> (string \<times> pval) list" where
  "strings_field name vs = (if vs = [] then [] else [(name, PStrs vs)])"

definition messages_field :: "string \<Rightarrow> pmsg list \<Rightarrow> (string \<times> pval) list" where
  "messages_field name ms = (if ms = [] then [] else [(name, PSubs ms)])"

definition reflect_RedactedField :: "RedactedField \<Rightarrow> pmsg" where
  "reflect_RedactedField f = PMsg (pkg ''RedactedField'')
     (string_field ''field_name'' (rf_field_name f) @
      scalar_field ''masked_occurrence_count'' (uint (rf_masked_occurrence_count f)) @
      strings_field ''rule_ids'' (rf_rule_ids f))"

definition reflect_report :: "RedactionReport \<Rightarrow> pmsg" where
  "reflect_report r = PMsg (pkg ''RedactionReport'') (messages_field ''fields'' (map reflect_RedactedField r))"

fun set_redaction :: "RedactionReport option \<Rightarrow> pmsg \<Rightarrow> pmsg" where
  "set_redaction r (PMsg name fs) =
     PMsg name ((case r of None \<Rightarrow> [] | Some rep \<Rightarrow> [(''redaction'', PSub (reflect_report rep))]) @
       filter (\<lambda>f. fst f \<noteq> ''redaction'') fs)"

definition Sweep ::
  "(nat \<Rightarrow> int) \<Rightarrow> Policy \<Rightarrow> pmsg \<Rightarrow> sweep_error + (RedactionReport option \<times> pmsg)" where
  "Sweep since p result =
     (case sweep_message since p [] result new_sweep of
        Inl e \<Rightarrow> Inl e
      | Inr (s, result') \<Rightarrow> Inr (report s, set_redaction (report s) result'))"

section \<open>The guard and the enforcing executor\<close>

record Guard =
  gu_policy :: "Policy option"
  gu_fault :: "Fault option"

text \<open>Load; the file system is a parameter.\<close>

definition Load :: "parsers \<Rightarrow> (string \<Rightarrow> string option) \<Rightarrow> string \<Rightarrow> Guard" where
  "Load ps readFile path =
     (if path = [] then \<lparr>gu_policy = Some Default, gu_fault = None\<rparr>
      else case readFile path of
        None \<Rightarrow> \<lparr>gu_policy = None, gu_fault = Some (Fault_Unreadable path)\<rparr>
      | Some raw \<Rightarrow>
          (case Parse ps raw path of
             Inl fault \<Rightarrow> \<lparr>gu_policy = None, gu_fault = Some fault\<rparr>
           | Inr policy \<Rightarrow> \<lparr>gu_policy = Some policy, gu_fault = None\<rparr>))"

text \<open>Describe: what the Relay's own log says about the guard.\<close>

datatype description =
  Described_Fault Fault
| Described_Policy string int "string list" "string list" int int

definition Describe :: "Guard \<Rightarrow> description" where
  "Describe g =
     (case gu_fault g of
        Some fault \<Rightarrow> Described_Fault fault
      | None \<Rightarrow>
          let p = the (gu_policy g)
          in Described_Policy (po_source p) (int (length (Rules p))) (Rules p) (AlwaysMasked p)
               (po_budget p) (po_maxInput p))"

definition refusal :: "JobAssignment \<Rightarrow> 'p JobResult" where
  "refusal job = \<lparr>jr_job_id = ja_job_id job, jr_lease_epoch = ja_lease_epoch job,
     jr_outcome = Some (JobResult_Failure \<lparr>jf_kind = KIND_LOCAL_POLICY_REFUSED, jf_detail = []\<rparr>),
     jr_execution_duration_ms = 0\<rparr>"

definition set_payload :: "'p \<Rightarrow> 'p JobResult \<Rightarrow> 'p JobResult" where
  "set_payload payload r = r\<lparr>jr_outcome := Some (JobResult_Result payload)\<rparr>"

definition effective_policy :: "Guard \<Rightarrow> Policy" where
  "effective_policy g = (case gu_policy g of None \<Rightarrow> Default | Some p \<Rightarrow> p)"

text \<open>
  Enforcer.Execute. \<open>clock c\<close> gives the readings of time.Since during the sweep of this execution. The
  masking raises no panic (\<open>Sweep_no_panic\<close> below), so the branch for one is never taken.
\<close>

definition Enforcer_Execute ::
  "('c \<Rightarrow> nat \<Rightarrow> int) \<Rightarrow> Guard \<Rightarrow> ('c, pmsg) executor \<Rightarrow> ('c, pmsg) executor" where
  "Enforcer_Execute clock guard inner c job =
     (if gu_fault guard \<noteq> None \<and> carriesFreeText (ja_capability_id job) (ja_capability_version job)
      then Some (refusal job)
      else case inner c job of
        None \<Rightarrow> None
      | Some result \<Rightarrow>
          (case GetResult result of
             None \<Rightarrow> Some result
           | Some payload \<Rightarrow>
               (case Sweep (clock c) (effective_policy guard) payload of
                  Inl (Sweep_Fault fault) \<Rightarrow> Some (refusal job)
                | Inl Sweep_Panic \<Rightarrow> None
                | Inr (rep, payload') \<Rightarrow> Some (set_payload payload' result))))"

section \<open>What a sweep does, value by value\<close>

text \<open>
  The reference: the swept values of a message in visiting order, the text that replaces a value, and
  the tree with every swept value replaced. \<open>visit\<close> is the bookkeeping of one value and \<open>visit_ok\<close> the
  bounds that are checked around it.
\<close>

definition masked_value :: "Policy \<Rightarrow> string \<Rightarrow> string \<Rightarrow> string" where
  "masked_value p path v =
     (if always_masked p path then (if v = [] then v else marker maskedFieldRule)
      else masked_text (po_rules p) v)"

definition masked_event :: "Policy \<Rightarrow> string \<Rightarrow> string \<Rightarrow> nat \<times> string list" where
  "masked_event p path v =
     (if always_masked p path then (if v = [] then (0, []) else (1, [maskedFieldRule]))
      else (masked_count (po_rules p) v, masked_ids (po_rules p) v))"

definition visit :: "Policy \<Rightarrow> sweep \<Rightarrow> string \<times> string \<Rightarrow> sweep" where
  "visit p s pv =
     (let (path, v) = pv; (n, ids) = masked_event p path v;
          s' = s\<lparr>sw_swept := sw_swept s + int (length v),
                 sw_reads := sw_reads s + (if always_masked p path then 1 else 2)\<rparr>
      in if n > 0 then record_masked path (of_nat n) ids s' else s')"

definition visit_ok :: "(nat \<Rightarrow> int) \<Rightarrow> Policy \<Rightarrow> sweep \<Rightarrow> string \<times> string \<Rightarrow> bool" where
  "visit_ok since p s pv \<longleftrightarrow>
     sw_swept s + int (length (snd pv)) \<le> po_maxInput p \<and> since (sw_reads s) \<le> po_budget p \<and>
     (always_masked p (fst pv) \<or> since (Suc (sw_reads s)) \<le> po_budget p)"

fun visits_ok :: "(nat \<Rightarrow> int) \<Rightarrow> Policy \<Rightarrow> sweep \<Rightarrow> (string \<times> string) list \<Rightarrow> bool" where
  "visits_ok since p s [] \<longleftrightarrow> True"
| "visits_ok since p s (x # xs) \<longleftrightarrow> visit_ok since p s x \<and> visits_ok since p (visit p s x) xs"

lemma visits_ok_append:
  "visits_ok since p s (xs @ ys) \<longleftrightarrow> visits_ok since p s xs \<and> visits_ok since p (foldl (visit p) s xs) ys"
  by (induction xs arbitrary: s) auto

lemma sweep_value_eq:
  "sweep_value since p path v s =
    (if visit_ok since p s (path, v) then Inr (visit p s (path, v), masked_value p path v)
     else Inl (Sweep_Fault (if sw_swept s + int (length v) > po_maxInput p
       then Fault_TooMuchText (po_maxInput p) else Fault_SweepBudget (po_budget p))))"
  by (auto simp: sweep_value_def visit_ok_def visit_def masked_event_def masked_value_def tick_read_def
      over_budget_def Let_def mask_total)

lemma sweep_values_eq:
  "sweep_values since p path vs s = Inr r \<longleftrightarrow>
    visits_ok since p s (map (Pair path) vs) \<and>
    r = (foldl (visit p) s (map (Pair path) vs), map (masked_value p path) vs)"
  by (induction vs arbitrary: s r) (auto simp: sweep_value_eq error_simps case_prod_beta)

lemma sweep_value_no_panic: "sweep_value since p path v s \<noteq> Inl Sweep_Panic"
  by (simp add: sweep_value_eq)

lemma sweep_values_no_panic: "sweep_values since p path vs s \<noteq> Inl Sweep_Panic"
  by (induction vs arbitrary: s) (auto simp: sweep_value_no_panic split: sum.splits)

fun visited_message :: "Policy \<Rightarrow> string \<Rightarrow> pmsg \<Rightarrow> (string \<times> string) list"
  and visited_fields :: "Policy \<Rightarrow> string \<Rightarrow> string \<Rightarrow> (string \<times> pval) list \<Rightarrow> (string \<times> string) list"
  and visited_field :: "Policy \<Rightarrow> string \<Rightarrow> string \<Rightarrow> string \<Rightarrow> pval \<Rightarrow> (string \<times> string) list"
  and visited_messages :: "Policy \<Rightarrow> string \<Rightarrow> pmsg list \<Rightarrow> (string \<times> string) list"
where
  "visited_message p path (PMsg name fs) = visited_fields p name path fs"
| "visited_fields p name path [] = []"
| "visited_fields p name path ((field, value) # fs) =
     visited_field p name field (join_path path field) value @ visited_fields p name path fs"
| "visited_field p name field here (PStr v) =
     (case classify name field of
        Some c \<Rightarrow> if swept_field p c here then [(here, v)] else [] | None \<Rightarrow> [])"
| "visited_field p name field here (PStrs vs) =
     (case classify name field of
        Some c \<Rightarrow> if swept_field p c here then map (Pair here) vs else [] | None \<Rightarrow> [])"
| "visited_field p name field here PMapField = []"
| "visited_field p name field here (PSub m) = visited_message p here m"
| "visited_field p name field here (PSubs ms) = visited_messages p here ms"
| "visited_field p name field here (PScalar n) = []"
| "visited_messages p path [] = []"
| "visited_messages p path (m # ms) = visited_message p path m @ visited_messages p path ms"

fun redacted_message :: "Policy \<Rightarrow> string \<Rightarrow> pmsg \<Rightarrow> pmsg"
  and redacted_field :: "Policy \<Rightarrow> string \<Rightarrow> string \<Rightarrow> string \<Rightarrow> pval \<Rightarrow> pval"
where
  "redacted_message p path (PMsg name fs) =
     PMsg name (map (\<lambda>(field, value). (field, redacted_field p name field (join_path path field) value)) fs)"
| "redacted_field p name field here (PStr v) =
     (case classify name field of
        Some c \<Rightarrow> if swept_field p c here then PStr (masked_value p here v) else PStr v | None \<Rightarrow> PStr v)"
| "redacted_field p name field here (PStrs vs) =
     (case classify name field of
        Some c \<Rightarrow> if swept_field p c here then PStrs (map (masked_value p here) vs) else PStrs vs
      | None \<Rightarrow> PStrs vs)"
| "redacted_field p name field here PMapField = PMapField"
| "redacted_field p name field here (PSub m) = PSub (redacted_message p here m)"
| "redacted_field p name field here (PSubs ms) = PSubs (map (redacted_message p here) ms)"
| "redacted_field p name field here (PScalar n) = PScalar n"

text \<open>The tree has no map and no string field outside the declaration table.\<close>

fun classified_message :: "pmsg \<Rightarrow> bool" and classified_field :: "string \<Rightarrow> string \<Rightarrow> pval \<Rightarrow> bool" where
  "classified_message (PMsg name fs) \<longleftrightarrow> (\<forall>(field, value) \<in> set fs. classified_field name field value)"
| "classified_field name field (PStr v) \<longleftrightarrow> classify name field \<noteq> None"
| "classified_field name field (PStrs vs) \<longleftrightarrow> classify name field \<noteq> None"
| "classified_field name field PMapField \<longleftrightarrow> False"
| "classified_field name field (PSub m) \<longleftrightarrow> classified_message m"
| "classified_field name field (PSubs ms) \<longleftrightarrow> (\<forall>m \<in> set ms. classified_message m)"
| "classified_field name field (PScalar n) \<longleftrightarrow> True"

lemma sweep_eq:
  "sweep_message since p path m s = Inr r \<longleftrightarrow>
    classified_message m \<and> visits_ok since p s (visited_message p path m) \<and>
    r = (foldl (visit p) s (visited_message p path m), redacted_message p path m)"
  "sweep_fields since p name path fs s = Inr rf \<longleftrightarrow>
    (\<forall>(field, value) \<in> set fs. classified_field name field value) \<and>
    visits_ok since p s (visited_fields p name path fs) \<and>
    rf = (foldl (visit p) s (visited_fields p name path fs),
      map (\<lambda>(field, value). (field, redacted_field p name field (join_path path field) value)) fs)"
  "sweep_field since p name field here v s = Inr rv \<longleftrightarrow>
    classified_field name field v \<and> visits_ok since p s (visited_field p name field here v) \<and>
    rv = (foldl (visit p) s (visited_field p name field here v), redacted_field p name field here v)"
  "sweep_messages since p path ms s = Inr rms \<longleftrightarrow>
    (\<forall>m \<in> set ms. classified_message m) \<and> visits_ok since p s (visited_messages p path ms) \<and>
    rms = (foldl (visit p) s (visited_messages p path ms), map (redacted_message p path) ms)"
  by (induction p path m and p name path fs and p name field here v and p path ms
      arbitrary: s r and s rf and s rv and s rms
      rule: visited_message_visited_fields_visited_field_visited_messages.induct)
    (auto simp: visits_ok_append sweep_strings_def sweep_value_eq sweep_values_eq error_simps case_prod_beta
      split: option.splits)

lemma sweep_no_panic:
  "sweep_message since p path m s \<noteq> Inl Sweep_Panic"
  "sweep_fields since p name path fs s \<noteq> Inl Sweep_Panic"
  "sweep_field since p name field here v s \<noteq> Inl Sweep_Panic"
  "sweep_messages since p path ms s \<noteq> Inl Sweep_Panic"
  by (induction p path m and p name path fs and p name field here v and p path ms
      arbitrary: s and s and s and s
      rule: visited_message_visited_fields_visited_field_visited_messages.induct)
    (auto simp: sweep_strings_def sweep_value_no_panic sweep_values_no_panic
      split: sum.splits option.splits if_splits)

lemma Sweep_no_panic: "Sweep since p m \<noteq> Inl Sweep_Panic"
  using sweep_no_panic(1) [of since p "[]" m new_sweep] by (auto simp: Sweep_def split: sum.splits)

definition swept_state :: "Policy \<Rightarrow> pmsg \<Rightarrow> sweep" where
  "swept_state p m = foldl (visit p) new_sweep (visited_message p [] m)"

lemma Sweep_eq:
  "Sweep since p m = Inr r \<longleftrightarrow>
    classified_message m \<and> visits_ok since p new_sweep (visited_message p [] m) \<and>
    r = (report (swept_state p m), set_redaction (report (swept_state p m)) (redacted_message p [] m))"
  by (auto simp: Sweep_def error_simps sweep_eq swept_state_def case_prod_beta)

text \<open>Bounds that suffice: the text fits and the clock stays within the budget.\<close>

lemma visit_swept: "sw_swept (visit p s (path, v)) = sw_swept s + int (length v)"
  by (simp add: visit_def Let_def case_prod_beta record_masked_def)

lemma visits_ok_within:
  "sw_swept s + int (sum_list (map (length \<circ> snd) xs)) \<le> po_maxInput p \<Longrightarrow> \<forall>k. since k \<le> po_budget p \<Longrightarrow>
    visits_ok since p s xs"
proof (induction xs arbitrary: s)
  case (Cons x xs)
  obtain path v where x: "x = (path, v)" by (cases x)
  have "0 \<le> int (sum_list (map (length \<circ> snd) xs))" by simp
  with Cons show ?case by (simp add: x visit_ok_def visit_swept)
qed simp

lemma visits_ok_bytes:
  "visits_ok since p s xs \<Longrightarrow> xs \<noteq> [] \<Longrightarrow> sw_swept s + int (sum_list (map (length \<circ> snd) xs)) \<le> po_maxInput p"
proof (induction xs arbitrary: s)
  case (Cons x xs)
  obtain path v where x: "x = (path, v)" by (cases x)
  show ?case
  proof (cases "xs = []")
    case True
    with Cons.prems show ?thesis by (simp add: x visit_ok_def)
  next
    case False
    with Cons.prems(1) Cons.IH [of "visit p s x"] show ?thesis by (simp add: x visit_swept)
  qed
qed simp

section \<open>What a report says\<close>

definition sweep_occ :: "sweep \<Rightarrow> string \<Rightarrow> uint32" where
  "sweep_occ s path = (case gomap_get (sw_counts s) path of None \<Rightarrow> 0 | Some e \<Rightarrow> ta_occurrences e)"

definition sweep_ids :: "sweep \<Rightarrow> string \<Rightarrow> string set" where
  "sweep_ids s path = (case gomap_get (sw_counts s) path of None \<Rightarrow> {} | Some e \<Rightarrow> set (gomap_keys (ta_rules e)))"

definition counts_wf :: "sweep \<Rightarrow> bool" where
  "counts_wf s \<longleftrightarrow> gomap_wf (sw_counts s) \<and> map (\<lambda>x. ta_order (snd x)) (sw_counts s) = [0..<sw_next s] \<and>
     (\<forall>path e. gomap_get (sw_counts s) path = Some e \<longrightarrow> gomap_wf (ta_rules e))"

lemma record_masked_facts:
  "sweep_occ (record_masked path n ids s) q = sweep_occ s q + (if q = path then n else 0)"
  "sweep_ids (record_masked path n ids s) q = sweep_ids s q \<union> (if q = path then set ids else {})"
  "gomap_has (sw_counts (record_masked path n ids s)) q \<longleftrightarrow> gomap_has (sw_counts s) q \<or> q = path"
  by (auto simp: sweep_occ_def sweep_ids_def record_masked_def gomap_get_set gomap_has_set set_keys_foldl_set
      split: option.splits)

lemma record_masked_wf:
  assumes "counts_wf s"
  shows "counts_wf (record_masked path n ids s)"
proof (cases "gomap_get (sw_counts s) path")
  case None
  then have "\<not> gomap_has (sw_counts s) path" by (simp add: gomap_has_get)
  with None assms show ?thesis
    by (auto simp: counts_wf_def record_masked_def gomap_get_set wf_foldl_set) (simp add: gomap_set_fresh)
next
  case (Some e)
  with assms show ?thesis
    by (auto simp: counts_wf_def record_masked_def map_gomap_set_same [OF Some] gomap_get_set wf_foldl_set)
qed

lemma visit_facts:
  "sweep_occ (visit p s (path, v)) q = sweep_occ s q + (if q = path then of_nat (fst (masked_event p path v)) else 0)"
  "sweep_ids (visit p s (path, v)) q = sweep_ids s q \<union> (if q = path then set (snd (masked_event p path v)) else {})"
  "gomap_has (sw_counts (visit p s (path, v))) q \<longleftrightarrow>
    gomap_has (sw_counts s) q \<or> q = path \<and> 0 < fst (masked_event p path v)"
  "counts_wf s \<Longrightarrow> counts_wf (visit p s (path, v))"
proof -
  let ?s = "s\<lparr>sw_swept := sw_swept s + int (length v), sw_reads := sw_reads s + (if always_masked p path then 1 else 2)\<rparr>"
  have eq: "sweep_occ ?s = sweep_occ s" "sweep_ids ?s = sweep_ids s" "counts_wf ?s = counts_wf s"
    by (simp_all add: fun_eq_iff sweep_occ_def sweep_ids_def counts_wf_def)
  have v: "visit p s (path, v) = (if 0 < fst (masked_event p path v)
      then record_masked path (of_nat (fst (masked_event p path v))) (snd (masked_event p path v)) ?s else ?s)"
    by (simp add: visit_def Let_def case_prod_beta)
  have ids: "fst (masked_event p path v) = 0 \<Longrightarrow> snd (masked_event p path v) = []"
    by (auto simp: masked_event_def masked_ids_count_0 split: if_splits)
  show "sweep_occ (visit p s (path, v)) q = sweep_occ s q + (if q = path then of_nat (fst (masked_event p path v)) else 0)"
    "sweep_ids (visit p s (path, v)) q = sweep_ids s q \<union> (if q = path then set (snd (masked_event p path v)) else {})"
    "gomap_has (sw_counts (visit p s (path, v))) q \<longleftrightarrow>
      gomap_has (sw_counts s) q \<or> q = path \<and> 0 < fst (masked_event p path v)"
    using ids by (auto simp: v record_masked_facts eq)
  show "counts_wf s \<Longrightarrow> counts_wf (visit p s (path, v))"
    by (simp add: v record_masked_wf eq)
qed

lemma visits_facts:
  "sweep_occ (foldl (visit p) s xs) q =
    sweep_occ s q + of_nat (sum_list (map (\<lambda>(path, v). if q = path then fst (masked_event p path v) else 0) xs))"
  "sweep_ids (foldl (visit p) s xs) q = sweep_ids s q \<union> (\<Union>(path, v) \<in> set xs. if q = path then set (snd (masked_event p path v)) else {})"
  "gomap_has (sw_counts (foldl (visit p) s xs)) q \<longleftrightarrow>
    gomap_has (sw_counts s) q \<or> (\<exists>(path, v) \<in> set xs. q = path \<and> 0 < fst (masked_event p path v))"
  "counts_wf s \<Longrightarrow> counts_wf (foldl (visit p) s xs)"
  by (induction xs arbitrary: s) (auto simp: visit_facts)

lemma counts_wf_new: "counts_wf new_sweep"
  by (simp add: counts_wf_def new_sweep_def)

lemma sort_counts:
  assumes "counts_wf s"
  shows "sort_slice (order_less (sw_counts s)) (gomap_keys (sw_counts s)) = gomap_keys (sw_counts s)"
proof (rule sort_slice_sorted)
  let ?c = "sw_counts s"
  have ord: "ta_order (snd (?c ! i)) = i" if "i < length ?c" for i
  proof -
    have "map (\<lambda>x. ta_order (snd x)) ?c ! i = [0..<sw_next s] ! i" using assms by (simp add: counts_wf_def)
    moreover have "length ?c = sw_next s"
      using assms unfolding counts_wf_def by (metis diff_zero length_map length_upt)
    ultimately show ?thesis using that by simp
  qed
  have get: "gomap_get ?c (fst (?c ! i)) = Some (snd (?c ! i))" if "i < length ?c" for i
    using assms that by (simp add: counts_wf_def gomap_wf_def gomap_get_def)
  show "sorted_wrt (\<lambda>a b. \<not> order_less ?c b a) (gomap_keys ?c)"
    by (simp add: sorted_wrt_iff_nth_less gomap_keys_def order_less_def get ord)
qed

lemma report_eq:
  assumes "counts_wf s"
  shows "report s = (if sw_counts s = [] then None
    else Some (map (\<lambda>path. \<lparr>rf_field_name = path, rf_masked_occurrence_count = sweep_occ s path,
      rf_rule_ids = sorted_map_keys (ta_rules (the (gomap_get (sw_counts s) path)))\<rparr>) (gomap_keys (sw_counts s))))"
proof -
  have "map (\<lambda>path. let entry = the (gomap_get (sw_counts s) path)
      in \<lparr>rf_field_name = path, rf_masked_occurrence_count = ta_occurrences entry,
          rf_rule_ids = sorted_map_keys (ta_rules entry)\<rparr>) (gomap_keys (sw_counts s)) =
    map (\<lambda>path. \<lparr>rf_field_name = path, rf_masked_occurrence_count = sweep_occ s path,
      rf_rule_ids = sorted_map_keys (ta_rules (the (gomap_get (sw_counts s) path)))\<rparr>) (gomap_keys (sw_counts s))"
    by (rule map_cong)
      (auto simp: Let_def sweep_occ_def gomap_has_None simp flip: gomap_has_iff_key split: option.splits)
  then show ?thesis unfolding report_def sort_counts [OF assms] by simp
qed

text \<open>A field of the report, and the list of them, against the values that were masked.\<close>

definition reported :: "Policy \<Rightarrow> (string \<times> string) list \<Rightarrow> string \<Rightarrow> bool" where
  "reported p xs path \<longleftrightarrow> list_ex (\<lambda>(q, v). q = path \<and> 0 < fst (masked_event p q v)) xs"

definition reported_count :: "Policy \<Rightarrow> (string \<times> string) list \<Rightarrow> string \<Rightarrow> nat" where
  "reported_count p xs path = sum_list (map (\<lambda>(q, v). if path = q then fst (masked_event p q v) else 0) xs)"

definition reported_ids :: "Policy \<Rightarrow> (string \<times> string) list \<Rightarrow> string \<Rightarrow> string set" where
  "reported_ids p xs path = (\<Union>(q, v) \<in> set xs. if path = q then set (snd (masked_event p q v)) else {})"

definition field_reports :: "Policy \<Rightarrow> (string \<times> string) list \<Rightarrow> RedactedField \<Rightarrow> bool" where
  "field_reports p xs f \<longleftrightarrow> reported p xs (rf_field_name f) \<and>
     rf_masked_occurrence_count f = of_nat (reported_count p xs (rf_field_name f)) \<and>
     sorted_wrt (<) (rf_rule_ids f) \<and> set (rf_rule_ids f) = reported_ids p xs (rf_field_name f)"

lemma new_sweep_facts [simp]:
  "sweep_occ new_sweep q = 0" "sweep_ids new_sweep q = {}" "sw_counts new_sweep = []"
  by (simp_all add: sweep_occ_def sweep_ids_def new_sweep_def)

lemma swept_state_facts:
  fixes p m
  defines "xs \<equiv> visited_message p [] m" and "s \<equiv> swept_state p m"
  shows "counts_wf s" "sweep_occ s q = of_nat (reported_count p xs q)" "sweep_ids s q = reported_ids p xs q"
    "gomap_has (sw_counts s) q \<longleftrightarrow> reported p xs q"
  using visits_facts(1-3) [of p new_sweep xs q] visits_facts(4) [OF counts_wf_new, of p xs]
  by (auto simp: s_def xs_def swept_state_def reported_count_def reported_ids_def reported_def list_ex_iff)

lemma report_field:
  assumes "f \<in> set fs" and "report (swept_state p m) = Some fs"
  shows "field_reports p (visited_message p [] m) f"
proof -
  let ?s = "swept_state p m" and ?xs = "visited_message p [] m"
  note facts = swept_state_facts [where p = p and m = m]
  obtain path where path: "gomap_has (sw_counts ?s) path"
    and f: "f = \<lparr>rf_field_name = path, rf_masked_occurrence_count = sweep_occ ?s path,
      rf_rule_ids = sorted_map_keys (ta_rules (the (gomap_get (sw_counts ?s) path)))\<rparr>"
    using assms report_eq [OF facts(1)] by (auto simp: gomap_has_iff_key split: if_splits)
  then obtain e where e: "gomap_get (sw_counts ?s) path = Some e" by (auto simp: gomap_has_get)
  have wf: "gomap_wf (ta_rules e)" using facts(1) e by (auto simp: counts_wf_def)
  have "set (sorted_map_keys (ta_rules e)) = reported_ids p ?xs path"
    using facts(3) [where q = path] e by (simp add: sorted_map_keys_def sweep_ids_def)
  moreover have "sorted_wrt (<) (sorted_map_keys (ta_rules e))"
    using wf by (simp add: sorted_map_keys_def gomap_wf_def gomap_keys_def sort_strings_strict)
  ultimately show ?thesis
    using facts(2,4) [where q = path] path e by (simp add: field_reports_def f)
qed

lemma report_fields:
  assumes "report (swept_state p m) = Some fs"
  shows "distinct (map rf_field_name fs) \<and>
    (\<forall>path. path \<in> rf_field_name ` set fs \<longleftrightarrow> reported p (visited_message p [] m) path)"
proof -
  let ?c = "sw_counts (swept_state p m)"
  note facts = swept_state_facts [where p = p and m = m]
  have names: "map rf_field_name fs = gomap_keys ?c"
    using assms report_eq [OF facts(1)] by (auto simp: comp_def split: if_splits)
  have "distinct (gomap_keys ?c)" using facts(1) by (simp add: counts_wf_def gomap_wf_def gomap_keys_def)
  moreover have "rf_field_name ` set fs = set (gomap_keys ?c)" using names by (metis set_map)
  ultimately show ?thesis using facts(4) by (simp add: names gomap_has_iff_key)
qed

lemma report_None: "report (swept_state p m) = None \<longleftrightarrow> (\<forall>path. \<not> reported p (visited_message p [] m) path)"
proof -
  have "sw_counts (swept_state p m) = [] \<longleftrightarrow> (\<forall>path. \<not> gomap_has (sw_counts (swept_state p m)) path)"
    by (cases "sw_counts (swept_state p m)") (auto simp: gomap_has_iff_key gomap_keys_def)
  then show ?thesis by (simp add: report_def swept_state_facts(4))
qed

section \<open>The enforcement point\<close>

lemma refusal_answers: "answers_for job (refusal job)"
  by (simp add: answers_for_def refusal_def)

lemma GetResult_refusal [simp]: "GetResult (refusal job) = None"
  by (simp add: GetResult_def refusal_def)

lemma set_payload_answers: "answers_for job r \<Longrightarrow> answers_for job (set_payload v r)"
  by (simp add: answers_for_def set_payload_def)

lemma GetResult_set_payload [simp]: "GetResult (set_payload v r) = Some v"
  by (simp add: GetResult_def set_payload_def)

lemma Enforcer_Execute_answers:
  assumes "\<exists>r. inner c job = Some r \<and> answers_for job r"
  shows "\<exists>r. Enforcer_Execute clock guard inner c job = Some r \<and> answers_for job r"
proof -
  obtain r where r: "inner c job = Some r" "answers_for job r" using assms by blast
  show ?thesis
  proof (cases "GetResult r")
    case None
    with r show ?thesis by (simp add: Enforcer_Execute_def refusal_answers)
  next
    case (Some v)
    with r show ?thesis
      using Sweep_no_panic [of "clock c" "effective_policy guard" v]
      by (auto simp: Enforcer_Execute_def refusal_answers set_payload_answers split: sum.splits sweep_error.splits)
  qed
qed

lemma Enforcer_Execute_payload:
  assumes "Enforcer_Execute clock guard inner c job = Some r" "GetResult r = Some v"
  obtains raw_result raw rep where "inner c job = Some raw_result" "GetResult raw_result = Some raw"
    "Sweep (clock c) (effective_policy guard) raw = Inr (rep, v)" "r = set_payload v raw_result"
  using assms
  by (auto simp: Enforcer_Execute_def split: if_splits option.splits sum.splits sweep_error.splits)

end
