(* ===== verification/Redaction_Properties.thy ===== *)
theory Redaction_Properties
  imports Redaction_Sweep
begin

text \<open>
  The properties of internal/redaction: what masking keeps and removes, what a customer policy can change,
  which results are swept, and what the enforcement point lets through.
\<close>

section \<open>Masking\<close>


text \<open>C31: merge (internal/redaction/rule.go) turns claims inside a text into spans that follow each other
  with at least one byte between them, cover exactly the bytes the claims cover, and carry together exactly
  the rules of the claims.\<close>

theorem redaction_merge_spans:
  assumes "list_all (wf_span n) claimed"
  shows "separated (merge_spans claimed) \<and> list_all (wf_span n) (merge_spans claimed) \<and>
    covered (merge_spans claimed) = covered claimed \<and>
    set (concat (map sp_rules (merge_spans claimed))) = set (concat (map sp_rules claimed))"
  using assms merge_spans_wf [of claimed n] merge_spans_covered [of claimed n]
  by (auto simp: list_all_iff fun_eq_iff merge_spans_separated merge_spans_rules simp del: set_concat)

definition example_claims :: "span list" where
  "example_claims =
     [\<lparr>sp_start = 4, sp_end = 6, sp_rules = [''b'']\<rparr>, \<lparr>sp_start = 0, sp_end = 2, sp_rules = [''a'']\<rparr>,
      \<lparr>sp_start = 2, sp_end = 3, sp_rules = [''c'']\<rparr>]"

theorem redaction_merge_spans_witness:
  "separated (merge_spans example_claims) \<and>
   merge_spans example_claims =
     [\<lparr>sp_start = 0, sp_end = 3, sp_rules = [''a'', ''c'']\<rparr>, \<lparr>sp_start = 4, sp_end = 6, sp_rules = [''b'']\<rparr>]"
proof
  have "list_all (wf_span 6) example_claims" by code_simp
  then show "separated (merge_spans example_claims)" using redaction_merge_spans by blast
qed code_simp

text \<open>The marker names the rule that claims leftmost, not the first of the policy's order.\<close>

lemma redaction_marker_leftmost_rule:
  "mask [\<lparr>ru_ID = ''first'', ru_pattern = R_Lit ''bc''\<rparr>, \<lparr>ru_ID = ''second'', ru_pattern = R_Lit ''ab''\<rparr>] ''abc'' =
    Some (''[redacted:second]'', 1, [''first'', ''second''])"
  by code_simp

text \<open>A pattern that matches nothing of the empty text but an empty span elsewhere is accepted.\<close>

lemma redaction_boundary_rule_accepted:
  "NewRule Some ''w'' R_WordBoundary = Inr \<lparr>ru_ID = ''w'', ru_pattern = R_WordBoundary\<rparr> \<and>
   mask [\<lparr>ru_ID = ''w'', ru_pattern = R_WordBoundary\<rparr>] ''ab'' = Some (''[redacted:w]ab[redacted:w]'', 2, [''w''])"
  by code_simp

section \<open>Policies\<close>

text \<open>C13: A customer policy that Parse (internal/redaction/parse.go) accepts only adds: its rules are the
  built-in rules followed by customer rules, none of which carries the reserved prefix or matches the empty
  text, all identifiers are distinct, every byte the defaults claim is still claimed, the bounds are positive
  and not above the defaults, and the categorically masked fields are the ones the document names, each a
  declared field of some capability result.\<close>

theorem redaction_policy_only_adds:
  assumes "Parse ps raw source = Inr p"
  shows "\<exists>doc extra. ps_decode ps raw = Yaml_Document doc \<and> po_rules p = po_rules Default @ extra \<and>
      list_all customer_rule extra \<and> distinct (Rules p) \<and> bounded_limits p \<and>
      (\<forall>v i. claimed_at (po_rules Default) v i \<longrightarrow> claimed_at (po_rules p) v i) \<and>
      (\<forall>path. always_masked p path \<longleftrightarrow> path \<in> TrimSpace ` set (do_MaskedFields doc)) \<and>
      (\<forall>path. always_masked p path \<longrightarrow> list_ex (\<lambda>f. fp_Declared f \<and> fp_Path f = path) FieldPaths)"
  using assms
proof (rule Parse_Inr)
  fix doc extra
  assume a: "ps_decode ps raw = Yaml_Document doc" "po_rules p = po_rules Default @ extra"
    "list_all customer_rule extra" "distinct (Rules p)" "bounded_limits p"
    "\<And>path. always_masked p path = (path \<in> TrimSpace ` set (do_MaskedFields doc))"
    "\<And>path. always_masked p path \<Longrightarrow> \<exists>f \<in> set FieldPaths. fp_Declared f \<and> fp_Path f = path"
  then show ?thesis
    by (intro exI [of _ doc] exI [of _ extra]) (simp add: claimed_at_append list_ex_iff)
qed

definition example_document :: document where
  "example_document = \<lparr>do_Version = 1, do_Patterns = [\<lparr>pe_ID = '' acme.key '', pe_Pattern = ''K''\<rparr>],
     do_MaskedFields = [], do_Limits = Some \<lparr>ld_SweepBudget = ''1s'', ld_MaxInputBytes = 1024\<rparr>\<rparr>"

definition example_parsers :: parsers where
  "example_parsers = \<lparr>ps_decode = (\<lambda>raw. Yaml_Document example_document), ps_more = (\<lambda>raw. False),
     ps_compile = (\<lambda>pattern. Some (R_Lit pattern)), ps_fmul = exact_fmul\<rparr>"

definition example_policy :: Policy where
  "example_policy = \<lparr>po_rules = po_rules Default @ [\<lparr>ru_ID = ''acme.key'', ru_pattern = R_Lit ''K''\<rparr>],
     po_alwaysMasked = [], po_budget = Second, po_maxInput = 1024, po_source = ''f''\<rparr>"

lemma example_addPatterns:
  "addPatterns (\<lambda>pattern. Some (R_Lit pattern)) (do_Patterns example_document) ''f'' (Default\<lparr>po_source := ''f''\<rparr>) =
    Inr (Default\<lparr>po_source := ''f'', po_rules := po_rules Default @ [\<lparr>ru_ID = ''acme.key'', ru_pattern = R_Lit ''K''\<rparr>]\<rparr>)"
  by code_simp

lemma example_lowerLimits:
  "lowerLimits exact_fmul (do_Limits example_document) ''f'' p = Inr (p\<lparr>po_budget := Second, po_maxInput := 1024\<rparr>)"
proof -
  have "ParseDuration exact_fmul ''1s'' = Some Second" by code_simp
  then show ?thesis
    by (simp add: example_document_def lowerLimits_def lowerBudget_def lowerMaxInput_def DefaultBudget_def
        DefaultMaxInputBytes_def Second_def)
qed

lemma example_Parse: "Parse example_parsers [] ''f'' = Inr example_policy"
proof -
  have "do_Version example_document = policyVersion" "do_MaskedFields example_document = []"
    by (simp_all add: example_document_def policyVersion_def)
  then show ?thesis
    using example_addPatterns example_lowerLimits
    by (simp add: Parse_def example_parsers_def addMaskedFields_def example_policy_def Default_def)
qed

theorem redaction_policy_only_adds_witness:
  "Parse example_parsers [] ''f'' = Inr example_policy \<and> bounded_limits example_policy"
  using redaction_policy_only_adds [OF example_Parse] example_Parse by blast


lemma carriesFreeText_other:
  "carriesFreeText capID version \<longleftrightarrow> (capID, version) \<noteq> (''kubernetes.workload.runtime'', 1)"
proof -
  have "carriesFreeText ''kubernetes.workload.runtime'' 1 = False"
    "carriesFreeText ''kubernetes.namespace.events'' 1 = True"
    "carriesFreeText ''kubernetes.container.logs'' 1 = True"
    by code_simp+
  moreover have "carriesFreeText capID version"
    if "(capID, version) \<notin> {(''kubernetes.workload.runtime'', 1), (''kubernetes.namespace.events'', 1), (''kubernetes.container.logs'', 1)}"
    using that by (auto simp: carriesFreeText_def capabilityResults_def)
  ultimately show ?thesis by (cases "(capID, version) \<in> {(''kubernetes.workload.runtime'', 1),
    (''kubernetes.namespace.events'', 1), (''kubernetes.container.logs'', 1)}") auto
qed

text \<open>C33: carriesFreeText (internal/redaction/declared.go) is false for the workload runtime capability at
  version 1 alone: every other capability and version, known to the build or not, is refused under a
  faulted policy.\<close>

theorem redaction_free_text_capabilities:
  "carriesFreeText capID version \<longleftrightarrow> (capID, version) \<noteq> (''kubernetes.workload.runtime'', 1)"
  by (rule carriesFreeText_other)

section \<open>The sweep\<close>

text \<open>C12: Policy.Sweep (internal/redaction/sweep.go) refines the pointwise reference. It succeeds exactly when
  every string field of the result is declared, no field is a map, and every swept value keeps the byte and
  time bounds; then the result is the original tree with each free-text or excluded string replaced by its
  masked form and everything else unchanged, carrying the report. It never panics.\<close>

theorem redaction_sweep_exact:
  "(Sweep since p m = Inr (rep, m') \<longleftrightarrow>
     classified_message m \<and> visits_ok since p new_sweep (visited_message p [] m) \<and>
     rep = report (swept_state p m) \<and> m' = set_redaction rep (redacted_message p [] m)) \<and>
   Sweep since p m \<noteq> Inl Sweep_Panic"
  using Sweep_no_panic by (auto simp: Sweep_eq)

text \<open>C23: Bounds of a sweep: one that succeeds has read at most the policy's byte bound, and one whose free
  text fits the bound, whose string fields are all declared and whose clock stays within the budget
  succeeds.\<close>

theorem redaction_sweep_bounds:
  fixes p m
  defines "bytes \<equiv> int (sum_list (map (length \<circ> snd) (visited_message p [] m)))"
  assumes "0 \<le> po_maxInput p"
  shows "(Sweep since p m = Inr r \<longrightarrow> bytes \<le> po_maxInput p) \<and>
    (classified_message m \<and> bytes \<le> po_maxInput p \<and> (\<forall>k. since k \<le> po_budget p) \<longrightarrow> (\<exists>r. Sweep since p m = Inr r))"
proof (intro conjI impI)
  assume "Sweep since p m = Inr r"
  then have "visits_ok since p new_sweep (visited_message p [] m)" by (simp add: Sweep_eq)
  then show "bytes \<le> po_maxInput p"
    using assms(2) visits_ok_bytes [of since p new_sweep "visited_message p [] m"]
    by (cases "visited_message p [] m = []") (auto simp: bytes_def new_sweep_def)
next
  assume a: "classified_message m \<and> bytes \<le> po_maxInput p \<and> (\<forall>k. since k \<le> po_budget p)"
  then have "visits_ok since p new_sweep (visited_message p [] m)"
    by (intro visits_ok_within) (simp_all add: bytes_def new_sweep_def)
  with a show "\<exists>r. Sweep since p m = Inr r" by (auto simp: Sweep_eq)
qed

definition example_log :: pmsg where
  "example_log = PMsg (pkg ''CapabilityResult'')
     [(''kubernetes_container_logs_v1'', PSub (PMsg (pkg ''KubernetesContainerLogsResultV1'')
        [(''outcome'', PScalar 1),
         (''lines'', PSubs [PMsg (pkg ''KubernetesLogLine'') [(''content'', PStr ''pwd=abcd ok'')],
                           PMsg (pkg ''KubernetesLogLine'') [(''content'', PStr ''fine'')]])]))]"

definition example_swept_log :: pmsg where
  "example_swept_log = PMsg (pkg ''CapabilityResult'')
     [(''redaction'', PSub (PMsg (pkg ''RedactionReport'') [(''fields'', PSubs [PMsg (pkg ''RedactedField'')
        [(''field_name'', PStr ''kubernetes_container_logs_v1.lines.content''),
         (''masked_occurrence_count'', PScalar 1),
         (''rule_ids'', PStrs [''builtin.credential_assignment''])]])])),
      (''kubernetes_container_logs_v1'', PSub (PMsg (pkg ''KubernetesContainerLogsResultV1'')
        [(''outcome'', PScalar 1),
         (''lines'', PSubs [PMsg (pkg ''KubernetesLogLine'')
                             [(''content'', PStr ''[redacted:builtin.credential_assignment] ok'')],
                           PMsg (pkg ''KubernetesLogLine'') [(''content'', PStr ''fine'')]])]))]"

definition example_report :: RedactionReport where
  "example_report = [\<lparr>rf_field_name = ''kubernetes_container_logs_v1.lines.content'',
     rf_masked_occurrence_count = 1, rf_rule_ids = [''builtin.credential_assignment'']\<rparr>]"

lemma example_Sweep: "Sweep (\<lambda>k. 0) Default example_log = Inr (Some example_report, example_swept_log)"
  by code_simp

theorem redaction_sweep_bounds_witness:
  "0 \<le> po_maxInput Default \<and> Sweep (\<lambda>k. 0) Default example_log = Inr (Some example_report, example_swept_log) \<and>
   int (sum_list (map (length \<circ> snd) (visited_message Default [] example_log))) \<le> po_maxInput Default"
proof -
  have "0 \<le> po_maxInput Default" by (simp add: Default_def DefaultMaxInputBytes_def)
  then show ?thesis using redaction_sweep_bounds [of Default "\<lambda>k. 0" example_log] example_Sweep by blast
qed

text \<open>C19: The report of a sweep (internal/redaction/sweep.go, report) says exactly what was masked: it is
  absent exactly when no value was masked, and otherwise it has one entry per field path with a masked
  value, with the number of masked occurrences (as a uint32) and the strictly sorted identifiers of all
  rules that claimed any of them.\<close>

theorem redaction_report_exact:
  assumes "Sweep since p m = Inr (rep, m')"
  shows "(rep = None \<longleftrightarrow> (\<forall>path. \<not> reported p (visited_message p [] m) path)) \<and>
    (\<forall>fs. rep = Some fs \<longrightarrow> distinct (map rf_field_name fs) \<and>
      (\<forall>path. path \<in> rf_field_name ` set fs \<longleftrightarrow> reported p (visited_message p [] m) path) \<and>
      list_all (field_reports p (visited_message p [] m)) fs)"
proof -
  have rep: "rep = report (swept_state p m)" using assms by (simp add: Sweep_eq)
  show ?thesis
    unfolding rep list_all_iff using report_None report_fields report_field by blast
qed

theorem redaction_report_exact_witness:
  "list_all (field_reports Default (visited_message Default [] example_log)) example_report"
  using redaction_report_exact [OF example_Sweep] by blast

section \<open>The enforcement point\<close>

text \<open>C4: Whatever capability payload leaves Enforcer.Execute (internal/redaction/enforcement.go) is the swept
  form of the payload the inner executor produced, under the loaded policy, or under the defaults when the
  guard holds a fault; the envelope is the inner executor's.\<close>

theorem redaction_enforced:
  assumes "Enforcer_Execute clock guard inner c job = Some r" and "GetResult r = Some v"
  shows "\<exists>raw_result raw rep. inner c job = Some raw_result \<and> GetResult raw_result = Some raw \<and>
    classified_message raw \<and> v = set_redaction rep (redacted_message (effective_policy guard) [] raw) \<and>
    r = set_payload v raw_result \<and>
    (gu_fault guard \<noteq> None \<longrightarrow> \<not> carriesFreeText (ja_capability_id job) (ja_capability_version job))"
proof -
  have g: "gu_fault guard \<noteq> None \<longrightarrow> \<not> carriesFreeText (ja_capability_id job) (ja_capability_version job)"
    using assms by (auto simp: Enforcer_Execute_def split: if_splits)
  show ?thesis
    by (rule Enforcer_Execute_payload [OF assms]) (use g in \<open>auto simp: Sweep_eq\<close>)
qed

definition example_logs_job :: JobAssignment where
  "example_logs_job = \<lparr>ja_job_id = ''j'', ja_org_id = ''o'', ja_registration_id = ''r'', ja_lease_epoch = 1,
     ja_capability_id = ''kubernetes.container.logs'', ja_capability_version = 1, ja_deadline_budget = 1,
     ja_arguments = None\<rparr>"

definition example_log_result :: "pmsg JobResult" where
  "example_log_result = \<lparr>jr_job_id = ''j'', jr_lease_epoch = 1,
     jr_outcome = Some (JobResult_Result example_log), jr_execution_duration_ms = 0\<rparr>"

lemma GetResult_example [simp]: "GetResult example_log_result = Some example_log"
  by (simp add: GetResult_def example_log_result_def)

lemma example_Enforcer:
  "Enforcer_Execute (\<lambda>_ _. 0) \<lparr>gu_policy = None, gu_fault = None\<rparr> (\<lambda>_ _. Some example_log_result) () example_logs_job =
    Some (set_payload example_swept_log example_log_result)"
  using example_Sweep by (simp add: Enforcer_Execute_def effective_policy_def)

theorem redaction_enforced_witness:
  "GetResult (set_payload example_swept_log example_log_result) = Some example_swept_log \<and>
   (\<exists>rep. example_swept_log = set_redaction rep (redacted_message Default [] example_log))"
  using redaction_enforced [OF example_Enforcer GetResult_set_payload]
  by (auto simp: effective_policy_def)

text \<open>C21: A guard whose configured policy is missing or faulty fails closed (internal/redaction/enforcement.go):
  Load yields a fault and no policy, and under it every capability but the workload runtime one is refused
  with the local-policy kind whatever the inner executor would do, so it is not consulted.\<close>

theorem redaction_fault_closed:
  assumes "path \<noteq> []" and "readFile path = None \<or> (\<exists>raw fault. readFile path = Some raw \<and> Parse ps raw path = Inl fault)"
    and "(ja_capability_id job, ja_capability_version job) \<noteq> (''kubernetes.workload.runtime'', 1)"
  shows "gu_policy (Load ps readFile path) = None \<and> gu_fault (Load ps readFile path) \<noteq> None \<and>
    Enforcer_Execute clock (Load ps readFile path) inner c job = Some (refusal job) \<and>
    failure_kind (refusal job :: pmsg JobResult) = KIND_LOCAL_POLICY_REFUSED"
proof -
  have "gu_policy (Load ps readFile path) = None \<and> gu_fault (Load ps readFile path) \<noteq> None"
    using assms(1,2) by (auto simp: Load_def)
  moreover have "carriesFreeText (ja_capability_id job) (ja_capability_version job)"
    using assms(3) by (simp add: carriesFreeText_other)
  ultimately show ?thesis
    by (simp add: Enforcer_Execute_def failure_kind_def refusal_def GetFailure_def)
qed

theorem redaction_fault_closed_witness:
  "Enforcer_Execute (\<lambda>_ _. 0) (Load example_parsers (\<lambda>_. None) ''missing'') (\<lambda>_ _. Some example_log_result) () example_logs_job =
    Some (refusal example_logs_job)"
proof -
  have "''missing'' \<noteq> []"
    "(\<lambda>_. None) ''missing'' = None \<or>
      (\<exists>raw fault. (\<lambda>_. None) ''missing'' = Some raw \<and> Parse example_parsers raw ''missing'' = Inl fault)"
    "(ja_capability_id example_logs_job, ja_capability_version example_logs_job) \<noteq> (''kubernetes.workload.runtime'', 1)"
    by (simp_all add: example_logs_job_def)
  from redaction_fault_closed [OF this, THEN conjunct2, THEN conjunct2, THEN conjunct1] show ?thesis .
qed

section \<open>The dry run\<close>


text \<open>Two spans on one line count once for their rule.\<close>

lemma redaction_dry_run_counts_lines:
  "map_option (\<lambda>pv. (pv_Occurrences pv, rule_count pv ''k''))
     (DryRun (Default\<lparr>po_rules := [\<lparr>ru_ID = ''k'', ru_pattern = R_Lit ''K''\<rparr>]\<rparr>) ''K K'') = Some (2, 1)"
  by code_simp

end
