(* ===== verification/Capability_Core.thy ===== *)
theory Capability_Core
  imports Go_Regexp Relay_Wire
begin

text \<open>
  internal/capabilities: what every capability obeys. The execution budget and the typed failures
  (budget.go), the caps on admitted strings (fieldcap.go), the identifier shapes (identifier.go), the local
  policy (policy.go) and the registry (registry.go).
\<close>

section \<open>Budget\<close>

record Reading =
  re_Result :: CapabilityResult
  re_Reached :: bool

text \<open>
  What the contexts say when the read has returned: \<open>ctx_cancelled\<close> is ctx.Err() of the job context,
  \<open>budget_expired\<close> whether the derived timeout ran out, which it can only when there is one.
\<close>

record exec_context =
  ctx_cancelled :: bool
  budget_expired :: bool

definition Failure :: "JobAssignment \<Rightarrow> JobFailure_Kind \<Rightarrow> 'p JobResult" where
  "Failure job kind = \<lparr>jr_job_id = ja_job_id job, jr_lease_epoch = ja_lease_epoch job,
     jr_outcome = Some (JobResult_Failure \<lparr>jf_kind = kind, jf_detail = []\<rparr>),
     jr_execution_duration_ms = 0\<rparr>"

definition Run :: "'a exec_context_scheme \<Rightarrow> JobAssignment \<Rightarrow> Reading \<Rightarrow> CapabilityResult JobResult" where
  "Run ctx job reading =
     (if ctx_cancelled ctx then Failure job KIND_CANCELLED
      else if (ja_deadline_budget job > 0 \<and> budget_expired ctx) \<and> \<not> re_Reached reading
      then Failure job KIND_TIMEOUT
      else \<lparr>jr_job_id = ja_job_id job, jr_lease_epoch = ja_lease_epoch job,
            jr_outcome = Some (JobResult_Result (re_Result reading)), jr_execution_duration_ms = 0\<rparr>)"

section \<open>Caps on admitted strings\<close>

definition MaxIdentifierChars :: nat where "MaxIdentifierChars = 253"
definition MaxReasonChars :: nat where "MaxReasonChars = 128"
definition MaxImageChars :: nat where "MaxImageChars = 256"
definition MaxQuantityChars :: nat where "MaxQuantityChars = 32"
definition MaxMessageChars :: nat where "MaxMessageChars = 1024"
definition MaxLogLineChars :: nat where "MaxLogLineChars = 8192"

lemmas cap_consts = MaxIdentifierChars_def MaxReasonChars_def MaxImageChars_def MaxQuantityChars_def
  MaxMessageChars_def MaxLogLineChars_def

definition CapChars :: "string \<Rightarrow> nat \<Rightarrow> string" where
  "CapChars value maxChars =
     (if length value \<le> maxChars then value
      else let rs = runes value in
        if length rs \<le> maxChars then value else string_of_runes (take maxChars rs))"

definition CapIdentifier :: "string \<Rightarrow> string" where "CapIdentifier value = CapChars value MaxIdentifierChars"
definition CapReason :: "string \<Rightarrow> string" where "CapReason value = CapChars value MaxReasonChars"
definition CapImage :: "string \<Rightarrow> string" where "CapImage value = CapChars value MaxImageChars"
definition CapQuantity :: "string \<Rightarrow> string" where "CapQuantity value = CapChars value MaxQuantityChars"
definition CapMessage :: "string \<Rightarrow> string" where "CapMessage value = CapChars value MaxMessageChars"
definition CapLogLine :: "string \<Rightarrow> string" where "CapLogLine value = CapChars value MaxLogLineChars"

section \<open>Identifiers\<close>

definition lower_digit :: "(int \<times> int) list" where "lower_digit = [(97, 122), (48, 57)]"

definition label_body :: regex where
  "label_body = R_Cat (R_Class False lower_digit)
     (R_Quest (R_Cat (R_Star True (R_Class False ((45, 45) # lower_digit))) (R_Class False lower_digit)))"

definition dns1123Label :: regex where
  "dns1123Label = R_Cat R_Begin (R_Cat label_body R_End)"

definition dns1123Subdomain :: regex where
  "dns1123Subdomain = R_Cat R_Begin
     (R_Cat label_body (R_Cat (R_Star True (R_Cat (R_Class False [(46, 46)]) label_body)) R_End))"

definition kindLiteral :: regex where
  "kindLiteral = R_Cat R_Begin (R_Cat (R_Class False [(65, 90), (97, 122)])
     (R_Cat (R_Star True (R_Class False [(65, 90), (97, 122), (48, 57)])) R_End))"

definition uidLiteral :: regex where
  "uidLiteral = R_Cat R_Begin (R_Cat (R_Plus (R_Class False [(97, 122), (65, 90), (48, 57), (45, 45)])) R_End)"

definition maxNamespaceChars :: nat where "maxNamespaceChars = 63"

definition ValidNamespace :: "string \<Rightarrow> bool" where
  "ValidNamespace value \<longleftrightarrow> 0 < length value \<and> length value \<le> maxNamespaceChars \<and> MatchString dns1123Label value"

definition ValidObjectName :: "string \<Rightarrow> bool" where
  "ValidObjectName value \<longleftrightarrow>
     0 < length value \<and> length value \<le> MaxIdentifierChars \<and> MatchString dns1123Subdomain value"

definition ValidContainerName :: "string \<Rightarrow> bool" where
  "ValidContainerName value \<longleftrightarrow> 0 < length value \<and> length value \<le> maxNamespaceChars \<and> MatchString dns1123Label value"

definition ValidKind :: "string \<Rightarrow> bool" where
  "ValidKind value \<longleftrightarrow> 0 < length value \<and> length value \<le> maxNamespaceChars \<and> MatchString kindLiteral value"

definition ValidUID :: "string \<Rightarrow> bool" where
  "ValidUID value \<longleftrightarrow> 0 < length value \<and> length value \<le> MaxIdentifierChars \<and> MatchString uidLiteral value"

section \<open>Local policy\<close>

record LocalPolicy =
  lp_AllowedNamespaces :: "(string, bool) gomap"

definition AllowsNamespace :: "LocalPolicy \<Rightarrow> string \<Rightarrow> bool" where
  "AllowsNamespace p namespace \<longleftrightarrow>
     length (lp_AllowedNamespaces p) = 0 \<or> gomap_get (lp_AllowedNamespaces p) namespace = Some True"

definition Lower :: "uint32 \<Rightarrow> int \<Rightarrow> int \<Rightarrow> int \<Rightarrow> int" where
  "Lower dispatched localCap minimum maximum =
     (let e0 = uint dispatched;
          e1 = (if e0 < minimum then minimum else e0);
          e2 = (if e1 > maximum then maximum else e1)
      in if localCap > 0 \<and> localCap < e2 then localCap else e2)"

section \<open>Registry\<close>

type_synonym registered = "string \<times> uint32"

type_synonym ('c, 'p) Registry = "(registered, ('c, 'p) executor) gomap"

definition NewRegistry :: "('c, 'p) Registry" where
  "NewRegistry = []"

definition Register :: "CapabilityDescriptor \<Rightarrow> ('c, 'p) executor \<Rightarrow> ('c, 'p) Registry \<Rightarrow> ('c, 'p) Registry" where
  "Register descriptor execute r =
     gomap_set (cd_capability_id descriptor, cd_capability_version descriptor) execute r"

definition descriptor_less :: "CapabilityDescriptor \<Rightarrow> CapabilityDescriptor \<Rightarrow> bool" where
  "descriptor_less a b =
     (if cd_capability_id a = cd_capability_id b then cd_capability_version a < cd_capability_version b
      else cd_capability_id a < cd_capability_id b)"

definition Descriptors :: "('c, 'p) Registry \<Rightarrow> CapabilityDescriptor list" where
  "Descriptors r = sort_slice descriptor_less
     (map (\<lambda>(capID, version). \<lparr>cd_capability_id = capID, cd_capability_version = version\<rparr>) (gomap_keys r))"

definition Registry_Execute :: "('c, 'p) Registry \<Rightarrow> ('c, 'p) executor" where
  "Registry_Execute r c job =
     (case gomap_get r (ja_capability_id job, ja_capability_version job) of
        None \<Rightarrow> Some (Failure job KIND_UNSUPPORTED_CAPABILITY_VERSION)
      | Some execute \<Rightarrow> execute c job)"

section \<open>Facts about failures and results\<close>

lemma Failure_answers: "answers_for job (Failure job kind)"
  by (simp add: answers_for_def Failure_def)

lemma Failure_kind [simp]: "failure_kind (Failure job kind) = kind" "GetResult (Failure job kind) = None"
  by (simp_all add: failure_kind_def GetFailure_def GetResult_def Failure_def)

lemma Run_answers: "answers_for job (Run ctx job reading)"
  by (simp add: answers_for_def Run_def Failure_def)

lemma GetResult_Run:
  "GetResult (Run ctx job reading) = Some r \<Longrightarrow> r = re_Result reading \<and> \<not> ctx_cancelled ctx"
  by (auto simp: Run_def GetResult_def Failure_def split: if_splits)

section \<open>Facts about caps\<close>

lemma list_all_valid_runes: "list_all valid_rune (take n (runes v))"
  using runes_are_valid by (auto simp: list_all_iff dest: in_set_takeD)

lemma length_runes_le: "length (runes v) \<le> length v"
  by (simp add: runes_def length_rune_chunks_le)

lemma CapChars_runes: "runes (CapChars v n) = take n (runes v)"
proof -
  have "length (runes v) \<le> n" if "length v \<le> n" using that length_runes_le [of v] by simp
  then show ?thesis
    by (auto simp: CapChars_def Let_def runes_string_of_runes list_all_valid_runes)
qed

lemma CapChars_bytes:
  assumes "valid_utf8 v \<or> n < length (runes v)"
  shows "length (CapChars v n) \<le> 4 * n"
proof -
  have "length (string_of_runes (take n (runes v))) \<le> 4 * length (take n (runes v))"
    by (rule length_string_of_runes_le) (rule list_all_valid_runes)
  also have "\<dots> \<le> 4 * n" by simp
  finally have le: "length (string_of_runes (take n (runes v))) \<le> 4 * n" .
  show ?thesis
  proof (cases "length (runes v) \<le> n")
    case True
    then have "string_of_runes (take n (runes v)) = v" using assms string_of_runes_id by auto
    with le True show ?thesis by (auto simp: CapChars_def Let_def)
  next
    case False
    with le show ?thesis by (simp add: CapChars_def Let_def)
  qed
qed

lemma CapChars_prefix:
  assumes "valid_utf8 v"
  shows "prefix (CapChars v n) v"
proof (cases "length v \<le> n \<or> length (runes v) \<le> n")
  case True
  then show ?thesis by (auto simp: CapChars_def Let_def)
next
  case False
  then have c: "CapChars v n = string_of_runes (take n (runes v))" by (simp add: CapChars_def Let_def)
  have "string_of_runes (take n (runes v)) @ string_of_runes (drop n (runes v)) = v"
    using string_of_runes_id [OF assms] unfolding string_of_runes_def
    by (simp only: map_append [symmetric] concat_append [symmetric] append_take_drop_id)
  then show ?thesis unfolding c by (metis prefixI)
qed

section \<open>Facts about identifiers\<close>

definition label_end :: "int \<Rightarrow> bool" where
  "label_end r \<longleftrightarrow> 97 \<le> r \<and> r \<le> 122 \<or> 48 \<le> r \<and> r \<le> 57"

definition label_rune :: "int \<Rightarrow> bool" where
  "label_rune r \<longleftrightarrow> label_end r \<or> r = 45"

lemma in_ranges_label: "in_ranges c lower_digit = label_end c" "in_ranges c ((45, 45) # lower_digit) = label_rune c"
  by (auto simp: in_ranges_def lower_digit_def label_end_def label_rune_def)

lemma label_body_ends:
  assumes "i < length rs" "i \<le> j"
  shows "j \<in> set (ends rs label_body i) \<longleftrightarrow>
    label_end (rs ! i) \<and> i < j \<and> j \<le> length rs \<and> spelled label_rune rs i j \<and> label_end (rs ! (j - 1))"
proof -
  have star: "m \<in> set (star_ends (ends rs (R_Class False ((45, 45) # lower_digit))) True (length rs - Suc i) (Suc i)) \<longleftrightarrow>
      Suc i \<le> m \<and> m \<le> length rs \<and> spelled label_rune rs (Suc i) m" for m
    using star_class_mem [of "Suc i" rs "length rs - Suc i" m False "(45, 45) # lower_digit" True] assms(1)
    by (simp add: in_ranges_label)
  have "j \<in> set (ends rs label_body i) \<longleftrightarrow> label_end (rs ! i) \<and>
      (j = Suc i \<or> (\<exists>m. Suc i \<le> m \<and> m < length rs \<and> spelled label_rune rs (Suc i) m \<and> label_end (rs ! m) \<and> j = Suc m))"
    using assms(1) star unfolding label_body_def R_Quest_def
    by (auto simp: in_ranges_label simp del: star_ends.simps split: if_splits)
  also have "\<dots> \<longleftrightarrow> label_end (rs ! i) \<and> i < j \<and> j \<le> length rs \<and> spelled label_rune rs i j \<and> label_end (rs ! (j - 1))"
    (is "?L \<longleftrightarrow> ?R")
  proof
    assume ?L
    then show ?R
      using assms(1) by (auto simp: spelled_def label_rune_def less_Suc_eq) (metis Suc_leI le_neq_implies_less)
  next
    assume R: ?R
    show ?L
    proof (cases "j = Suc i")
      case False
      with R have "Suc i \<le> j - 1" "j - 1 < length rs" "spelled label_rune rs (Suc i) (j - 1)" "j = Suc (j - 1)"
        by (auto simp: spelled_def)
      with R show ?thesis by blast
    qed (use R in simp)
  qed
  finally show ?thesis .
qed

lemma full_match_label:
  "full_match rs label_body \<longleftrightarrow> rs \<noteq> [] \<and> label_end (hd rs) \<and> label_end (last rs) \<and> list_all label_rune rs"
proof (cases "rs = []")
  case True
  then show ?thesis by (simp add: full_match_def label_body_def)
next
  case False
  then show ?thesis
    using label_body_ends [of 0 rs "length rs"]
    by (auto simp: full_match_def hd_conv_nth last_conv_nth list_all_length spelled_def)
qed

definition dns_label :: "string \<Rightarrow> bool" where
  "dns_label s \<longleftrightarrow> s \<noteq> [] \<and> list_all (\<lambda>c. label_rune (byte c)) s \<and> label_end (byte (hd s)) \<and> label_end (byte (last s))"

lemma label_rune_ascii: "label_rune r \<Longrightarrow> r < 128"
  by (auto simp: label_rune_def label_end_def)

lemma runes_map_byte:
  assumes "\<And>r. P r \<Longrightarrow> r < 128"
  shows "list_all P (runes s) \<longleftrightarrow> list_all (\<lambda>c. P (byte c)) s"
    and "list_all (\<lambda>c. P (byte c)) s \<Longrightarrow> runes s = map byte s"
proof -
  show "list_all P (runes s) \<longleftrightarrow> list_all (\<lambda>c. P (byte c)) s"
  proof
    assume a: "list_all P (runes s)"
    then have "list_all (\<lambda>r. r < 128) (runes s)" using assms by (auto simp: list_all_iff)
    from runes_ascii_only [OF this] a show "list_all (\<lambda>c. P (byte c)) s" by (auto simp: list_all_iff)
  next
    assume a: "list_all (\<lambda>c. P (byte c)) s"
    then have "list_all (\<lambda>c. byte c < 128) s" using assms by (auto simp: list_all_iff)
    from runes_ascii [OF this] a show "list_all P (runes s)" by (auto simp: list_all_iff)
  qed
  assume "list_all (\<lambda>c. P (byte c)) s"
  then have "list_all (\<lambda>c. byte c < 128) s" using assms by (auto simp: list_all_iff)
  then show "runes s = map byte s" by (rule runes_ascii)
qed

lemma MatchString_label: "MatchString dns1123Label s \<longleftrightarrow> dns_label s"
proof -
  have "MatchString dns1123Label s \<longleftrightarrow> full_match (runes s) label_body"
    unfolding dns1123Label_def by (rule MatchString_anchored)
  also have "\<dots> \<longleftrightarrow> list_all (\<lambda>c. label_rune (byte c)) s \<and>
      (runes s \<noteq> [] \<and> label_end (hd (runes s)) \<and> label_end (last (runes s)))"
    using runes_map_byte(1) [of label_rune s, OF label_rune_ascii] unfolding full_match_label by blast
  also have "\<dots> \<longleftrightarrow> dns_label s"
    using runes_map_byte(2) [of label_rune s, OF label_rune_ascii]
    by (cases "list_all (\<lambda>c. label_rune (byte c)) s") (auto simp: dns_label_def hd_map last_map)
  finally show ?thesis .
qed

text \<open>No validated identifier has a byte with a meaning in a selector.\<close>

definition plain_rune :: "int \<Rightarrow> bool" where
  "plain_rune r \<longleftrightarrow> label_rune r \<or> r = 46 \<or> 65 \<le> r \<and> r \<le> 90"

definition plain :: "string \<Rightarrow> bool" where
  "plain s \<longleftrightarrow> s \<noteq> [] \<and> list_all (\<lambda>c. plain_rune (byte c)) s"

lemma plain_from_match:
  assumes "MatchString (R_Cat R_Begin (R_Cat r R_End)) s" "\<And>c. consumes r c \<Longrightarrow> plain_rune c" "0 < length s"
  shows "plain s"
proof -
  have "list_all plain_rune (runes s)"
    using full_match_consumes [of "runes s" r] assms(1,2) by (auto simp: MatchString_anchored list_all_iff)
  then have "list_all (\<lambda>c. plain_rune (byte c)) s"
    by (subst (asm) runes_map_byte(1)) (auto simp: plain_rune_def label_rune_def label_end_def)
  with assms(3) show ?thesis by (auto simp: plain_def)
qed

lemma find_from_assoc: "MatchString (R_Cat R_Begin (R_Cat r (R_Cat q R_End))) s \<longleftrightarrow> MatchString (R_Cat R_Begin (R_Cat (R_Cat r q) R_End)) s"
  unfolding MatchString_def find_from_begin
  by (auto simp: concat_eq_Nil_conv split: if_splits)

lemma valid_plain:
  "ValidNamespace s \<Longrightarrow> plain s" "ValidObjectName s \<Longrightarrow> plain s" "ValidContainerName s \<Longrightarrow> plain s"
  "ValidKind s \<Longrightarrow> plain s" "ValidUID s \<Longrightarrow> plain s"
  unfolding ValidNamespace_def ValidObjectName_def ValidContainerName_def ValidKind_def ValidUID_def
    dns1123Label_def dns1123Subdomain_def kindLiteral_def uidLiteral_def find_from_assoc
  by (auto elim!: plain_from_match simp: label_body_def R_Quest_def R_Plus_def in_ranges_label plain_rune_def label_rune_def)
    (auto simp: in_ranges_def plain_rune_def label_rune_def label_end_def)

section \<open>Facts about bounds and the registry\<close>

lemma Lower_bounds:
  assumes "0 < minimum" "minimum \<le> maximum"
  shows "0 < Lower d cap minimum maximum" "Lower d cap minimum maximum \<le> maximum"
    "0 < cap \<Longrightarrow> Lower d cap minimum maximum \<le> cap"
    "Lower d cap minimum maximum \<le> max (uint d) minimum"
  using assms by (auto simp: Lower_def Let_def)

interpretation descriptors: slice_total_order descriptor_less
  by unfold_locales (auto simp: descriptor_less_def split: if_splits)

lemma Registry_Execute_answers:
  assumes "\<And>k e. gomap_get r k = Some e \<Longrightarrow> \<exists>res. e c job = Some res \<and> answers_for job res"
  shows "\<exists>res. Registry_Execute r c job = Some res \<and> answers_for job res"
  using assms [of "(ja_capability_id job, ja_capability_version job)"] Failure_answers
  by (auto simp: Registry_Execute_def split: option.splits)

definition registering :: "(CapabilityDescriptor \<times> ('c, 'p) executor) list \<Rightarrow> ('c, 'p) Registry" where
  "registering xs = fold (\<lambda>(d, e). Register d e) xs NewRegistry"

definition descriptor_of :: "JobAssignment \<Rightarrow> CapabilityDescriptor" where
  "descriptor_of job = \<lparr>cd_capability_id = ja_capability_id job, cd_capability_version = ja_capability_version job\<rparr>"

lemma registering_get:
  "gomap_get (registering xs) (cd_capability_id d, cd_capability_version d) = map_of (rev xs) d"
proof (induction xs rule: rev_induct)
  case Nil
  then show ?case by (simp add: registering_def NewRegistry_def)
next
  case (snoc x xs)
  then show ?case
    by (cases x; cases d) (auto simp: registering_def Register_def gomap_simps)
qed

lemma registering_wf: "gomap_wf (registering xs)"
  by (induction xs rule: rev_induct) (auto simp: registering_def NewRegistry_def Register_def split: prod.splits)

lemma Descriptors_registering: "set (Descriptors (registering xs)) = fst ` set xs"
proof -
  have "d \<in> set (Descriptors (registering xs)) \<longleftrightarrow> gomap_has (registering xs) (cd_capability_id d, cd_capability_version d)" for d
    by (cases d) (force simp: Descriptors_def gomap_has_iff_key)
  then show ?thesis
    by (force simp: gomap_has_None registering_get map_of_eq_None_iff)
qed

lemma Descriptors_sorted:
  assumes "gomap_wf r"
  shows "sorted_wrt descriptor_less (Descriptors r)"
proof -
  have "inj (\<lambda>(capID, version). \<lparr>cd_capability_id = capID, cd_capability_version = version\<rparr>)"
    by (auto intro!: injI)
  moreover have "distinct (gomap_keys r)" using assms by (simp add: gomap_wf_def gomap_keys_def)
  ultimately show ?thesis
    unfolding Descriptors_def by (intro descriptors.strictly_sorted) (auto simp: distinct_map inj_on_def)
qed

lemma Descriptors_order:
  assumes "mset r = mset r'"
  shows "Descriptors r = Descriptors r'"
proof -
  from assms have "mset (gomap_keys r) = mset (gomap_keys r')" by (simp add: gomap_keys_def)
  then show ?thesis unfolding Descriptors_def by (intro descriptors.order_independent) simp
qed

end
