(* ===== verification/Go_Time.thy ===== *)
theory Go_Time
  imports Go_Strconv
begin

text \<open>
  What the program uses of package time: instants in nanoseconds since the Unix epoch, the zero time of
  year 1, and time.Parse with the layout RFC3339Nano.
\<close>

section \<open>Instants\<close>

definition zero_time :: int where
  "zero_time = - 62135596800 * Second"

definition IsZero :: "int \<Rightarrow> bool" where
  "IsZero t \<longleftrightarrow> t = zero_time"

text \<open>timestamppb: AsTime of a nil timestamp is the Unix epoch.\<close>

definition AsTime :: "int option \<Rightarrow> int" where
  "AsTime t = (case t of None \<Rightarrow> 0 | Some i \<Rightarrow> i)"

section \<open>Calendar dates\<close>

definition leap :: "int \<Rightarrow> bool" where
  "leap y \<longleftrightarrow> y mod 4 = 0 \<and> (y mod 100 \<noteq> 0 \<or> y mod 400 = 0)"

definition days_in :: "int \<Rightarrow> int \<Rightarrow> int" where
  "days_in m y =
     (if m = 2 then (if leap y then 29 else 28)
      else if m = 4 \<or> m = 6 \<or> m = 9 \<or> m = 11 then 30 else 31)"

definition days_before :: "int \<Rightarrow> int \<Rightarrow> int" where
  "days_before m y = sum_list (map (\<lambda>k. days_in k y) [1..m - 1])"

text \<open>Days from 1970-01-01 to a date of the proleptic Gregorian calendar.\<close>

definition epoch_days :: "int \<Rightarrow> int \<Rightarrow> int \<Rightarrow> int" where
  "epoch_days y m d =
     365 * (y - 1970) + ((y - 1) div 4 - (y - 1) div 100 + (y - 1) div 400 - 477) + days_before m y + d - 1"

section \<open>Parsing\<close>

text \<open>getnum: two digits, or one where the layout allows it.\<close>

definition getnum :: "string \<Rightarrow> bool \<Rightarrow> (int \<times> string) option" where
  "getnum s fixed =
     (if s = [] \<or> \<not> is_digit (hd s) then None
      else if length s < 2 \<or> \<not> is_digit (s ! 1)
      then (if fixed then None else Some (digit_val (hd s), tl s))
      else Some (10 * digit_val (hd s) + digit_val (s ! 1), drop 2 s))"

definition skip :: "char \<Rightarrow> string \<Rightarrow> string option" where
  "skip c s = (if s \<noteq> [] \<and> hd s = c then Some (tl s) else None)"

text \<open>The element 2006: four bytes, the first a digit, read by atoi.\<close>

definition get_year :: "string \<Rightarrow> (int \<times> string) option" where
  "get_year s =
     (if length s < 4 \<or> \<not> list_all is_digit (take 4 s) then None else Some (decimal (take 4 s), drop 4 s))"

text \<open>The element .999999999: an optional fraction, of which nine digits count.\<close>

definition get_fraction :: "string \<Rightarrow> int \<times> string" where
  "get_fraction s =
     (if length s < 2 \<or> \<not> (hd s = CHR ''.'' \<or> hd s = CHR '','') \<or> \<not> is_digit (s ! 1) then (0, s)
      else let ds = takeWhile is_digit (tl s); n = min 9 (length ds)
           in (decimal (take n ds) * 10 ^ (9 - n), drop (length ds) (tl s)))"

text \<open>The element Z07:00: the offset in seconds.\<close>

definition get_zone :: "string \<Rightarrow> (int \<times> string) option" where
  "get_zone s =
     (if s \<noteq> [] \<and> hd s = CHR ''Z'' then Some (0, tl s)
      else if length s < 6 \<or> s ! 3 \<noteq> CHR '':'' then None
      else case (getnum (take 2 (drop 1 s)) True, getnum (take 2 (drop 4 s)) True) of
        (Some (hr, _), Some (mm, _)) \<Rightarrow>
          if hr > 24 \<or> mm > 60 then None
          else if hd s = CHR ''+'' then Some ((hr * 60 + mm) * 60, drop 6 s)
          else if hd s = CHR ''-'' then Some (- ((hr * 60 + mm) * 60), drop 6 s)
          else None
      | _ \<Rightarrow> None)"

definition in_range :: "int \<Rightarrow> int \<Rightarrow> (int \<times> string) option \<Rightarrow> (int \<times> string) option" where
  "in_range lo hi x = (case x of None \<Rightarrow> None | Some (n, s) \<Rightarrow> if lo \<le> n \<and> n \<le> hi then x else None)"

definition parse_date :: "string \<Rightarrow> ((int \<times> int \<times> int) \<times> string) option" where
  "parse_date s0 =
     (case get_year s0 of None \<Rightarrow> None | Some (y, s1) \<Rightarrow>
      (case skip CHR ''-'' s1 of None \<Rightarrow> None | Some s2 \<Rightarrow>
      (case in_range 1 12 (getnum s2 True) of None \<Rightarrow> None | Some (m, s3) \<Rightarrow>
      (case skip CHR ''-'' s3 of None \<Rightarrow> None | Some s4 \<Rightarrow>
      (case in_range 1 (days_in m y) (getnum s4 True) of None \<Rightarrow> None | Some (d, s5) \<Rightarrow>
       Some ((y, m, d), s5))))))"

definition parse_clock :: "string \<Rightarrow> (int \<times> string) option" where
  "parse_clock s0 =
     (case in_range 0 23 (getnum s0 False) of None \<Rightarrow> None | Some (h, s1) \<Rightarrow>
      (case skip CHR '':'' s1 of None \<Rightarrow> None | Some s2 \<Rightarrow>
      (case in_range 0 59 (getnum s2 True) of None \<Rightarrow> None | Some (mi, s3) \<Rightarrow>
      (case skip CHR '':'' s3 of None \<Rightarrow> None | Some s4 \<Rightarrow>
      (case in_range 0 59 (getnum s4 True) of None \<Rightarrow> None | Some (sec, s5) \<Rightarrow>
       Some ((h * 60 + mi) * 60 + sec, s5))))))"

definition parse_RFC3339Nano :: "string \<Rightarrow> int option" where
  "parse_RFC3339Nano s =
     (case parse_date s of None \<Rightarrow> None | Some ((y, m, d), s1) \<Rightarrow>
      (case skip CHR ''T'' s1 of None \<Rightarrow> None | Some s2 \<Rightarrow>
      (case parse_clock s2 of None \<Rightarrow> None | Some (secs, s3) \<Rightarrow>
       let (nsec, s4) = get_fraction s3 in
       (case get_zone s4 of None \<Rightarrow> None | Some (offset, s5) \<Rightarrow>
         if s5 \<noteq> [] then None
         else Some ((epoch_days y m d * 86400 + secs - offset) * Second + nsec)))))"

end
