(* ===== verification/Kube_Port.thy ===== *)
theory Kube_Port
  imports Go_Time Go_Strings Relay_Prelude
begin

text \<open>
  internal/kube: the read-only Kubernetes port (port.go) and its client-go implementation (clientgo.go).

  A Kubernetes object is a record of the fields the program reads. The API server is a parameter, the record
  \<open>kube_api\<close>: what each typed call answers. A quantity is the text its String method gives, and an instant
  (metav1.Time) is a Go instant with the zero time for an absent value.
\<close>

section \<open>Kubernetes objects\<close>

type_synonym go_time = int
type_synonym ResourceList = "(string, string) gomap"

record EnvVar =
  ev_Name :: string
  ev_ConfigMapKeyRef :: "string option"
  ev_SecretKeyRef :: "string option"

record EnvFrom =
  ef_ConfigMapRef :: "string option"
  ef_SecretRef :: "string option"

record Container =
  co_Name :: string
  co_Image :: string
  co_Requests :: ResourceList
  co_Limits :: ResourceList
  co_Env :: "EnvVar list"
  co_EnvFrom :: "EnvFrom list"

record VolumeSource =
  vs_ConfigMap :: "string option"
  vs_Secret :: "string option"

record Volume =
  vo_Source :: VolumeSource
  vo_Projected :: "VolumeSource list option"

text \<open>\<open>sp_other\<close> stands for the fields of a pod spec that are only ever digested.\<close>

record PodSpec =
  sp_InitContainers :: "Container list"
  sp_Containers :: "Container list"
  sp_EphemeralContainers :: "string list"
  sp_NodeName :: string
  sp_Volumes :: "Volume list"
  sp_ImagePullSecrets :: "string list"
  sp_other :: string

record ContainerStateTerminated =
  tm_Reason :: string
  tm_ExitCode :: int
  tm_FinishedAt :: go_time

record ContainerState =
  cs_Running :: "go_time option"
  cs_Terminated :: "ContainerStateTerminated option"
  cs_Waiting :: "string option"

record ContainerStatus =
  ct_Name :: string
  ct_Image :: string
  ct_Ready :: bool
  ct_RestartCount :: int
  ct_State :: ContainerState
  ct_LastTerminationState :: ContainerState

record PodCondition =
  pc_Type :: string
  pc_Status :: string
  pc_Reason :: string

record Pod =
  pd_Name :: string
  pd_Spec :: PodSpec
  pd_Phase :: string
  pd_StartTime :: "go_time option"
  pd_Conditions :: "PodCondition list"
  pd_ContainerStatuses :: "ContainerStatus list"
  pd_InitContainerStatuses :: "ContainerStatus list"
  pd_EphemeralContainerStatuses :: "ContainerStatus list"

record LabelSelectorRequirement =
  lq_Key :: string
  lq_Operator :: string
  lq_Values :: "string list"

record LabelSelector =
  ls_MatchLabels :: "(string, string) gomap"
  ls_MatchExpressions :: "LabelSelectorRequirement list"

record ObjectMeta =
  om_Name :: string
  om_Namespace :: string
  om_UID :: string
  om_Generation :: int
  om_CreationTimestamp :: go_time
  om_Annotations :: "(string, string) gomap"

text \<open>Deployment and StatefulSet have the same shape; a DaemonSet has its counters in the status only.\<close>

record Workload =
  wl_Meta :: ObjectMeta
  wl_Template :: PodSpec
  wl_Selector :: "LabelSelector option"
  wl_Replicas :: "int option"
  wl_Ready :: int
  wl_Updated :: int
  wl_Available :: int
  wl_ObservedGeneration :: int

record DaemonSet =
  ds_Meta :: ObjectMeta
  ds_Template :: PodSpec
  ds_Selector :: "LabelSelector option"
  ds_DesiredNumberScheduled :: int
  ds_NumberReady :: int
  ds_UpdatedNumberScheduled :: int
  ds_NumberAvailable :: int
  ds_ObservedGeneration :: int

record InvolvedObject =
  iv_Kind :: string
  iv_Name :: string
  iv_UID :: string

record Event =
  en_Type :: string
  en_Reason :: string
  en_Message :: string
  en_InvolvedObject :: InvolvedObject
  en_Component :: string
  en_Count :: int
  en_FirstTimestamp :: go_time
  en_LastTimestamp :: go_time
  en_EventTime :: go_time

section \<open>Outcomes and errors\<close>

datatype ReadOutcome =
  OutcomeSuccess | OutcomeUnreachable | OutcomeUnauthorized | OutcomeWorkloadNotFound
| OutcomeNamespaceNotFound | OutcomeSelectorUnrepresentable | OutcomePodNotFound

text \<open>
  An error of the port: a ReadError with its outcome, a context error passed through, or the plain error
  of a refused unbounded read. \<open>api_error\<close> is what client-go answers, by what errors.Is and apierrors
  recognise.
\<close>

datatype kube_error = ReadError ReadOutcome | ContextError | RefusedRead

datatype api_error = Api_Context | Api_NotFound | Api_Unauthorized | Api_Forbidden | Api_Other

definition mapReadErrorAs :: "api_error \<Rightarrow> ReadOutcome \<Rightarrow> kube_error" where
  "mapReadErrorAs err notFound =
     (case err of
        Api_Context \<Rightarrow> ContextError
      | Api_NotFound \<Rightarrow> ReadError notFound
      | Api_Unauthorized \<Rightarrow> ReadError OutcomeUnauthorized
      | Api_Forbidden \<Rightarrow> ReadError OutcomeUnauthorized
      | Api_Other \<Rightarrow> ReadError OutcomeUnreachable)"

definition mapReadError :: "api_error \<Rightarrow> kube_error" where
  "mapReadError err = mapReadErrorAs err OutcomeWorkloadNotFound"

text \<open>errors.As to a ReadError, in each executor.\<close>

definition outcomeOf :: "kube_error \<Rightarrow> ReadOutcome" where
  "outcomeOf err = (case err of ReadError outcome \<Rightarrow> outcome | _ \<Rightarrow> OutcomeUnreachable)"

section \<open>The API\<close>

record LogRequest =
  lg_Namespace :: string
  lg_Pod :: string
  lg_Container :: string
  lg_Previous :: bool
  lg_TailLines :: int
  lg_ReadCeiling :: int
  lg_Since :: go_time

record LogRead =
  ld_Raw :: string
  ld_Truncated :: bool

record PodLogOptions =
  lo_Container :: string
  lo_Previous :: bool
  lo_Timestamps :: bool
  lo_TailLines :: int
  lo_LimitBytes :: int
  lo_SinceTime :: "go_time option"

text \<open>
  A list answers its items and the continuation token. A log stream gives bytes and ends normally or with
  an error. \<open>api_selector\<close> is the text of a fields.Set as a selector.
\<close>

record kube_api =
  api_deployment :: "string \<Rightarrow> string \<Rightarrow> api_error + Workload"
  api_statefulset :: "string \<Rightarrow> string \<Rightarrow> api_error + Workload"
  api_daemonset :: "string \<Rightarrow> string \<Rightarrow> api_error + DaemonSet"
  api_pod :: "string \<Rightarrow> string \<Rightarrow> api_error + Pod"
  api_pods :: "string \<Rightarrow> string \<Rightarrow> int \<Rightarrow> api_error + (Pod list \<times> string)"
  api_events :: "string \<Rightarrow> string option \<Rightarrow> int \<Rightarrow> api_error + (Event list \<times> string)"
  api_logs :: "string \<Rightarrow> string \<Rightarrow> PodLogOptions \<Rightarrow> api_error + (string \<times> api_error option)"
  api_namespace :: "string \<Rightarrow> api_error + string"
  api_selector :: "(string, string) gomap \<Rightarrow> string"

section \<open>The reader\<close>

record PodPage =
  pp_Pods :: "Pod list"
  pp_Truncated :: bool

record EventPage =
  ep_Events :: "Event list"
  ep_Truncated :: bool

definition map_err :: "(api_error \<Rightarrow> kube_error) \<Rightarrow> api_error + 'a \<Rightarrow> kube_error + 'a" where
  "map_err f x = (case x of Inl e \<Rightarrow> Inl (f e) | Inr a \<Rightarrow> Inr a)"

definition GetDeployment :: "kube_api \<Rightarrow> string \<Rightarrow> string \<Rightarrow> kube_error + Workload" where
  "GetDeployment api namespace name = map_err mapReadError (api_deployment api namespace name)"

definition GetStatefulSet :: "kube_api \<Rightarrow> string \<Rightarrow> string \<Rightarrow> kube_error + Workload" where
  "GetStatefulSet api namespace name = map_err mapReadError (api_statefulset api namespace name)"

definition GetDaemonSet :: "kube_api \<Rightarrow> string \<Rightarrow> string \<Rightarrow> kube_error + DaemonSet" where
  "GetDaemonSet api namespace name = map_err mapReadError (api_daemonset api namespace name)"

definition GetPod :: "kube_api \<Rightarrow> string \<Rightarrow> string \<Rightarrow> kube_error + Pod" where
  "GetPod api namespace name = map_err (\<lambda>e. mapReadErrorAs e OutcomePodNotFound) (api_pod api namespace name)"

definition ListPods :: "kube_api \<Rightarrow> string \<Rightarrow> string \<Rightarrow> int \<Rightarrow> kube_error + PodPage" where
  "ListPods api namespace selector limit =
     (if TrimSpace selector = [] then Inl (ReadError OutcomeSelectorUnrepresentable)
      else if limit < 1 then Inl RefusedRead
      else case api_pods api namespace selector limit of
        Inl err \<Rightarrow> Inl (mapReadError err)
      | Inr (items, continue) \<Rightarrow> Inr \<lparr>pp_Pods = items, pp_Truncated = (continue \<noteq> [])\<rparr>)"

definition IsZeroObject :: "InvolvedObject \<Rightarrow> bool" where
  "IsZeroObject obj \<longleftrightarrow> iv_Kind obj = [] \<and> iv_Name obj = [] \<and> iv_UID obj = []"

definition involvedObjectSelector :: "kube_api \<Rightarrow> InvolvedObject \<Rightarrow> string" where
  "involvedObjectSelector api involved =
     (if IsZeroObject involved then []
      else let s0 = [];
               s1 = (if iv_Kind involved \<noteq> [] then gomap_set ''involvedObject.kind'' (iv_Kind involved) s0 else s0);
               s2 = (if iv_Name involved \<noteq> [] then gomap_set ''involvedObject.name'' (iv_Name involved) s1 else s1);
               s3 = (if iv_UID involved \<noteq> [] then gomap_set ''involvedObject.uid'' (iv_UID involved) s2 else s2)
           in api_selector api s3)"

definition ListEvents :: "kube_api \<Rightarrow> string \<Rightarrow> InvolvedObject \<Rightarrow> int \<Rightarrow> kube_error + EventPage" where
  "ListEvents api namespace involved limit =
     (if limit < 1 then Inl RefusedRead
      else let selector = involvedObjectSelector api involved in
        case api_events api namespace (if selector \<noteq> [] then Some selector else None) limit of
          Inl err \<Rightarrow> Inl (mapReadError err)
        | Inr (items, continue) \<Rightarrow> Inr \<lparr>ep_Events = items, ep_Truncated = (continue \<noteq> [])\<rparr>)"

text \<open>io.ReadAll over a LimitReader: at most that many bytes, an error only when the stream fails before.\<close>

definition read_limited :: "int \<Rightarrow> string \<times> api_error option \<Rightarrow> api_error + string" where
  "read_limited limit stream =
     (let (bytes, err) = stream in
      if int (length bytes) \<ge> limit then Inr (take (nat limit) bytes)
      else case err of None \<Rightarrow> Inr bytes | Some e \<Rightarrow> Inl e)"

definition ContainerLogs :: "kube_api \<Rightarrow> LogRequest \<Rightarrow> kube_error + LogRead" where
  "ContainerLogs api request =
     (if lg_TailLines request < 1 \<or> lg_ReadCeiling request < 1 then Inl RefusedRead
      else let probe = wrap64 (lg_ReadCeiling request + 1);
               options = \<lparr>lo_Container = lg_Container request, lo_Previous = lg_Previous request,
                 lo_Timestamps = True, lo_TailLines = lg_TailLines request, lo_LimitBytes = probe,
                 lo_SinceTime = (if IsZero (lg_Since request) then None else Some (lg_Since request))\<rparr>
           in case api_logs api (lg_Namespace request) (lg_Pod request) options of
                Inl err \<Rightarrow> Inl (mapReadError err)
              | Inr stream \<Rightarrow>
                  (case read_limited probe stream of
                     Inl err \<Rightarrow> Inl (mapReadError err)
                   | Inr raw \<Rightarrow>
                       if int (length raw) > lg_ReadCeiling request
                       then Inr \<lparr>ld_Raw = take (nat (lg_ReadCeiling request)) raw, ld_Truncated = True\<rparr>
                       else Inr \<lparr>ld_Raw = raw, ld_Truncated = False\<rparr>))"

definition ClusterFingerprint :: "kube_api \<Rightarrow> kube_error + string" where
  "ClusterFingerprint api = map_err mapReadError (api_namespace api ''kube-system'')"

section \<open>What the port promises\<close>

text \<open>
  The reader interfaces and their laws: a log read obeys its ceiling and says when it was cut, a list is
  never issued without a selector or a limit.
\<close>

locale log_reader =
  fixes container_logs :: "LogRequest \<Rightarrow> kube_error + LogRead"
  assumes within_ceiling: "container_logs req = Inr r \<Longrightarrow> int (length (ld_Raw r)) \<le> lg_ReadCeiling req"
    and bounded_request: "container_logs req = Inr r \<Longrightarrow> 1 \<le> lg_TailLines req \<and> 1 \<le> lg_ReadCeiling req"
    and truncated_full: "container_logs req = Inr r \<Longrightarrow> ld_Truncated r \<Longrightarrow> int (length (ld_Raw r)) = lg_ReadCeiling req"
begin

lemma fetched_at_most: "container_logs req = Inr r \<Longrightarrow> lg_ReadCeiling req \<le> n \<Longrightarrow> int (length (ld_Raw r)) \<le> n"
  using within_ceiling by force

end

lemma read_limited_length: "read_limited n s = Inr raw \<Longrightarrow> 0 \<le> n \<Longrightarrow> int (length raw) \<le> n"
  by (auto simp: read_limited_def split: prod.splits if_splits option.splits)

interpretation reader_logs: log_reader "ContainerLogs api"
  by unfold_locales (auto simp: ContainerLogs_def Let_def split: if_splits sum.splits prod.splits)

lemma ListPods_Inr:
  assumes "ListPods api namespace selector limit = Inr page"
  shows "TrimSpace selector \<noteq> [] \<and> 1 \<le> limit \<and>
    (\<exists>continue. api_pods api namespace selector limit = Inr (pp_Pods page, continue) \<and> pp_Truncated page = (continue \<noteq> []))"
  using assms by (auto simp: ListPods_def split: if_splits sum.splits)

lemma ListEvents_Inr:
  assumes "ListEvents api namespace involved limit = Inr page"
  shows "1 \<le> limit \<and> (\<exists>continue. api_events api namespace
      (if involvedObjectSelector api involved \<noteq> [] then Some (involvedObjectSelector api involved) else None) limit =
        Inr (ep_Events page, continue) \<and> ep_Truncated page = (continue \<noteq> []))"
  using assms by (auto simp: ListEvents_def Let_def split: if_splits sum.splits)

end
