(* ===== verification/Cap_Logs.thy ===== *)
theory Cap_Logs
  imports Capability_Core Kube_Port
begin

text \<open>
  internal/capabilities/kubernetes/logs/executor.go: the container log read. Its context is \<open>world\<close>, what
  the outside contributes to one execution of a capability: the state of the contexts when the read
  returns, the API server, the clock, and the iteration orders of Go maps.
\<close>

record world = exec_context +
  wo_api :: kube_api
  wo_now :: int
  wo_read_at :: int
  wo_order :: "nat \<Rightarrow> (string \<times> string) list \<Rightarrow> (string \<times> string) list"
  wo_since :: "nat \<Rightarrow> int"

section \<open>The registered identity\<close>

definition LogsCapabilityID :: string where
  "LogsCapabilityID = ''kubernetes.container.logs''"

definition LogsCapabilityVersion :: uint32 where
  "LogsCapabilityVersion = 1"

definition LogsDescriptor :: CapabilityDescriptor where
  "LogsDescriptor = \<lparr>cd_capability_id = LogsCapabilityID, cd_capability_version = LogsCapabilityVersion\<rparr>"

section \<open>Bounds and options\<close>

definition MinLogLines :: int where "MinLogLines = 10"
definition MaxLogLines :: int where "MaxLogLines = 2000"
definition MinLogBytes :: int where "MinLogBytes = 4 * 1024"
definition MaxLogBytes :: int where "MaxLogBytes = 256 * 1024"
definition readOverdraft :: int where "readOverdraft = 4"
definition maxReadCeiling :: int where "maxReadCeiling = 4 * 1024 * 1024"

lemmas log_consts = MinLogLines_def MaxLogLines_def MinLogBytes_def MaxLogBytes_def readOverdraft_def
  maxReadCeiling_def

record LogsOptions =
  lx_Policy :: LocalPolicy
  lx_LocalMaxLines :: int
  lx_LocalMaxBytes :: int

definition fetchCeiling :: "int \<Rightarrow> int" where
  "fetchCeiling byteBound =
     (let ceiling = wrap64 (byteBound * readOverdraft)
      in if ceiling > maxReadCeiling then maxReadCeiling else ceiling)"

definition sinceFrom :: "timestamp option \<Rightarrow> go_time" where
  "sinceFrom since = (case since of None \<Rightarrow> zero_time | Some t \<Rightarrow> t)"

section \<open>Resolving the container\<close>

definition declaresContainer :: "Pod \<Rightarrow> string \<Rightarrow> bool" where
  "declaresContainer pod name \<longleftrightarrow>
     list_ex (\<lambda>c. co_Name c = name) (sp_Containers (pd_Spec pod)) \<or>
     list_ex (\<lambda>c. co_Name c = name) (sp_InitContainers (pd_Spec pod)) \<or>
     list_ex (\<lambda>c. c = name) (sp_EphemeralContainers (pd_Spec pod))"

definition hasPreviousInstance :: "Pod \<Rightarrow> string \<Rightarrow> bool" where
  "hasPreviousInstance pod name =
     (case find (\<lambda>status. ct_Name status = name)
        (pd_ContainerStatuses pod @ pd_InitContainerStatuses pod @ pd_EphemeralContainerStatuses pod) of
        None \<Rightarrow> False
      | Some status \<Rightarrow> cs_Terminated (ct_LastTerminationState status) \<noteq> None)"

text \<open>\<open>Inl\<close> is the refusal with its outcome.\<close>

definition resolveContainer :: "Pod \<Rightarrow> string \<Rightarrow> bool \<Rightarrow> KubernetesLogsOutcome + unit" where
  "resolveContainer pod container previous =
     (if \<not> declaresContainer pod container then Inl LOGS_CONTAINER_NOT_FOUND
      else if previous \<and> \<not> hasPreviousInstance pod container then Inl LOGS_PREVIOUS_CONTAINER_NOT_FOUND
      else Inr ())"

section \<open>Lines\<close>

record line =
  li_at :: go_time
  li_content :: string
  li_bytes :: int

definition carriage_return :: char where "carriage_return = CHR 0x0D"

definition splitTimestamp :: "string \<Rightarrow> go_time \<times> string" where
  "splitTimestamp entry =
     (case Cut entry '' '' of
        (before, rest, found) \<Rightarrow>
          if \<not> found then (zero_time, entry)
          else case parse_RFC3339Nano before of
            None \<Rightarrow> (zero_time, entry)
          | Some at \<Rightarrow> (at, rest))"

definition drop_last_fragment :: "bool \<Rightarrow> string list \<Rightarrow> string list" where
  "drop_last_fragment truncated split =
     (if split \<noteq> [] \<and> last split = [] then butlast split
      else if split \<noteq> [] \<and> truncated then butlast split
      else split)"

definition parse_entry :: "string \<Rightarrow> line" where
  "parse_entry entry =
     (case splitTimestamp entry of
        (at, content) \<Rightarrow>
          \<lparr>li_at = at, li_content = CapLogLine content, li_bytes = int (length (CapLogLine content))\<rparr>)"

definition parseLines :: "LogRead \<Rightarrow> line list" where
  "parseLines r =
     map parse_entry (filter (\<lambda>entry. entry \<noteq> [])
       (map (\<lambda>entry. TrimSuffix entry [carriage_return])
         (drop_last_fragment (ld_Truncated r) (Split (ld_Raw r) [newline]))))"

record boundedLines =
  bl_lines :: "KubernetesLogLine list"
  bl_returnedBytes :: int
  bl_withheldBytes :: int
  bl_byLines :: bool
  bl_byBytes :: bool

text \<open>
  The backwards walk over the kept lines, newest first: the total, how many lines were taken, and whether
  it stopped.
\<close>

fun take_newest :: "int \<Rightarrow> int \<Rightarrow> nat \<Rightarrow> line list \<Rightarrow> int \<times> nat \<times> bool" where
  "take_newest byteBound tot taken [] = (tot, taken, False)"
| "take_newest byteBound tot taken (l # older) =
     (if tot + li_bytes l > byteBound then (tot, taken, True)
      else take_newest byteBound (tot + li_bytes l) (Suc taken) older)"

definition emit :: "line \<Rightarrow> KubernetesLogLine" where
  "emit l = \<lparr>ll_at = (if IsZero (li_at l) then None else Some (li_at l)), ll_content = li_content l\<rparr>"

definition sum_bytes :: "line list \<Rightarrow> int" where
  "sum_bytes ls = sum_list (map li_bytes ls)"

definition applyBounds :: "line list \<Rightarrow> bool \<Rightarrow> int \<Rightarrow> int \<Rightarrow> boundedLines" where
  "applyBounds parsed fetchTruncated lineBound byteBound =
     (let over = int (length parsed) > lineBound;
          cut = (if over then nat (int (length parsed) - lineBound) else 0);
          keep = drop cut parsed;
          (tot, taken, stopped) = take_newest byteBound 0 0 (rev keep);
          first = length keep - taken
      in \<lparr>bl_lines = map emit (drop first keep), bl_returnedBytes = tot,
          bl_withheldBytes = sum_bytes (take cut parsed) + sum_bytes (take first keep),
          bl_byLines = over, bl_byBytes = (fetchTruncated \<or> stopped)\<rparr>)"

section \<open>The executor\<close>

definition logs_validArgs :: "KubernetesContainerLogsArgsV1 option \<Rightarrow> bool" where
  "logs_validArgs args =
     (case args of
        None \<Rightarrow> False
      | Some a \<Rightarrow> ValidNamespace (la_namespace a) \<and> ValidObjectName (la_pod_name a) \<and>
          ValidContainerName (la_container_name a))"

definition logs_wireOutcome :: "ReadOutcome \<Rightarrow> KubernetesLogsOutcome" where
  "logs_wireOutcome outcome =
     (case outcome of
        OutcomeSuccess \<Rightarrow> LOGS_SUCCESS
      | OutcomeUnauthorized \<Rightarrow> LOGS_UNAUTHORIZED
      | OutcomePodNotFound \<Rightarrow> LOGS_POD_NOT_FOUND
      | OutcomeWorkloadNotFound \<Rightarrow> LOGS_POD_NOT_FOUND
      | OutcomeNamespaceNotFound \<Rightarrow> LOGS_POD_NOT_FOUND
      | _ \<Rightarrow> LOGS_UNREACHABLE)"

definition logs_basis :: "int \<Rightarrow> int \<Rightarrow> KubernetesLogsOutcome \<Rightarrow> KubernetesContainerLogsResultV1" where
  "logs_basis lineBound byteBound outcome = \<lparr>lr_outcome = outcome, lr_lines = [], lr_returned_line_count = 0,
     lr_returned_byte_count = 0, lr_complete = False, lr_truncated_by_line_bound = False,
     lr_truncated_by_byte_bound = False, lr_withheld_byte_count = 0, lr_read_at = None,
     lr_applied_max_lines = of_int lineBound, lr_applied_max_bytes = of_int byteBound\<rparr>"

definition logs_request :: "KubernetesContainerLogsArgsV1 \<Rightarrow> int \<Rightarrow> int \<Rightarrow> LogRequest" where
  "logs_request args lineBound byteBound =
     \<lparr>lg_Namespace = la_namespace args, lg_Pod = la_pod_name args, lg_Container = la_container_name args,
      lg_Previous = la_previous args, lg_TailLines = wrap64 (lineBound + 1),
      lg_ReadCeiling = fetchCeiling byteBound, lg_Since = sinceFrom (la_since_time args)\<rparr>"

definition logs_read :: "LogsOptions \<Rightarrow> world \<Rightarrow> KubernetesContainerLogsArgsV1 \<Rightarrow> KubernetesContainerLogsResultV1" where
  "logs_read options c args =
     (let lineBound = Lower (la_max_lines args) (lx_LocalMaxLines options) MinLogLines MaxLogLines;
          byteBound = Lower (la_max_bytes args) (lx_LocalMaxBytes options) MinLogBytes MaxLogBytes;
          basis = logs_basis lineBound byteBound
      in case GetPod (wo_api c) (la_namespace args) (la_pod_name args) of
           Inl err \<Rightarrow> basis (logs_wireOutcome (outcomeOf err))
         | Inr pod \<Rightarrow>
             (case resolveContainer pod (la_container_name args) (la_previous args) of
                Inl outcome \<Rightarrow> basis outcome
              | Inr _ \<Rightarrow>
                  (case ContainerLogs (wo_api c) (logs_request args lineBound byteBound) of
                     Inl err \<Rightarrow> basis (logs_wireOutcome (outcomeOf err))
                   | Inr r \<Rightarrow>
                       let bounded = applyBounds (parseLines r) (ld_Truncated r) lineBound byteBound
                       in (basis LOGS_SUCCESS)\<lparr>lr_lines := bl_lines bounded,
                            lr_returned_line_count := wrap32 (int (length (bl_lines bounded))),
                            lr_returned_byte_count := bl_returnedBytes bounded,
                            lr_truncated_by_line_bound := bl_byLines bounded,
                            lr_truncated_by_byte_bound := bl_byBytes bounded,
                            lr_withheld_byte_count := bl_withheldBytes bounded,
                            lr_complete := (\<not> bl_byLines bounded \<and> \<not> bl_byBytes bounded),
                            lr_read_at := Some (wo_read_at c)\<rparr>)))"

definition GetKubernetesContainerLogsV1 :: "CapabilityArguments option \<Rightarrow> KubernetesContainerLogsArgsV1 option" where
  "GetKubernetesContainerLogsV1 args =
     (case args of Some (Args_KubernetesContainerLogsV1 a) \<Rightarrow> Some a | _ \<Rightarrow> None)"

definition logs_Execute :: "LogsOptions \<Rightarrow> (world, CapabilityResult) executor" where
  "logs_Execute options c job =
     (let args = GetKubernetesContainerLogsV1 (ja_arguments job) in
      if \<not> logs_validArgs args then Some (Failure job KIND_ARGUMENTS_REJECTED)
      else if \<not> AllowsNamespace (lx_Policy options) (la_namespace (the args))
      then Some (Failure job KIND_LOCAL_POLICY_REFUSED)
      else let result = logs_read options c (the args)
           in Some (Run c job
                \<lparr>re_Result = \<lparr>cr_redaction = None, cr_result = Result_KubernetesContainerLogsV1 result\<rparr>,
                 re_Reached = (lr_outcome result \<noteq> LOGS_UNREACHABLE)\<rparr>))"

section \<open>The newest lines that fit\<close>

lemma sum_bytes_simps [simp]:
  "sum_bytes [] = 0" "sum_bytes (l # ls) = li_bytes l + sum_bytes ls" "sum_bytes (xs @ ys) = sum_bytes xs + sum_bytes ys"
  "sum_bytes (rev xs) = sum_bytes xs"
  by (simp_all add: sum_bytes_def rev_map [symmetric])

lemma take_newest_spec:
  "take_newest B tot n xs = (tot', n', stopped) \<Longrightarrow> tot \<le> B \<Longrightarrow>
    \<exists>k \<le> length xs. n' = n + k \<and> tot' = tot + sum_bytes (take k xs) \<and> tot' \<le> B \<and>
      (stopped \<longleftrightarrow> k < length xs) \<and> (stopped \<longrightarrow> tot' + li_bytes (xs ! k) > B)"
proof (induction xs arbitrary: tot n)
  case (Cons x xs)
  show ?case
  proof (cases "tot + li_bytes x > B")
    case True
    with Cons.prems show ?thesis by (intro exI [of _ 0]) auto
  next
    case False
    with Cons.prems have "take_newest B (tot + li_bytes x) (Suc n) xs = (tot', n', stopped)" by simp
    from Cons.IH [OF this] False obtain k where "k \<le> length xs" "n' = Suc n + k"
        "tot' = tot + li_bytes x + sum_bytes (take k xs)" "tot' \<le> B" "stopped \<longleftrightarrow> k < length xs"
        "stopped \<longrightarrow> tot' + li_bytes (xs ! k) > B" by auto
    then show ?thesis by (intro exI [of _ "Suc k"]) simp
  qed
qed simp

text \<open>The reference: the longest end of the log that keeps both bounds.\<close>

definition newest_fitting :: "line list \<Rightarrow> int \<Rightarrow> int \<Rightarrow> line list \<Rightarrow> line list \<Rightarrow> bool" where
  "newest_fitting parsed lineBound byteBound dropped kept \<longleftrightarrow>
     parsed = dropped @ kept \<and> int (length kept) \<le> lineBound \<and> sum_bytes kept \<le> byteBound \<and>
     (dropped \<noteq> [] \<longrightarrow> int (length kept) = lineBound \<or> li_bytes (last dropped) + sum_bytes kept > byteBound)"

lemma applyBounds_spec:
  assumes "0 \<le> lineBound" "0 \<le> byteBound"
  obtains dropped kept where "newest_fitting parsed lineBound byteBound dropped kept"
    "bl_lines (applyBounds parsed ft lineBound byteBound) = map emit kept"
    "bl_returnedBytes (applyBounds parsed ft lineBound byteBound) = sum_bytes kept"
    "bl_withheldBytes (applyBounds parsed ft lineBound byteBound) = sum_bytes dropped"
    "bl_byLines (applyBounds parsed ft lineBound byteBound) \<longleftrightarrow> int (length parsed) > lineBound"
    "bl_byBytes (applyBounds parsed ft lineBound byteBound) \<longleftrightarrow>
      ft \<or> dropped \<noteq> [] \<and> int (length kept) < min lineBound (int (length parsed))"
proof -
  define cut where "cut = (if int (length parsed) > lineBound then nat (int (length parsed) - lineBound) else 0)"
  define keep where "keep = drop cut parsed"
  obtain tot n stopped where tn: "take_newest byteBound 0 0 (rev keep) = (tot, n, stopped)"
    by (cases "take_newest byteBound 0 0 (rev keep)")
  from take_newest_spec [OF tn assms(2)] have n: "n \<le> length keep" "tot = sum_bytes (take n (rev keep))"
    "tot \<le> byteBound" "stopped \<longleftrightarrow> n < length keep" "stopped \<longrightarrow> tot + li_bytes (rev keep ! n) > byteBound" by auto
  define dropped kept where dk: "dropped = take cut parsed @ take (length keep - n) keep" "kept = drop (length keep - n) keep"
  have ab: "applyBounds parsed ft lineBound byteBound =
      \<lparr>bl_lines = map emit kept, bl_returnedBytes = tot,
       bl_withheldBytes = sum_bytes (take cut parsed) + sum_bytes (take (length keep - n) keep),
       bl_byLines = (int (length parsed) > lineBound), bl_byBytes = (ft \<or> stopped)\<rparr>"
    unfolding applyBounds_def Let_def cut_def [symmetric] keep_def [symmetric] tn by (simp add: dk)
  have len: "int (length keep) = min lineBound (int (length parsed))" "length kept = n"
    using assms(1) n(1) by (auto simp: keep_def cut_def dk)
  have tot: "tot = sum_bytes kept" using n(2) by (simp add: dk take_rev)
  have last: "last dropped = rev keep ! n" if "n < length keep"
  proof -
    have ne: "take (length keep - n) keep \<noteq> []" using that by auto
    then have "last dropped = last (take (length keep - n) keep)" by (simp add: dk)
    also have "\<dots> = keep ! (length keep - Suc n)" using that ne by (simp add: last_conv_nth)
    finally show ?thesis using that by (simp add: rev_nth)
  qed
  have ne: "dropped \<noteq> [] \<longleftrightarrow> 0 < cut \<and> parsed \<noteq> [] \<or> n < length keep" using n(1) by (auto simp: dk)
  have "parsed = take cut parsed @ keep" by (simp add: keep_def)
  then have "parsed = dropped @ kept" by (simp add: dk)
  moreover have "int (length kept) = lineBound \<or> li_bytes (last dropped) + sum_bytes kept > byteBound" if "dropped \<noteq> []"
  proof (cases "n < length keep")
    case True
    then show ?thesis using n(4,5) last tot by auto
  next
    case False
    then have "n = length keep" "0 < cut" using n(1) that ne by auto
    then show ?thesis using len by (auto simp: cut_def split: if_splits)
  qed
  ultimately have nf: "newest_fitting parsed lineBound byteBound dropped kept"
    unfolding newest_fitting_def using len n(1,3) tot by auto
  show ?thesis
    by (rule that [OF nf]) (use ab tot n(1,4) len ne in \<open>auto simp: dk(1)\<close>)
qed

lemma parseLines_bytes: "l \<in> set (parseLines r) \<Longrightarrow> li_bytes l = int (length (li_content l)) \<and> length (runes (li_content l)) \<le> MaxLogLineChars"
  by (auto simp: parseLines_def parse_entry_def CapLogLine_def CapChars_runes split: prod.splits)

lemma sum_bytes_contents:
  "\<forall>l \<in> set ls. li_bytes l = int (length (li_content l)) \<Longrightarrow>
    sum_bytes ls = int (sum_list (map (\<lambda>l. length (ll_content l)) (map emit ls)))"
  by (induction ls) (simp_all add: emit_def)

section \<open>The bounds of a read\<close>

lemma line_bound: "0 < Lower d cap MinLogLines MaxLogLines" "Lower d cap MinLogLines MaxLogLines \<le> MaxLogLines"
  by (rule Lower_bounds; simp add: log_consts)+

lemma byte_bound: "0 < Lower d cap MinLogBytes MaxLogBytes" "Lower d cap MinLogBytes MaxLogBytes \<le> MaxLogBytes"
  by (rule Lower_bounds; simp add: log_consts)+

lemma fetchCeiling_bounds:
  assumes "0 < b" "b \<le> MaxLogBytes"
  shows "fetchCeiling b = 4 * b" "fetchCeiling b \<le> maxReadCeiling"
proof -
  have "wrap64 (b * readOverdraft) = b * 4"
    using assms by (subst wrap64_id) (auto simp: int64_range_def log_consts)
  with assms show "fetchCeiling b = 4 * b" "fetchCeiling b \<le> maxReadCeiling"
    by (auto simp: fetchCeiling_def Let_def log_consts)
qed

lemma GetPod_Inl: "GetPod api ns n = Inl err \<Longrightarrow> logs_wireOutcome (outcomeOf err) \<noteq> LOGS_SUCCESS"
  by (auto simp: GetPod_def map_err_def mapReadErrorAs_def outcomeOf_def logs_wireOutcome_def
      split: sum.splits api_error.splits)

lemma mapReadError_outcome: "logs_wireOutcome (outcomeOf (mapReadError err)) \<noteq> LOGS_SUCCESS"
  by (cases err) (simp_all add: mapReadError_def mapReadErrorAs_def outcomeOf_def logs_wireOutcome_def)

lemma ContainerLogs_Inl:
  assumes "ContainerLogs api req = Inl err"
  shows "logs_wireOutcome (outcomeOf err) \<noteq> LOGS_SUCCESS"
proof -
  have "err = RefusedRead \<or> (\<exists>e. err = mapReadError e)"
    using assms by (auto simp: ContainerLogs_def Let_def split: if_splits sum.splits)
  then show ?thesis using mapReadError_outcome by (auto simp: outcomeOf_def logs_wireOutcome_def)
qed

lemma logs_read_success:
  assumes "lr_outcome (logs_read options c args) = LOGS_SUCCESS"
  obtains pod r where "GetPod (wo_api c) (la_namespace args) (la_pod_name args) = Inr pod"
    "resolveContainer pod (la_container_name args) (la_previous args) = Inr ()"
    "ContainerLogs (wo_api c) (logs_request args
      (Lower (la_max_lines args) (lx_LocalMaxLines options) MinLogLines MaxLogLines)
      (Lower (la_max_bytes args) (lx_LocalMaxBytes options) MinLogBytes MaxLogBytes)) = Inr r"
proof -
  have res: "resolveContainer pod n prev = Inl outcome \<Longrightarrow> outcome \<noteq> LOGS_SUCCESS" for pod n prev outcome
    by (auto simp: resolveContainer_def split: if_splits)
  have "\<exists>pod r. GetPod (wo_api c) (la_namespace args) (la_pod_name args) = Inr pod \<and>
    resolveContainer pod (la_container_name args) (la_previous args) = Inr () \<and>
    ContainerLogs (wo_api c) (logs_request args
      (Lower (la_max_lines args) (lx_LocalMaxLines options) MinLogLines MaxLogLines)
      (Lower (la_max_bytes args) (lx_LocalMaxBytes options) MinLogBytes MaxLogBytes)) = Inr r"
    using assms GetPod_Inl ContainerLogs_Inl res
    by (auto simp: logs_read_def logs_basis_def Let_def split: sum.splits)
  then show ?thesis using that by blast
qed

end
