(* ===== verification/Cap_Events.thy ===== *)
theory Cap_Events
  imports Cap_Logs
begin

text \<open>
  internal/capabilities/kubernetes/events/executor.go: the namespace event read, one bounded page with a
  window applied over it.
\<close>

section \<open>The registered identity\<close>

definition EventsCapabilityID :: string where
  "EventsCapabilityID = ''kubernetes.namespace.events''"

definition EventsCapabilityVersion :: uint32 where
  "EventsCapabilityVersion = 1"

definition EventsDescriptor :: CapabilityDescriptor where
  "EventsDescriptor = \<lparr>cd_capability_id = EventsCapabilityID, cd_capability_version = EventsCapabilityVersion\<rparr>"

section \<open>Bounds and options\<close>

definition MinEvents :: int where "MinEvents = 10"
definition MaxEvents :: int where "MaxEvents = 200"
definition DefaultRetentionHorizon :: int where "DefaultRetentionHorizon = Hour"

record EventsOptions =
  ex_Policy :: LocalPolicy
  ex_LocalMaxEvents :: int
  ex_RetentionHorizon :: int

definition events_NewExecutor :: "EventsOptions \<Rightarrow> EventsOptions" where
  "events_NewExecutor options =
     (if ex_RetentionHorizon options \<le> 0 then options\<lparr>ex_RetentionHorizon := DefaultRetentionHorizon\<rparr> else options)"

section \<open>Events\<close>

definition overlapsWindow :: "go_time \<Rightarrow> go_time \<Rightarrow> go_time \<Rightarrow> go_time \<Rightarrow> bool" where
  "overlapsWindow first final start end \<longleftrightarrow> \<not> final < start \<and> first < end"

definition occurrence :: "Event \<Rightarrow> go_time \<times> go_time" where
  "occurrence source =
     (let first0 = en_FirstTimestamp source;
          last0 = en_LastTimestamp source;
          last1 = (if IsZero last0 \<and> \<not> IsZero (en_EventTime source) then en_EventTime source else last0);
          first1 = (if IsZero first0 then last1 else first0);
          last2 = (if IsZero last1 then first1 else last1)
      in (first1, last2))"

definition orUnknown :: "string \<Rightarrow> string" where
  "orUnknown value = (if value = [] then ''Unknown'' else value)"

definition mapEvent :: "Event \<Rightarrow> go_time \<Rightarrow> go_time \<Rightarrow> KubernetesEvent" where
  "mapEvent source first final =
     \<lparr>ke_type = CapReason (orUnknown (en_Type source)), ke_reason = CapReason (en_Reason source),
      ke_message = CapMessage (en_Message source),
      ke_involved_object =
        \<lparr>io_kind = CapIdentifier (iv_Kind (en_InvolvedObject source)),
         io_name = CapIdentifier (iv_Name (en_InvolvedObject source)),
         io_uid = CapIdentifier (iv_UID (en_InvolvedObject source))\<rparr>,
      ke_source_component = CapIdentifier (en_Component source), ke_count = en_Count source,
      ke_first_seen_at = (if IsZero first then None else Some first),
      ke_last_seen_at = (if IsZero final then None else Some final)\<rparr>"

definition admit :: "go_time \<Rightarrow> go_time \<Rightarrow> Event \<Rightarrow> KubernetesEvent option" where
  "admit windowStart windowEnd source =
     (case occurrence source of
        (first, final) \<Rightarrow>
          if \<not> overlapsWindow first final windowStart windowEnd then None else Some (mapEvent source first final))"

definition event_less :: "KubernetesEvent \<Rightarrow> KubernetesEvent \<Rightarrow> bool" where
  "event_less a b =
     (let left = AsTime (ke_last_seen_at a); right = AsTime (ke_last_seen_at b)
      in if left = right then ke_reason a < ke_reason b else left < right)"

section \<open>Arguments\<close>

definition validNarrowing :: "KubernetesInvolvedObject option \<Rightarrow> bool" where
  "validNarrowing involved =
     (case involved of
        None \<Rightarrow> True
      | Some i \<Rightarrow>
          if io_kind i \<noteq> [] \<and> \<not> ValidKind (io_kind i) then False
          else if io_name i \<noteq> [] \<and> \<not> ValidObjectName (io_name i) then False
          else io_uid i = [] \<or> ValidUID (io_uid i))"

definition events_validArgs :: "KubernetesNamespaceEventsArgsV1 option \<Rightarrow> bool" where
  "events_validArgs args =
     (case args of
        None \<Rightarrow> False
      | Some a \<Rightarrow>
          if \<not> ValidNamespace (ea_namespace a) then False
          else if ea_window_start a = None \<or> ea_window_end a = None then False
          else if \<not> AsTime (ea_window_start a) < AsTime (ea_window_end a) then False
          else validNarrowing (ea_involved_object a))"

definition involvedFrom :: "KubernetesInvolvedObject option \<Rightarrow> InvolvedObject" where
  "involvedFrom involved =
     (case involved of
        None \<Rightarrow> \<lparr>iv_Kind = [], iv_Name = [], iv_UID = []\<rparr>
      | Some i \<Rightarrow> \<lparr>iv_Kind = io_kind i, iv_Name = io_name i, iv_UID = io_uid i\<rparr>)"

definition events_wireOutcome :: "ReadOutcome \<Rightarrow> KubernetesEventsOutcome" where
  "events_wireOutcome outcome =
     (case outcome of
        OutcomeSuccess \<Rightarrow> EVENTS_SUCCESS
      | OutcomeUnauthorized \<Rightarrow> EVENTS_UNAUTHORIZED
      | _ \<Rightarrow> EVENTS_UNREACHABLE)"

section \<open>The executor\<close>

definition events_read ::
  "EventsOptions \<Rightarrow> world \<Rightarrow> KubernetesNamespaceEventsArgsV1 \<Rightarrow> KubernetesNamespaceEventsResultV1" where
  "events_read options c args =
     (let applied = Lower (ea_max_events args) (ex_LocalMaxEvents options) MinEvents MaxEvents;
          windowStart = AsTime (ea_window_start args);
          windowEnd = AsTime (ea_window_end args);
          basis = \<lparr>er_outcome = EVENTS_UNSPECIFIED, er_events = [], er_returned_event_count = 0,
            er_complete = False,
            er_window_predates_retention = windowStart < wo_now c - ex_RetentionHorizon options,
            er_applied_retention_horizon = ex_RetentionHorizon options, er_read_at = None,
            er_applied_max_events = of_int applied\<rparr>
      in case ListEvents (wo_api c) (ea_namespace args) (involvedFrom (ea_involved_object args)) applied of
           Inl err \<Rightarrow> basis\<lparr>er_outcome := events_wireOutcome (outcomeOf err)\<rparr>
         | Inr page \<Rightarrow>
             let admitted = List.map_filter (admit windowStart windowEnd) (ep_Events page)
             in basis\<lparr>er_outcome := EVENTS_SUCCESS, er_events := sort_slice event_less admitted,
                  er_returned_event_count := wrap32 (int (length admitted)),
                  er_complete := \<not> ep_Truncated page, er_read_at := Some (wo_read_at c)\<rparr>)"

definition GetKubernetesNamespaceEventsV1 :: "CapabilityArguments option \<Rightarrow> KubernetesNamespaceEventsArgsV1 option" where
  "GetKubernetesNamespaceEventsV1 args =
     (case args of Some (Args_KubernetesNamespaceEventsV1 a) \<Rightarrow> Some a | _ \<Rightarrow> None)"

definition events_Execute :: "EventsOptions \<Rightarrow> (world, CapabilityResult) executor" where
  "events_Execute options c job =
     (let args = GetKubernetesNamespaceEventsV1 (ja_arguments job) in
      if \<not> events_validArgs args then Some (Failure job KIND_ARGUMENTS_REJECTED)
      else if \<not> AllowsNamespace (ex_Policy options) (ea_namespace (the args))
      then Some (Failure job KIND_LOCAL_POLICY_REFUSED)
      else let result = events_read options c (the args)
           in Some (Run c job
                \<lparr>re_Result = \<lparr>cr_redaction = None, cr_result = Result_KubernetesNamespaceEventsV1 result\<rparr>,
                 re_Reached = (er_outcome result \<noteq> EVENTS_UNREACHABLE)\<rparr>))"

section \<open>Order and window\<close>

interpretation event_order: slice_order event_less
proof unfold_locales
  fix x y z :: KubernetesEvent
  show "\<not> event_less x x" by (simp add: event_less_def)
  show "event_less x y \<Longrightarrow> event_less y z \<Longrightarrow> event_less x z"
    by (auto simp: event_less_def Let_def split: if_splits)
  show "\<not> event_less y x \<Longrightarrow> \<not> event_less z y \<Longrightarrow> \<not> event_less z x"
    by (auto simp: event_less_def Let_def split: if_splits)
qed

definition in_window :: "go_time \<Rightarrow> go_time \<Rightarrow> Event \<Rightarrow> bool" where
  "in_window start end source \<longleftrightarrow> start \<le> snd (occurrence source) \<and> fst (occurrence source) < end"

definition wire_event :: "Event \<Rightarrow> KubernetesEvent" where
  "wire_event source = mapEvent source (fst (occurrence source)) (snd (occurrence source))"

lemma admitted_eq:
  "List.map_filter (admit start end) es = map wire_event (filter (in_window start end) es)"
  by (induction es)
    (auto simp: map_filter_simps admit_def in_window_def wire_event_def overlapsWindow_def case_prod_beta not_less)

lemma events_read_failed:
  "ListEvents (wo_api c) (ea_namespace args) (involvedFrom (ea_involved_object args))
      (Lower (ea_max_events args) (ex_LocalMaxEvents options) MinEvents MaxEvents) = Inl err \<Longrightarrow>
    er_events (events_read options c args) = [] \<and> \<not> er_complete (events_read options c args) \<and>
    er_outcome (events_read options c args) = events_wireOutcome (outcomeOf err)"
  by (simp add: events_read_def Let_def)

lemma events_read_page:
  "ListEvents (wo_api c) (ea_namespace args) (involvedFrom (ea_involved_object args))
      (Lower (ea_max_events args) (ex_LocalMaxEvents options) MinEvents MaxEvents) = Inr page \<Longrightarrow>
    er_outcome (events_read options c args) = EVENTS_SUCCESS \<and>
    er_complete (events_read options c args) = (\<not> ep_Truncated page) \<and>
    er_events (events_read options c args) = sort_slice event_less
      (map wire_event (filter (in_window (AsTime (ea_window_start args)) (AsTime (ea_window_end args))) (ep_Events page)))"
  by (simp add: events_read_def Let_def admitted_eq)

end
