(* ===== verification/Cap_Runtime.thy ===== *)
theory Cap_Runtime
  imports Cap_Logs
begin

text \<open>
  internal/capabilities/kubernetes/runtime: the workload runtime read (executor.go), the selector rendering
  (selector.go) and the mapping of pods and workloads (podmap.go, workloadmap.go).

  RenderSelector ranges over a Go map; the order of one such loop is the argument \<open>order\<close>, a rearrangement
  of the entries. A read renders the selector twice, for the summary and for the list, with an order each.
\<close>

section \<open>The registered identity\<close>

definition RuntimeCapabilityID :: string where
  "RuntimeCapabilityID = ''kubernetes.workload.runtime''"

definition RuntimeCapabilityVersion :: uint32 where
  "RuntimeCapabilityVersion = 1"

definition RuntimeDescriptor :: CapabilityDescriptor where
  "RuntimeDescriptor = \<lparr>cd_capability_id = RuntimeCapabilityID, cd_capability_version = RuntimeCapabilityVersion\<rparr>"

section \<open>Selectors\<close>

definition renderRequirement :: "LabelSelectorRequirement \<Rightarrow> string option" where
  "renderRequirement req =
     (if lq_Operator req = ''In'' then Some (lq_Key req @ '' in ('' @ Join (lq_Values req) '','' @ '')'')
      else if lq_Operator req = ''NotIn'' then Some (lq_Key req @ '' notin ('' @ Join (lq_Values req) '','' @ '')'')
      else if lq_Operator req = ''Exists'' then Some (lq_Key req)
      else if lq_Operator req = ''DoesNotExist'' then Some (''!'' @ lq_Key req)
      else None)"

fun render_all :: "LabelSelectorRequirement list \<Rightarrow> string list \<Rightarrow> string list option" where
  "render_all [] terms = Some terms"
| "render_all (req # reqs) terms =
     (case renderRequirement req of
        None \<Rightarrow> None
      | Some term \<Rightarrow> render_all reqs (terms @ [term]))"

type_synonym map_order = "(string \<times> string) list \<Rightarrow> (string \<times> string) list"

definition RenderSelector :: "map_order \<Rightarrow> LabelSelector option \<Rightarrow> string option" where
  "RenderSelector order selector =
     (case selector of
        None \<Rightarrow> None
      | Some s \<Rightarrow>
          (case render_all (ls_MatchExpressions s)
             (map (\<lambda>(key, value). key @ ''='' @ value) (order (ls_MatchLabels s))) of
             None \<Rightarrow> None
           | Some terms \<Rightarrow> if length terms = 0 then None else Some (Join terms '','')))"

section \<open>Pods\<close>

definition mapTime :: "go_time \<Rightarrow> timestamp option" where
  "mapTime t = (if IsZero t then None else Some t)"

definition mapTermination :: "ContainerStateTerminated option \<Rightarrow> KubernetesContainerTermination option" where
  "mapTermination terminated =
     (case terminated of
        None \<Rightarrow> None
      | Some t \<Rightarrow>
          Some \<lparr>kt_reason = CapReason (if tm_Reason t = [] then ''Unknown'' else tm_Reason t),
                kt_exit_code = tm_ExitCode t, kt_finished_at = mapTime (tm_FinishedAt t)\<rparr>)"

definition mapState :: "ContainerState \<Rightarrow> KubernetesContainerState" where
  "mapState state =
     (case cs_Running state of
        Some startedAt \<Rightarrow>
          \<lparr>ks_kind = STATE_RUNNING, ks_waiting_reason = [], ks_running_since = mapTime startedAt, ks_termination = None\<rparr>
      | None \<Rightarrow>
          (case cs_Terminated state of
             Some t \<Rightarrow>
               \<lparr>ks_kind = STATE_TERMINATED, ks_waiting_reason = [], ks_running_since = None,
                ks_termination = mapTermination (Some t)\<rparr>
           | None \<Rightarrow>
               \<lparr>ks_kind = STATE_WAITING,
                ks_waiting_reason = (case cs_Waiting state of None \<Rightarrow> [] | Some reason \<Rightarrow> CapReason reason),
                ks_running_since = None, ks_termination = None\<rparr>))"

definition mapContainer :: "ContainerStatus \<Rightarrow> KubernetesContainerRuntime" where
  "mapContainer status =
     \<lparr>kc_name = CapIdentifier (ct_Name status), kc_image = CapImage (ct_Image status), kc_ready = ct_Ready status,
      kc_restart_count = ct_RestartCount status, kc_state = mapState (ct_State status),
      kc_last_termination = mapTermination (cs_Terminated (ct_LastTerminationState status))\<rparr>"

fun podReady :: "PodCondition list \<Rightarrow> bool" where
  "podReady [] = False"
| "podReady (condition # conditions) =
     (if pc_Type condition = ''Ready'' then pc_Status condition = ''True'' else podReady conditions)"

fun unscheduledReason :: "PodCondition list \<Rightarrow> string" where
  "unscheduledReason [] = []"
| "unscheduledReason (condition # conditions) =
     (if pc_Type condition = ''PodScheduled'' \<and> pc_Status condition = ''False'' then pc_Reason condition
      else unscheduledReason conditions)"

definition MapPod :: "Pod \<Rightarrow> KubernetesPodRuntime" where
  "MapPod pod =
     \<lparr>kp_name = CapIdentifier (pd_Name pod),
      kp_phase = CapReason (if pd_Phase pod = [] then ''Unknown'' else pd_Phase pod),
      kp_node_name = CapIdentifier (sp_NodeName (pd_Spec pod)),
      kp_started_at = (case pd_StartTime pod of None \<Rightarrow> None | Some t \<Rightarrow> mapTime t),
      kp_ready = podReady (pd_Conditions pod),
      kp_unscheduled_reason = CapReason (unscheduledReason (pd_Conditions pod)),
      kp_containers = map mapContainer (pd_ContainerStatuses pod)\<rparr>"

section \<open>Workloads\<close>

record counters =
  cn_desired :: int
  cn_ready :: int
  cn_updated :: int
  cn_available :: int
  cn_observedGeneration :: int

definition quantityOf :: "ResourceList \<Rightarrow> string \<Rightarrow> string" where
  "quantityOf l name = (case gomap_get l name of None \<Rightarrow> [] | Some quantity \<Rightarrow> CapQuantity quantity)"

definition int32OrZero :: "int option \<Rightarrow> int" where
  "int32OrZero v = (case v of None \<Rightarrow> 0 | Some n \<Rightarrow> n)"

definition container_resources :: "Container \<Rightarrow> KubernetesContainerResources" where
  "container_resources container =
     \<lparr>kr_container = CapIdentifier (co_Name container),
      kr_cpu_request = quantityOf (co_Requests container) ''cpu'',
      kr_cpu_limit = quantityOf (co_Limits container) ''cpu'',
      kr_memory_request = quantityOf (co_Requests container) ''memory'',
      kr_memory_limit = quantityOf (co_Limits container) ''memory''\<rparr>"

definition summary ::
  "map_order \<Rightarrow> string \<Rightarrow> ObjectMeta \<Rightarrow> PodSpec \<Rightarrow> LabelSelector option \<Rightarrow> counters \<Rightarrow> KubernetesWorkloadSummary" where
  "summary order kind meta template selector c =
     \<lparr>kw_kind = kind, kw_name = CapIdentifier (om_Name meta), kw_namespace = CapIdentifier (om_Namespace meta),
      kw_uid = CapIdentifier (om_UID meta), kw_desired_replicas = cn_desired c, kw_ready_replicas = cn_ready c,
      kw_updated_replicas = cn_updated c, kw_available_replicas = cn_available c,
      kw_generation = om_Generation meta, kw_observed_generation = cn_observedGeneration c,
      kw_created_at = mapTime (om_CreationTimestamp meta),
      kw_container_images = map (\<lambda>container. CapImage (co_Image container)) (sp_Containers template),
      kw_container_resources = map container_resources (sp_Containers template),
      kw_selector_summary = (case RenderSelector order selector of None \<Rightarrow> [] | Some rendered \<Rightarrow> CapImage rendered)\<rparr>"

definition workload_counters :: "Workload \<Rightarrow> counters" where
  "workload_counters w =
     \<lparr>cn_desired = int32OrZero (wl_Replicas w), cn_ready = wl_Ready w, cn_updated = wl_Updated w,
      cn_available = wl_Available w, cn_observedGeneration = wl_ObservedGeneration w\<rparr>"

definition MapDeploymentSummary :: "map_order \<Rightarrow> Workload \<Rightarrow> KubernetesWorkloadSummary" where
  "MapDeploymentSummary order w =
     summary order ''deployment'' (wl_Meta w) (wl_Template w) (wl_Selector w) (workload_counters w)"

definition MapStatefulSetSummary :: "map_order \<Rightarrow> Workload \<Rightarrow> KubernetesWorkloadSummary" where
  "MapStatefulSetSummary order w =
     summary order ''statefulset'' (wl_Meta w) (wl_Template w) (wl_Selector w) (workload_counters w)"

definition MapDaemonSetSummary :: "map_order \<Rightarrow> DaemonSet \<Rightarrow> KubernetesWorkloadSummary" where
  "MapDaemonSetSummary order d =
     summary order ''daemonset'' (ds_Meta d) (ds_Template d) (ds_Selector d)
       \<lparr>cn_desired = ds_DesiredNumberScheduled d, cn_ready = ds_NumberReady d, cn_updated = ds_UpdatedNumberScheduled d,
        cn_available = ds_NumberAvailable d, cn_observedGeneration = ds_ObservedGeneration d\<rparr>"

section \<open>The executor\<close>

definition MinWorkloadPods :: int where "MinWorkloadPods = 5"
definition MaxWorkloadPods :: int where "MaxWorkloadPods = 50"

record RuntimeOptions =
  rx_Policy :: LocalPolicy
  rx_LocalMaxPods :: int

definition effectiveMaxPods :: "RuntimeOptions \<Rightarrow> uint32 \<Rightarrow> int" where
  "effectiveMaxPods options dispatched = Lower dispatched (rx_LocalMaxPods options) MinWorkloadPods MaxWorkloadPods"

definition runtime_validArgs :: "KubernetesWorkloadRuntimeArgsV1 option \<Rightarrow> bool" where
  "runtime_validArgs args =
     (case args of
        None \<Rightarrow> False
      | Some a \<Rightarrow>
          if wa_workload_kind a = WORKLOAD_KIND_UNSPECIFIED then False
          else ValidNamespace (wa_namespace a) \<and> ValidObjectName (wa_workload_name a))"

definition runtime_wireOutcome :: "ReadOutcome \<Rightarrow> KubernetesReadOutcome" where
  "runtime_wireOutcome outcome =
     (case outcome of
        OutcomeSuccess \<Rightarrow> READ_SUCCESS
      | OutcomeUnauthorized \<Rightarrow> READ_UNAUTHORIZED
      | OutcomeWorkloadNotFound \<Rightarrow> READ_WORKLOAD_NOT_FOUND
      | OutcomeNamespaceNotFound \<Rightarrow> READ_NAMESPACE_NOT_FOUND
      | OutcomeSelectorUnrepresentable \<Rightarrow> READ_SELECTOR_UNREPRESENTABLE
      | _ \<Rightarrow> READ_UNREACHABLE)"

text \<open>\<open>Inl\<close> carries an outcome other than success.\<close>

definition fetchWorkload ::
  "world \<Rightarrow> KubernetesWorkloadRuntimeArgsV1 \<Rightarrow> ReadOutcome + (KubernetesWorkloadSummary \<times> LabelSelector option)" where
  "fetchWorkload c args =
     (if wa_workload_kind args = WORKLOAD_KIND_DEPLOYMENT then
        (case GetDeployment (wo_api c) (wa_namespace args) (wa_workload_name args) of
           Inl err \<Rightarrow> Inl (outcomeOf err)
         | Inr w \<Rightarrow> Inr (MapDeploymentSummary (wo_order c 0) w, wl_Selector w))
      else if wa_workload_kind args = WORKLOAD_KIND_STATEFULSET then
        (case GetStatefulSet (wo_api c) (wa_namespace args) (wa_workload_name args) of
           Inl err \<Rightarrow> Inl (outcomeOf err)
         | Inr w \<Rightarrow> Inr (MapStatefulSetSummary (wo_order c 0) w, wl_Selector w))
      else if wa_workload_kind args = WORKLOAD_KIND_DAEMONSET then
        (case GetDaemonSet (wo_api c) (wa_namespace args) (wa_workload_name args) of
           Inl err \<Rightarrow> Inl (outcomeOf err)
         | Inr d \<Rightarrow> Inr (MapDaemonSetSummary (wo_order c 0) d, ds_Selector d))
      else Inl OutcomeUnreachable)"

definition runtime_result ::
  "KubernetesReadOutcome \<Rightarrow> KubernetesWorkloadSummary option \<Rightarrow> int \<Rightarrow> KubernetesWorkloadRuntimeResultV1" where
  "runtime_result outcome workload appliedMax =
     \<lparr>wr_outcome = outcome, wr_workload = workload, wr_pods = [], wr_returned_pod_count = 0, wr_complete = False,
      wr_read_at = None, wr_applied_max_pods = of_int appliedMax\<rparr>"

definition runtime_read ::
  "RuntimeOptions \<Rightarrow> world \<Rightarrow> KubernetesWorkloadRuntimeArgsV1 \<Rightarrow> KubernetesWorkloadRuntimeResultV1" where
  "runtime_read options c args =
     (let appliedMax = effectiveMaxPods options (wa_max_pods args) in
      case fetchWorkload c args of
        Inl outcome \<Rightarrow> runtime_result (runtime_wireOutcome outcome) None appliedMax
      | Inr (workload, selector) \<Rightarrow>
          (case RenderSelector (wo_order c 1) selector of
             None \<Rightarrow> runtime_result READ_SELECTOR_UNREPRESENTABLE (Some workload) appliedMax
           | Some rendered \<Rightarrow>
               (case ListPods (wo_api c) (wa_namespace args) rendered appliedMax of
                  Inl err \<Rightarrow> runtime_result (runtime_wireOutcome (outcomeOf err)) (Some workload) appliedMax
                | Inr page \<Rightarrow>
                    (runtime_result READ_SUCCESS (Some workload) appliedMax)
                      \<lparr>wr_pods := map MapPod (pp_Pods page),
                       wr_returned_pod_count := wrap32 (int (length (pp_Pods page))),
                       wr_complete := \<not> pp_Truncated page, wr_read_at := Some (wo_read_at c)\<rparr>)))"

definition GetKubernetesWorkloadRuntimeV1 :: "CapabilityArguments option \<Rightarrow> KubernetesWorkloadRuntimeArgsV1 option" where
  "GetKubernetesWorkloadRuntimeV1 args =
     (case args of Some (Args_KubernetesWorkloadRuntimeV1 a) \<Rightarrow> Some a | _ \<Rightarrow> None)"

definition runtime_Execute :: "RuntimeOptions \<Rightarrow> (world, CapabilityResult) executor" where
  "runtime_Execute options c job =
     (let args = GetKubernetesWorkloadRuntimeV1 (ja_arguments job) in
      if \<not> runtime_validArgs args then Some (Failure job KIND_ARGUMENTS_REJECTED)
      else if \<not> AllowsNamespace (rx_Policy options) (wa_namespace (the args))
      then Some (Failure job KIND_LOCAL_POLICY_REFUSED)
      else let result = runtime_read options c (the args)
           in Some (Run c job
                \<lparr>re_Result = \<lparr>cr_redaction = None, cr_result = Result_KubernetesWorkloadRuntimeV1 result\<rparr>,
                 re_Reached = (wr_outcome result = READ_SUCCESS)\<rparr>))"

section \<open>What is rendered and listed\<close>

lemma render_all_eq:
  "render_all reqs terms =
    (if list_all (\<lambda>r. renderRequirement r \<noteq> None) reqs then Some (terms @ map (the \<circ> renderRequirement) reqs) else None)"
  by (induction reqs arbitrary: terms) (auto split: option.splits)

definition known_operator :: "LabelSelectorRequirement \<Rightarrow> bool" where
  "known_operator req \<longleftrightarrow> lq_Operator req \<in> {''In'', ''NotIn'', ''Exists'', ''DoesNotExist''}"

lemma renderRequirement_None: "renderRequirement req \<noteq> None \<longleftrightarrow> known_operator req"
  by (simp add: renderRequirement_def known_operator_def)

definition selector_terms :: "map_order \<Rightarrow> LabelSelector \<Rightarrow> string list" where
  "selector_terms order s =
     map (\<lambda>(key, value). key @ ''='' @ value) (order (ls_MatchLabels s)) @
     map (the \<circ> renderRequirement) (ls_MatchExpressions s)"

lemma RenderSelector_eq:
  "RenderSelector order (Some s) =
    (if list_all known_operator (ls_MatchExpressions s) \<and> selector_terms order s \<noteq> []
     then Some (Join (selector_terms order s) '','') else None)"
  unfolding RenderSelector_def render_all_eq renderRequirement_None selector_terms_def by simp

lemma pod_bound: "0 < effectiveMaxPods options d" "effectiveMaxPods options d \<le> MaxWorkloadPods"
  unfolding effectiveMaxPods_def
  by (rule Lower_bounds; simp add: MinWorkloadPods_def MaxWorkloadPods_def)+

lemma fetchWorkload_Inl: "fetchWorkload c args = Inl outcome \<Longrightarrow> outcome \<noteq> OutcomeSuccess"
  by (auto simp: fetchWorkload_def GetDeployment_def GetStatefulSet_def GetDaemonSet_def map_err_def
      mapReadError_def mapReadErrorAs_def outcomeOf_def split: if_splits sum.splits api_error.splits)

lemma ListPods_Inl: "ListPods api ns sel n = Inl err \<Longrightarrow> outcomeOf err \<noteq> OutcomeSuccess"
  by (auto simp: ListPods_def mapReadError_def mapReadErrorAs_def outcomeOf_def
      split: if_splits sum.splits api_error.splits)

lemma runtime_wireOutcome_success: "runtime_wireOutcome o' = READ_SUCCESS \<longleftrightarrow> o' = OutcomeSuccess"
  by (cases o') (simp_all add: runtime_wireOutcome_def)

lemma runtime_read_success:
  assumes "wr_outcome (runtime_read options c args) = READ_SUCCESS"
  obtains workload selector rendered page where "fetchWorkload c args = Inr (workload, Some selector)"
    "RenderSelector (wo_order c 1) (Some selector) = Some rendered"
    "ListPods (wo_api c) (wa_namespace args) rendered (effectiveMaxPods options (wa_max_pods args)) = Inr page"
    "runtime_read options c args = (runtime_result READ_SUCCESS (Some workload) (effectiveMaxPods options (wa_max_pods args)))
       \<lparr>wr_pods := map MapPod (pp_Pods page), wr_returned_pod_count := wrap32 (int (length (pp_Pods page))),
        wr_complete := \<not> pp_Truncated page, wr_read_at := Some (wo_read_at c)\<rparr>"
proof (cases "fetchWorkload c args")
  case (Inl outcome)
  then show ?thesis
    using assms fetchWorkload_Inl [OF Inl] by (simp add: runtime_read_def Let_def runtime_result_def runtime_wireOutcome_success)
next
  case (Inr p)
  obtain workload sel where p: "p = (workload, sel)" by (cases p)
  show ?thesis
  proof (cases "RenderSelector (wo_order c 1) sel")
    case None
    then show ?thesis using assms Inr p by (simp add: runtime_read_def Let_def runtime_result_def)
  next
    case (Some rendered)
    then obtain s where s: "sel = Some s" by (cases sel) (auto simp: RenderSelector_def)
    show ?thesis
    proof (cases "ListPods (wo_api c) (wa_namespace args) rendered (effectiveMaxPods options (wa_max_pods args))")
      case (Inl err)
      then show ?thesis
        using assms Inr p Some ListPods_Inl [OF Inl]
        by (simp add: runtime_read_def Let_def runtime_result_def runtime_wireOutcome_success)
    next
      case page: (Inr page)
      show ?thesis
        by (rule that [of workload s rendered page]) (use Inr p Some s page in \<open>simp_all add: runtime_read_def Let_def\<close>)
    qed
  qed
qed

end
