(* ===== verification/Capability_Properties.thy ===== *)
theory Capability_Properties
  imports Cap_Events Cap_Runtime
begin

text \<open>
  The properties of internal/capabilities and of the three compiled capabilities.
\<close>

section \<open>An example cluster\<close>

definition example_container :: Container where
  "example_container = \<lparr>co_Name = ''c'', co_Image = ''img'', co_Requests = [(''cpu'', ''100m'')], co_Limits = [],
     co_Env = [], co_EnvFrom = []\<rparr>"

definition example_spec :: PodSpec where
  "example_spec = \<lparr>sp_InitContainers = [], sp_Containers = [example_container], sp_EphemeralContainers = [],
     sp_NodeName = ''n1'', sp_Volumes = [], sp_ImagePullSecrets = [], sp_other = []\<rparr>"

definition example_pod :: Pod where
  "example_pod = \<lparr>pd_Name = ''p'', pd_Spec = example_spec, pd_Phase = [], pd_StartTime = None,
     pd_Conditions = [\<lparr>pc_Type = ''Ready'', pc_Status = ''True'', pc_Reason = []\<rparr>], pd_ContainerStatuses = [],
     pd_InitContainerStatuses = [], pd_EphemeralContainerStatuses = []\<rparr>"

definition example_workload :: Workload where
  "example_workload = \<lparr>wl_Meta = \<lparr>om_Name = ''web'', om_Namespace = ''dev'', om_UID = ''u1'', om_Generation = 2,
       om_CreationTimestamp = zero_time, om_Annotations = []\<rparr>,
     wl_Template = example_spec,
     wl_Selector = Some \<lparr>ls_MatchLabels = [(''app'', ''web'')], ls_MatchExpressions = []\<rparr>,
     wl_Replicas = Some 1, wl_Ready = 1, wl_Updated = 1, wl_Available = 1, wl_ObservedGeneration = 2\<rparr>"

definition example_api :: kube_api where
  "example_api = \<lparr>api_deployment = (\<lambda>_ _. Inr example_workload), api_statefulset = (\<lambda>_ _. Inl Api_NotFound),
     api_daemonset = (\<lambda>_ _. Inl Api_Forbidden), api_pod = (\<lambda>_ _. Inr example_pod),
     api_pods = (\<lambda>_ _ _. Inr ([example_pod], [])), api_events = (\<lambda>_ _ _. Inl Api_Other),
     api_logs = (\<lambda>_ _ _. Inr (''2024-01-01T00:00:00Z hi'' @ [newline], None)),
     api_namespace = (\<lambda>_. Inr ''uid''), api_selector = (\<lambda>_. ''s'')\<rparr>"

definition example_world :: world where
  "example_world = \<lparr>ctx_cancelled = False, budget_expired = False, wo_api = example_api, wo_now = 0,
     wo_read_at = 0, wo_order = (\<lambda>_ l. l), wo_since = (\<lambda>_. 0)\<rparr>"

section \<open>Shared discipline\<close>

text \<open>C27: ValidNamespace and ValidContainerName (internal/capabilities/identifier.go) decide exactly the DNS-1123
  labels: one to 63 bytes, each a lower-case letter, a digit or a hyphen, with no hyphen at either end.\<close>

theorem identifier_labels_exact:
  "(ValidNamespace s \<longleftrightarrow> length s \<le> 63 \<and> dns_label s) \<and> (ValidContainerName s \<longleftrightarrow> length s \<le> 63 \<and> dns_label s)"
  by (auto simp: ValidNamespace_def ValidContainerName_def MatchString_label maxNamespaceChars_def dns_label_def)

text \<open>C24: Whatever narrowing of an event read is accepted (internal/capabilities/kubernetes/events/executor.go,
  validNarrowing) is made of plain identifiers: every field that is set has only letters, digits, hyphens and
  dots, so none can carry a separator into the field selector.\<close>

theorem events_narrowing_plain:
  assumes "validNarrowing (Some i)"
  shows "list_all (\<lambda>f. f = [] \<or> plain f) [io_kind i, io_name i, io_uid i]"
  using assms valid_plain by (auto simp: validNarrowing_def split: if_splits)

theorem events_narrowing_plain_witness:
  "plain ''web-0'' \<and> validNarrowing (Some \<lparr>io_kind = ''Pod'', io_name = ''web-0'', io_uid = []\<rparr>)"
proof -
  have v: "validNarrowing (Some \<lparr>io_kind = ''Pod'', io_name = ''web-0'', io_uid = []\<rparr>)" by code_simp
  from events_narrowing_plain [OF v] v show ?thesis by simp
qed

text \<open>C28: CapChars (internal/capabilities/fieldcap.go) keeps exactly the first runes of a value, up to the cap: the
  runes of the result are a prefix of the runes of the value of at most the cap's length; on valid UTF-8 the
  result is also a prefix of the bytes, of at most four bytes per rune.\<close>

theorem cap_chars_exact:
  "runes (CapChars v n) = take n (runes v) \<and>
   (valid_utf8 v \<longrightarrow> prefix (CapChars v n) v \<and> length (CapChars v n) \<le> 4 * n)"
  by (simp add: CapChars_runes CapChars_prefix CapChars_bytes)

theorem cap_chars_exact_witness: "valid_utf8 ''abc'' \<and> CapChars ''abc'' 2 = ''ab'' \<and> prefix (CapChars ''abc'' 2) ''abc''"
proof -
  have v: "valid_utf8 ''abc''" "CapChars ''abc'' 2 = ''ab''" by code_simp+
  then show ?thesis using cap_chars_exact [of "''abc''" 2] by blast
qed




section \<open>The compiled capabilities\<close>

text \<open>C16: A namespace the operator's policy excludes is never read (the executors of internal/capabilities/kubernetes):
  for arguments that name it every executor answers with a failure that is the same whatever the cluster, the
  clock and the contexts are, and the kind is the local-policy one when the arguments are valid.\<close>

theorem policy_excludes_namespace:
  assumes "\<not> AllowsNamespace policy ns"
  shows "(ja_arguments job = Some (Args_KubernetesContainerLogsV1 la) \<and> la_namespace la = ns \<and> lx_Policy lo = policy \<longrightarrow>
      logs_Execute lo c job = Some (Failure job (if logs_validArgs (Some la) then KIND_LOCAL_POLICY_REFUSED else KIND_ARGUMENTS_REJECTED))) \<and>
    (ja_arguments job = Some (Args_KubernetesNamespaceEventsV1 ea) \<and> ea_namespace ea = ns \<and> ex_Policy eo = policy \<longrightarrow>
      events_Execute eo c job = Some (Failure job (if events_validArgs (Some ea) then KIND_LOCAL_POLICY_REFUSED else KIND_ARGUMENTS_REJECTED))) \<and>
    (ja_arguments job = Some (Args_KubernetesWorkloadRuntimeV1 wa) \<and> wa_namespace wa = ns \<and> rx_Policy ro = policy \<longrightarrow>
      runtime_Execute ro c job = Some (Failure job (if runtime_validArgs (Some wa) then KIND_LOCAL_POLICY_REFUSED else KIND_ARGUMENTS_REJECTED)))"
  using assms
  by (auto simp: logs_Execute_def events_Execute_def runtime_Execute_def GetKubernetesContainerLogsV1_def
      GetKubernetesNamespaceEventsV1_def GetKubernetesWorkloadRuntimeV1_def Let_def)

definition narrow_policy :: LocalPolicy where
  "narrow_policy = \<lparr>lp_AllowedNamespaces = [(''prod'', True)]\<rparr>"

definition logs_args :: KubernetesContainerLogsArgsV1 where
  "logs_args = \<lparr>la_namespace = ''dev'', la_pod_name = ''p'', la_container_name = ''c'', la_previous = False,
     la_max_lines = 10, la_max_bytes = 4096, la_since_time = None\<rparr>"

definition logs_job :: JobAssignment where
  "logs_job = \<lparr>ja_job_id = ''j'', ja_org_id = ''o'', ja_registration_id = ''r'', ja_lease_epoch = 1,
     ja_capability_id = ''kubernetes.container.logs'', ja_capability_version = 1, ja_deadline_budget = 0,
     ja_arguments = Some (Args_KubernetesContainerLogsV1 logs_args)\<rparr>"

theorem policy_excludes_namespace_witness:
  "logs_Execute \<lparr>lx_Policy = narrow_policy, lx_LocalMaxLines = 0, lx_LocalMaxBytes = 0\<rparr> example_world logs_job =
    Some (Failure logs_job KIND_LOCAL_POLICY_REFUSED)"
proof -
  have a: "\<not> AllowsNamespace narrow_policy ''dev''" by code_simp
  have v: "logs_validArgs (Some logs_args)" by code_simp
  show ?thesis
    using policy_excludes_namespace [OF a, of logs_job logs_args
        "\<lparr>lx_Policy = narrow_policy, lx_LocalMaxLines = 0, lx_LocalMaxBytes = 0\<rparr>"] v
    by (simp add: logs_job_def logs_args_def)
qed


definition open_logs :: LogsOptions where
  "open_logs = \<lparr>lx_Policy = \<lparr>lp_AllowedNamespaces = []\<rparr>, lx_LocalMaxLines = 0, lx_LocalMaxBytes = 0\<rparr>"


text \<open>C11: An event read (internal/capabilities/kubernetes/events/executor.go) is exact about its page: a failed list
  gives no events and is never complete nor successful; a page gives exactly its events that meet the half-open
  window, each in its wire form, oldest first with ties ordered by reason, and is complete exactly when the list
  had no continuation.\<close>

theorem events_read_exact:
  fixes options c args
  defines "res \<equiv> events_read options c args"
  shows "case ListEvents (wo_api c) (ea_namespace args) (involvedFrom (ea_involved_object args))
      (Lower (ea_max_events args) (ex_LocalMaxEvents options) MinEvents MaxEvents) of
    Inl err \<Rightarrow> er_events res = [] \<and> \<not> er_complete res \<and> er_outcome res \<noteq> EVENTS_SUCCESS
  | Inr page \<Rightarrow> er_outcome res = EVENTS_SUCCESS \<and> (er_complete res \<longleftrightarrow> \<not> ep_Truncated page) \<and>
      sorted_wrt (\<lambda>a b. \<not> event_less b a) (er_events res) \<and>
      mset (er_events res) = mset (map wire_event
        (filter (in_window (AsTime (ea_window_start args)) (AsTime (ea_window_end args))) (ep_Events page)))"
proof (cases "ListEvents (wo_api c) (ea_namespace args) (involvedFrom (ea_involved_object args))
      (Lower (ea_max_events args) (ex_LocalMaxEvents options) MinEvents MaxEvents)")
  case (Inl err)
  then have "outcomeOf err \<noteq> OutcomeSuccess"
    by (auto simp: ListEvents_def Let_def mapReadError_def mapReadErrorAs_def outcomeOf_def
        split: if_splits sum.splits api_error.splits)
  then have "events_wireOutcome (outcomeOf err) \<noteq> EVENTS_SUCCESS"
    by (cases "outcomeOf err") (simp_all add: events_wireOutcome_def)
  then show ?thesis using Inl events_read_failed [OF Inl] by (simp add: res_def)
next
  case (Inr page)
  then show ?thesis using events_read_page [OF Inr] event_order.sorted by (simp add: res_def)
qed

text \<open>C9: A workload runtime read (internal/capabilities/kubernetes/runtime/executor.go) enumerates pods only under the
  complete selector of the workload it found: every requirement has a known operator, there is at least one term,
  the selector sent is the join of all terms and is not blank, the page limit is between 1 and 50, the reported
  pods are the page, and the read is complete exactly when the list had no continuation. A read that does not
  succeed reports no pods and is not complete.\<close>

theorem runtime_enumerates_selected:
  fixes options c args
  defines "res \<equiv> runtime_read options c args"
  shows "if wr_outcome res = READ_SUCCESS
    then \<exists>workload selector limit items continue. fetchWorkload c args = Inr (workload, Some selector) \<and>
      list_all known_operator (ls_MatchExpressions selector) \<and> selector_terms (wo_order c 1) selector \<noteq> [] \<and>
      TrimSpace (Join (selector_terms (wo_order c 1) selector) '','') \<noteq> [] \<and> 1 \<le> limit \<and> limit \<le> 50 \<and>
      api_pods (wo_api c) (wa_namespace args) (Join (selector_terms (wo_order c 1) selector) '','') limit = Inr (items, continue) \<and>
      wr_workload res = Some workload \<and> wr_pods res = map MapPod items \<and> (wr_complete res \<longleftrightarrow> continue = [])
    else wr_pods res = [] \<and> \<not> wr_complete res"
proof (cases "wr_outcome res = READ_SUCCESS")
  case True
  then show ?thesis unfolding res_def
  proof (rule runtime_read_success)
    fix workload selector rendered page
    assume f: "fetchWorkload c args = Inr (workload, Some selector)"
      and r: "RenderSelector (wo_order c 1) (Some selector) = Some rendered"
      and l: "ListPods (wo_api c) (wa_namespace args) rendered (effectiveMaxPods options (wa_max_pods args)) = Inr page"
      and e: "runtime_read options c args = (runtime_result READ_SUCCESS (Some workload) (effectiveMaxPods options (wa_max_pods args)))
       \<lparr>wr_pods := map MapPod (pp_Pods page), wr_returned_pod_count := wrap32 (int (length (pp_Pods page))),
        wr_complete := \<not> pp_Truncated page, wr_read_at := Some (wo_read_at c)\<rparr>"
    have t: "list_all known_operator (ls_MatchExpressions selector)" "selector_terms (wo_order c 1) selector \<noteq> []"
      "rendered = Join (selector_terms (wo_order c 1) selector) '',''"
      using r unfolding RenderSelector_eq by (auto split: if_splits)
    have b: "1 \<le> effectiveMaxPods options (wa_max_pods args)" "effectiveMaxPods options (wa_max_pods args) \<le> 50"
      using pod_bound [of options "wa_max_pods args"] by (simp_all add: MaxWorkloadPods_def)
    from ListPods_Inr [OF l] obtain continue where "TrimSpace rendered \<noteq> []"
      "api_pods (wo_api c) (wa_namespace args) rendered (effectiveMaxPods options (wa_max_pods args)) = Inr (pp_Pods page, continue)"
      "pp_Truncated page = (continue \<noteq> [])" by blast
    then show "if wr_outcome (runtime_read options c args) = READ_SUCCESS
      then \<exists>workload selector limit items continue. fetchWorkload c args = Inr (workload, Some selector) \<and>
        list_all known_operator (ls_MatchExpressions selector) \<and> selector_terms (wo_order c 1) selector \<noteq> [] \<and>
        TrimSpace (Join (selector_terms (wo_order c 1) selector) '','') \<noteq> [] \<and> 1 \<le> limit \<and> limit \<le> 50 \<and>
        api_pods (wo_api c) (wa_namespace args) (Join (selector_terms (wo_order c 1) selector) '','') limit = Inr (items, continue) \<and>
        wr_workload (runtime_read options c args) = Some workload \<and>
        wr_pods (runtime_read options c args) = map MapPod items \<and> (wr_complete (runtime_read options c args) \<longleftrightarrow> continue = [])
      else wr_pods (runtime_read options c args) = [] \<and> \<not> wr_complete (runtime_read options c args)"
      using f t b e by (auto simp: runtime_result_def)
  qed
next
  case False
  then show ?thesis
    by (auto simp: res_def runtime_read_def runtime_result_def Let_def split: sum.splits option.splits prod.splits)
qed

text \<open>The rendering follows the iteration order of a Go map, so it is not deterministic.\<close>

lemma selector_rendering_order:
  "RenderSelector id (Some \<lparr>ls_MatchLabels = [(''a'', ''1''), (''b'', ''2'')], ls_MatchExpressions = []\<rparr>) = Some ''a=1,b=2'' \<and>
   RenderSelector rev (Some \<lparr>ls_MatchLabels = [(''a'', ''1''), (''b'', ''2'')], ls_MatchExpressions = []\<rparr>) = Some ''b=2,a=1''"
  by code_simp

section \<open>Caps of whole results\<close>

definition within :: "nat \<Rightarrow> string \<Rightarrow> bool" where
  "within n s \<longleftrightarrow> length (runes s) \<le> n"

definition capped_termination :: "KubernetesContainerTermination option \<Rightarrow> bool" where
  "capped_termination t = (case t of None \<Rightarrow> True | Some k \<Rightarrow> within MaxReasonChars (kt_reason k))"

definition capped_container :: "KubernetesContainerRuntime \<Rightarrow> bool" where
  "capped_container k \<longleftrightarrow> within MaxIdentifierChars (kc_name k) \<and> within MaxImageChars (kc_image k) \<and>
     within MaxReasonChars (ks_waiting_reason (kc_state k)) \<and> capped_termination (ks_termination (kc_state k)) \<and>
     capped_termination (kc_last_termination k)"

definition capped_pod :: "KubernetesPodRuntime \<Rightarrow> bool" where
  "capped_pod p \<longleftrightarrow> within MaxIdentifierChars (kp_name p) \<and> within MaxReasonChars (kp_phase p) \<and>
     within MaxIdentifierChars (kp_node_name p) \<and> within MaxReasonChars (kp_unscheduled_reason p) \<and>
     list_all capped_container (kp_containers p)"

definition capped_resources :: "KubernetesContainerResources \<Rightarrow> bool" where
  "capped_resources k \<longleftrightarrow> within MaxIdentifierChars (kr_container k) \<and>
     list_all (within MaxQuantityChars) [kr_cpu_request k, kr_cpu_limit k, kr_memory_request k, kr_memory_limit k]"

definition capped_summary :: "KubernetesWorkloadSummary \<Rightarrow> bool" where
  "capped_summary k \<longleftrightarrow> list_all (within MaxIdentifierChars) [kw_kind k, kw_name k, kw_namespace k, kw_uid k] \<and>
     list_all (within MaxImageChars) (kw_selector_summary k # kw_container_images k) \<and>
     list_all capped_resources (kw_container_resources k)"

definition capped_event :: "KubernetesEvent \<Rightarrow> bool" where
  "capped_event k \<longleftrightarrow> list_all (within MaxReasonChars) [ke_type k, ke_reason k] \<and> within MaxMessageChars (ke_message k) \<and>
     list_all (within MaxIdentifierChars) [ke_source_component k, io_kind (ke_involved_object k),
       io_name (ke_involved_object k), io_uid (ke_involved_object k)]"

definition capped_result :: "CapabilityResult \<Rightarrow> bool" where
  "capped_result v =
     (case cr_result v of
        Result_KubernetesWorkloadRuntimeV1 r \<Rightarrow>
          (case wr_workload r of None \<Rightarrow> True | Some w \<Rightarrow> capped_summary w) \<and> list_all capped_pod (wr_pods r)
      | Result_KubernetesNamespaceEventsV1 r \<Rightarrow> list_all capped_event (er_events r)
      | Result_KubernetesContainerLogsV1 r \<Rightarrow>
          list_all (\<lambda>l. within MaxLogLineChars (ll_content l)) (lr_lines r))"

lemma within_CapChars [simp]: "within n (CapChars v n)"
  by (simp add: within_def CapChars_runes)

lemmas cap_defs = CapIdentifier_def CapReason_def CapImage_def CapQuantity_def CapMessage_def CapLogLine_def

lemma within_Nil [simp]: "within n []"
  by (simp add: within_def runes_def)

lemma capped_MapPod: "capped_pod (MapPod pod)"
  by (auto simp: capped_pod_def MapPod_def cap_defs list_all_iff capped_container_def mapContainer_def mapState_def
      capped_termination_def mapTermination_def split: option.splits)

lemma capped_summary_summary:
  assumes "within MaxIdentifierChars kind"
  shows "capped_summary (summary order kind meta template selector k)"
  using assms
  by (auto simp: capped_summary_def summary_def cap_defs list_all_iff capped_resources_def container_resources_def
      quantityOf_def split: option.splits)

lemma capped_fetchWorkload:
  assumes "fetchWorkload c args = Inr (w, s)"
  shows "capped_summary w"
proof -
  have "within MaxIdentifierChars ''deployment''" "within MaxIdentifierChars ''statefulset''"
    "within MaxIdentifierChars ''daemonset''" by code_simp+
  then show ?thesis
    using assms
    by (auto simp: fetchWorkload_def MapDeploymentSummary_def MapStatefulSetSummary_def MapDaemonSetSummary_def
        capped_summary_summary split: if_splits sum.splits)
qed

lemma capped_runtime: "capped_result \<lparr>cr_redaction = None, cr_result = Result_KubernetesWorkloadRuntimeV1 (runtime_read options c args)\<rparr>"
  using capped_fetchWorkload [of c args]
  by (auto simp: capped_result_def runtime_read_def runtime_result_def Let_def list_all_iff capped_MapPod
      split: sum.splits option.splits prod.splits)

lemma capped_events: "capped_result \<lparr>cr_redaction = None, cr_result = Result_KubernetesNamespaceEventsV1 (events_read options c args)\<rparr>"
  by (auto simp: capped_result_def events_read_def Let_def list_all_iff admitted_eq capped_event_def wire_event_def
      mapEvent_def cap_defs split: sum.splits)

lemma capped_applyBounds:
  "\<forall>l \<in> set ls. within n (li_content l) \<Longrightarrow> list_all (\<lambda>l. within n (ll_content l)) (bl_lines (applyBounds ls t lb bb))"
  by (auto simp: applyBounds_def Let_def list_all_iff emit_def split: prod.splits dest!: in_set_dropD)

lemma capped_logs: "capped_result \<lparr>cr_redaction = None, cr_result = Result_KubernetesContainerLogsV1 (logs_read options c args)\<rparr>"
proof -
  have "\<forall>l \<in> set (parseLines r). within MaxLogLineChars (li_content l)" for r
    using parseLines_bytes by (auto simp: within_def)
  from capped_applyBounds [OF this] show ?thesis
    by (auto simp: capped_result_def logs_read_def logs_basis_def Let_def split: sum.splits)
qed

text \<open>C15: Every string of every result a compiled capability produces obeys the cap of its field
  (internal/capabilities/fieldcap.go): identifiers 253 runes, reasons 128, images 256, quantities 32, event
  messages 1024 and log lines 8192.\<close>

theorem results_capped:
  assumes "logs_Execute lo c job = Some r \<or> events_Execute eo c job = Some r \<or> runtime_Execute ro c job = Some r"
    and "GetResult r = Some v"
  shows "capped_result v"
  using assms capped_logs capped_events capped_runtime
  by (auto simp: logs_Execute_def events_Execute_def runtime_Execute_def Let_def split: if_splits dest!: GetResult_Run)

lemma logs_Execute_example:
  "logs_Execute open_logs example_world logs_job = Some (Run example_world logs_job
    \<lparr>re_Result = \<lparr>cr_redaction = None, cr_result = Result_KubernetesContainerLogsV1 (logs_read open_logs example_world logs_args)\<rparr>,
     re_Reached = (lr_outcome (logs_read open_logs example_world logs_args) \<noteq> LOGS_UNREACHABLE)\<rparr>)"
proof -
  have "logs_validArgs (Some logs_args)" "AllowsNamespace (lx_Policy open_logs) (la_namespace logs_args)"
    "GetKubernetesContainerLogsV1 (ja_arguments logs_job) = Some logs_args"
    by (code_simp, code_simp, simp add: logs_job_def GetKubernetesContainerLogsV1_def)
  then show ?thesis by (simp add: logs_Execute_def Let_def)
qed

theorem results_capped_witness:
  "capped_result \<lparr>cr_redaction = None, cr_result = Result_KubernetesContainerLogsV1 (logs_read open_logs example_world logs_args)\<rparr>"
  by (rule results_capped [OF disjI1 [OF logs_Execute_example]])
    (simp add: Run_def GetResult_def logs_job_def example_world_def)

section \<open>The registry\<close>

text \<open>C18: A registry (internal/capabilities/registry.go) advertises exactly the identities registered, each once, in
  the order of identifier and version, whatever the iteration order of the map. An assignment for a registered
  identity goes to the executor registered last under it; any other is refused as an unsupported version.\<close>

theorem registry_advertises_what_it_routes:
  fixes xs :: "(CapabilityDescriptor \<times> ('c, 'p) executor) list"
  shows "set (Descriptors (registering xs)) = fst ` set xs \<and>
    sorted_wrt descriptor_less (Descriptors (registering xs)) \<and>
    Descriptors (rev (registering xs)) = Descriptors (registering xs) \<and>
    Registry_Execute (registering xs) c job =
      (case map_of (rev xs) (descriptor_of job) of
         None \<Rightarrow> Some (Failure job KIND_UNSUPPORTED_CAPABILITY_VERSION) | Some execute \<Rightarrow> execute c job)"
  using Descriptors_registering [of xs] Descriptors_sorted [OF registering_wf [of xs]] Descriptors_order [of "rev (registering xs)"]
    registering_get [of xs "descriptor_of job"]
  by (simp add: Registry_Execute_def descriptor_of_def)

end
