(* ===== verification/Go_Sha256.thy ===== *)
theory Go_Sha256
  imports Relay_Prelude "HOL-Library.Word"
begin

text \<open>
  The parts of crypto/sha256 and encoding/hex the program uses: the digest of a byte string (Sum256, and New with a
  sequence of Write calls, which digests their concatenation) and its lowercase hexadecimal form.
\<close>

unbundle bit_operations_syntax

section \<open>Words\<close>

type_synonym u32 = "32 word"

definition rotr :: "nat \<Rightarrow> u32 \<Rightarrow> u32" where
  "rotr n w = drop_bit n w OR push_bit (32 - n) w"

text \<open>
  The constants are the leading 32 bits of the fractional parts of roots of the first primes, which is how the
  standard defines them: \<open>root_bits k b n r\<close> extends \<open>r\<close> bit by bit to the largest number whose k-th power is at
  most \<open>n\<close>.
\<close>

fun root_bits :: "nat \<Rightarrow> nat \<Rightarrow> int \<Rightarrow> int \<Rightarrow> int" where
  "root_bits k 0 n r = r"
| "root_bits k (Suc b) n r = root_bits k b n (if (r + 2 ^ b) ^ k \<le> n then r + 2 ^ b else r)"

definition fractional_root :: "nat \<Rightarrow> int \<Rightarrow> u32" where
  "fractional_root k p = of_int (root_bits k 36 (p * 2 ^ (32 * k)) 0)"

definition first_primes :: "nat \<Rightarrow> int list" where
  "first_primes n = take n (filter (\<lambda>p. list_all (\<lambda>d. p mod d \<noteq> 0) [2..p - 1]) [2..311])"

definition round_constants :: "u32 list" where
  "round_constants = map (fractional_root 3) (first_primes 64)"

record hash_state =
  h0 :: u32
  h1 :: u32
  h2 :: u32
  h3 :: u32
  h4 :: u32
  h5 :: u32
  h6 :: u32
  h7 :: u32

definition initial_hash :: hash_state where
  "initial_hash =
     (let h = map (fractional_root 2) (first_primes 8)
      in \<lparr>h0 = h ! 0, h1 = h ! 1, h2 = h ! 2, h3 = h ! 3, h4 = h ! 4, h5 = h ! 5, h6 = h ! 6, h7 = h ! 7\<rparr>)"

section \<open>Blocks\<close>

definition word_of_bytes :: "string \<Rightarrow> u32" where
  "word_of_bytes bs = foldl (\<lambda>w c. push_bit 8 w OR of_char c) 0 bs"

definition bytes_of_word :: "u32 \<Rightarrow> string" where
  "bytes_of_word w = map (\<lambda>n. char_of (unat (drop_bit n w))) [24, 16, 8, 0]"

definition length_bytes :: "nat \<Rightarrow> string" where
  "length_bytes n = map (\<lambda>k. char_of (n * 8 div 2 ^ k)) [56, 48, 40, 32, 24, 16, 8, 0]"

definition padding :: "nat \<Rightarrow> string" where
  "padding n = CHR 0x80 # replicate ((119 - n mod 64) mod 64) (CHR 0x00) @ length_bytes n"

fun chunks :: "nat \<Rightarrow> nat \<Rightarrow> 'a list \<Rightarrow> 'a list list" where
  "chunks 0 n xs = []"
| "chunks (Suc k) n xs = take n xs # chunks k n (drop n xs)"

definition schedule_step :: "u32 list \<Rightarrow> u32 list" where
  "schedule_step ws =
     (let w15 = ws ! 14; w2 = ws ! 1;
          s0 = rotr 7 w15 XOR rotr 18 w15 XOR drop_bit 3 w15;
          s1 = rotr 17 w2 XOR rotr 19 w2 XOR drop_bit 10 w2
      in (ws ! 15 + s0 + ws ! 6 + s1) # ws)"

definition schedule :: "u32 list \<Rightarrow> u32 list" where
  "schedule block = rev ((schedule_step ^^ 48) (rev block))"

definition hash_round :: "u32 \<times> u32 \<Rightarrow> hash_state \<Rightarrow> hash_state" where
  "hash_round kw s =
     (let a = h0 s; b = h1 s; c = h2 s; e = h4 s; f = h5 s; g = h6 s;
          s1 = rotr 6 e XOR rotr 11 e XOR rotr 25 e;
          ch = (e AND f) XOR (NOT e AND g);
          t1 = h7 s + s1 + ch + fst kw + snd kw;
          s0 = rotr 2 a XOR rotr 13 a XOR rotr 22 a;
          maj = (a AND b) XOR (a AND c) XOR (b AND c);
          t2 = s0 + maj
      in \<lparr>h0 = t1 + t2, h1 = a, h2 = b, h3 = c, h4 = h3 s + t1, h5 = e, h6 = f, h7 = g\<rparr>)"

definition add_hash :: "hash_state \<Rightarrow> hash_state \<Rightarrow> hash_state" where
  "add_hash s t = \<lparr>h0 = h0 s + h0 t, h1 = h1 s + h1 t, h2 = h2 s + h2 t, h3 = h3 s + h3 t,
     h4 = h4 s + h4 t, h5 = h5 s + h5 t, h6 = h6 s + h6 t, h7 = h7 s + h7 t\<rparr>"

definition hash_block :: "string \<Rightarrow> hash_state \<Rightarrow> hash_state" where
  "hash_block block s =
     add_hash s (fold hash_round (zip round_constants (schedule (map word_of_bytes (chunks 16 4 block)))) s)"

definition Sum256 :: "string \<Rightarrow> string" where
  "Sum256 data =
     (let message = data @ padding (length data);
          s = fold hash_block (chunks (length message div 64) 64 message) initial_hash
      in concat (map bytes_of_word [h0 s, h1 s, h2 s, h3 s, h4 s, h5 s, h6 s, h7 s]))"

section \<open>Hexadecimal\<close>

definition hex_digit :: "nat \<Rightarrow> char" where
  "hex_digit n = (if n < 10 then char_of (48 + n) else char_of (87 + n))"

definition EncodeToString :: "string \<Rightarrow> string" where
  "EncodeToString bs = concat (map (\<lambda>c. [hex_digit (of_char c div 16), hex_digit (of_char c mod 16)]) bs)"

lemma length_Sum256 [simp]: "length (Sum256 data) = 32"
  by (simp add: Sum256_def Let_def bytes_of_word_def)

lemma length_EncodeToString [simp]: "length (EncodeToString bs) = 2 * length bs"
  by (induction bs) (simp_all add: EncodeToString_def)

lemma padded_length:
  fixes n :: nat
  shows "(n + 1 + (119 - n mod 64) mod 64 + 8) mod 64 = 0"
proof -
  define m where "m = n mod 64"
  have m: "m < 64" by (simp add: m_def)
  have split: "(n + q) mod 64 = (m + q) mod 64" for q by (simp add: m_def mod_add_left_eq)
  have "(m + (1 + (119 - m) mod 64 + 8)) mod 64 = 0"
  proof (cases "m \<le> 55")
    case True
    then have "(119 - m) mod 64 = 55 - m" using le_mod_geq [of 64 "119 - m"] by simp
    then show ?thesis using True by simp
  next
    case False
    then show ?thesis using m by simp
  qed
  then have "(n + (1 + (119 - m) mod 64 + 8)) mod 64 = 0" by (simp only: split)
  then show ?thesis by (simp only: m_def ac_simps)
qed

lemma length_padding: "64 dvd length (data @ padding (length data))"
proof -
  have "length (data @ padding n) = length data + 1 + (119 - n mod 64) mod 64 + 8" for n
    by (simp add: padding_def length_bytes_def)
  then show ?thesis by (simp only: dvd_eq_mod_eq_0 padded_length)
qed

end
