(* ===== verification/Kube_Inventory.thy ===== *)
theory Kube_Inventory
  imports Kube_Port Go_Sha256 Go_Strconv
begin

text \<open>
  internal/kube/inventory.go: the bounded inventory reads, which reduce workloads to declared intent and ConfigMaps
  and Secrets to identity and version.

  The API server and the metadata client are a parameter, the record \<open>inventory_api\<close>: what each list answers for a
  namespace and a limit. The serialization of a pod spec (encoding/json over the types of the client library) is
  its field \<open>ia_marshal\<close>, with \<open>None\<close> for an error.
\<close>

section \<open>Intents and pages\<close>

record ContainerIntent =
  ci_Name :: string
  ci_Init :: bool
  ci_Image :: string
  ci_RequestsCPU :: string
  ci_RequestsMemory :: string
  ci_LimitsCPU :: string
  ci_LimitsMemory :: string

record WorkloadIntent =
  wi_Kind :: string
  wi_Namespace :: string
  wi_Name :: string
  wi_UID :: string
  wi_Generation :: int
  wi_ControllerRevision :: string
  wi_Replicas :: string
  wi_Containers :: "ContainerIntent list"
  wi_ConfigMapRefs :: "string list"
  wi_SecretRefs :: "string list"
  wi_TemplateHash :: string

record InventoryPage =
  ip_Workloads :: "WorkloadIntent list"
  ip_Truncated :: bool

record ConfigVersion =
  cv_Namespace :: string
  cv_Name :: string
  cv_UID :: string
  cv_ResourceVersion :: string

record ConfigVersionPage =
  cp_Versions :: "ConfigVersion list"
  cp_Truncated :: bool

text \<open>An item of a metadata-only list has an identity and a version and nothing else the program could read.\<close>

record PartialObjectMetadata =
  pm_Namespace :: string
  pm_Name :: string
  pm_UID :: string
  pm_ResourceVersion :: string

record inventory_api =
  ia_deployments :: "string \<Rightarrow> int \<Rightarrow> api_error + (Workload list \<times> string)"
  ia_statefulsets :: "string \<Rightarrow> int \<Rightarrow> api_error + (Workload list \<times> string)"
  ia_daemonsets :: "string \<Rightarrow> int \<Rightarrow> api_error + (DaemonSet list \<times> string)"
  ia_metadata :: "string \<Rightarrow> string \<Rightarrow> int \<Rightarrow> api_error + (PartialObjectMetadata list \<times> string)"
  ia_marshal :: "PodSpec \<Rightarrow> string option"

section \<open>References\<close>

text \<open>A set of names is a Go map to \<open>true\<close>; a nil reference adds nothing.\<close>

type_synonym name_set = "(string, bool) gomap"

definition note_name :: "string option \<Rightarrow> name_set \<Rightarrow> name_set" where
  "note_name ref names = (case ref of None \<Rightarrow> names | Some name \<Rightarrow> gomap_set name True names)"

definition note_refs :: "(string option \<times> string option) list \<Rightarrow> name_set \<times> name_set \<Rightarrow> name_set \<times> name_set" where
  "note_refs refs sets =
     foldl (\<lambda>(configMaps, secrets) (c, s). (note_name c configMaps, note_name s secrets)) sets refs"

definition container_refs :: "Container \<Rightarrow> (string option \<times> string option) list" where
  "container_refs container =
     map (\<lambda>env. (ev_ConfigMapKeyRef env, ev_SecretKeyRef env)) (co_Env container) @
     map (\<lambda>envFrom. (ef_ConfigMapRef envFrom, ef_SecretRef envFrom)) (co_EnvFrom container)"

definition volume_refs :: "Volume \<Rightarrow> (string option \<times> string option) list" where
  "volume_refs volume =
     (vs_ConfigMap (vo_Source volume), vs_Secret (vo_Source volume)) #
     (case vo_Projected volume of
        None \<Rightarrow> []
      | Some sources \<Rightarrow> map (\<lambda>source. (vs_ConfigMap source, vs_Secret source)) sources)"

definition spec_refs :: "PodSpec \<Rightarrow> (string option \<times> string option) list" where
  "spec_refs spec =
     concat (map container_refs (sp_InitContainers spec @ sp_Containers spec)) @
     concat (map volume_refs (sp_Volumes spec)) @
     map (\<lambda>pull. (None, Some pull)) (sp_ImagePullSecrets spec)"

definition sortedNames :: "name_set \<Rightarrow> string list" where
  "sortedNames names = (if names = [] then [] else sort_strings (gomap_keys names))"

definition referencedConfigs :: "PodSpec \<Rightarrow> string list \<times> string list" where
  "referencedConfigs spec =
     (case note_refs (spec_refs spec) ([], []) of
        (configMapSet, secretSet) \<Rightarrow> (sortedNames configMapSet, sortedNames secretSet))"

section \<open>Intent of a workload\<close>

definition hashTemplate :: "inventory_api \<Rightarrow> PodSpec \<Rightarrow> string" where
  "hashTemplate api template =
     (case ia_marshal api template of
        None \<Rightarrow> ''unhashable''
      | Some encoded \<Rightarrow> EncodeToString (take 6 (Sum256 encoded)))"

definition quantity :: "ResourceList \<Rightarrow> string \<Rightarrow> string" where
  "quantity resources name = (case gomap_get resources name of None \<Rightarrow> [] | Some v \<Rightarrow> v)"

definition containerIntent :: "bool \<Rightarrow> Container \<Rightarrow> ContainerIntent" where
  "containerIntent init container =
     \<lparr>ci_Name = co_Name container, ci_Init = init, ci_Image = co_Image container,
      ci_RequestsCPU = quantity (co_Requests container) ''cpu'',
      ci_RequestsMemory = quantity (co_Requests container) ''memory'',
      ci_LimitsCPU = quantity (co_Limits container) ''cpu'',
      ci_LimitsMemory = quantity (co_Limits container) ''memory''\<rparr>"

definition declaredReplicas :: "int option \<Rightarrow> string" where
  "declaredReplicas replicas = (case replicas of None \<Rightarrow> [] | Some n \<Rightarrow> Itoa n)"

definition templateIntent :: "inventory_api \<Rightarrow> string \<Rightarrow> ObjectMeta \<Rightarrow> PodSpec \<Rightarrow> WorkloadIntent" where
  "templateIntent api kind meta template =
     \<lparr>wi_Kind = kind, wi_Namespace = om_Namespace meta, wi_Name = om_Name meta, wi_UID = om_UID meta,
      wi_Generation = om_Generation meta, wi_ControllerRevision = [], wi_Replicas = [],
      wi_Containers = map (containerIntent True) (sp_InitContainers template) @
        map (containerIntent False) (sp_Containers template),
      wi_ConfigMapRefs = fst (referencedConfigs template), wi_SecretRefs = snd (referencedConfigs template),
      wi_TemplateHash = hashTemplate api template\<rparr>"

definition deploymentIntent :: "inventory_api \<Rightarrow> Workload \<Rightarrow> WorkloadIntent" where
  "deploymentIntent api deployment =
     (templateIntent api ''deployment'' (wl_Meta deployment) (wl_Template deployment))
       \<lparr>wi_Replicas := declaredReplicas (wl_Replicas deployment),
        wi_ControllerRevision :=
          (case gomap_get (om_Annotations (wl_Meta deployment)) ''deployment.kubernetes.io/revision'' of
             None \<Rightarrow> [] | Some revision \<Rightarrow> revision)\<rparr>"

definition statefulSetIntent :: "inventory_api \<Rightarrow> Workload \<Rightarrow> WorkloadIntent" where
  "statefulSetIntent api statefulSet =
     (templateIntent api ''statefulset'' (wl_Meta statefulSet) (wl_Template statefulSet))
       \<lparr>wi_Replicas := declaredReplicas (wl_Replicas statefulSet)\<rparr>"

definition daemonSetIntent :: "inventory_api \<Rightarrow> DaemonSet \<Rightarrow> WorkloadIntent" where
  "daemonSetIntent api daemonSet = templateIntent api ''daemonset'' (ds_Meta daemonSet) (ds_Template daemonSet)"

section \<open>The lister\<close>

definition ListWorkloadIntents :: "inventory_api \<Rightarrow> string \<Rightarrow> int \<Rightarrow> kube_error + InventoryPage" where
  "ListWorkloadIntents api namespace limit =
     (if limit < 1 then Inl RefusedRead
      else case ia_deployments api namespace limit of
        Inl err \<Rightarrow> Inl (mapReadError err)
      | Inr (deployments, continueD) \<Rightarrow>
          (case ia_statefulsets api namespace limit of
             Inl err \<Rightarrow> Inl (mapReadError err)
           | Inr (statefulSets, continueS) \<Rightarrow>
               (case ia_daemonsets api namespace limit of
                  Inl err \<Rightarrow> Inl (mapReadError err)
                | Inr (daemonSets, continueA) \<Rightarrow>
                    Inr \<lparr>ip_Workloads = map (deploymentIntent api) deployments @
                           map (statefulSetIntent api) statefulSets @ map (daemonSetIntent api) daemonSets,
                         ip_Truncated = (continueD \<noteq> [] \<or> continueS \<noteq> [] \<or> continueA \<noteq> [])\<rparr>)))"

definition config_version :: "PartialObjectMetadata \<Rightarrow> ConfigVersion" where
  "config_version item =
     \<lparr>cv_Namespace = pm_Namespace item, cv_Name = pm_Name item, cv_UID = pm_UID item,
      cv_ResourceVersion = pm_ResourceVersion item\<rparr>"

definition listVersions :: "inventory_api \<Rightarrow> string \<Rightarrow> string \<Rightarrow> int \<Rightarrow> kube_error + ConfigVersionPage" where
  "listVersions api resource namespace limit =
     (if limit < 1 then Inl RefusedRead
      else case ia_metadata api resource namespace limit of
        Inl err \<Rightarrow> Inl (mapReadError err)
      | Inr (items, continue) \<Rightarrow>
          Inr \<lparr>cp_Versions = map config_version items, cp_Truncated = (continue \<noteq> [])\<rparr>)"

definition ListConfigMapVersions :: "inventory_api \<Rightarrow> string \<Rightarrow> int \<Rightarrow> kube_error + ConfigVersionPage" where
  "ListConfigMapVersions api namespace limit = listVersions api ''configmaps'' namespace limit"

definition ListSecretVersions :: "inventory_api \<Rightarrow> string \<Rightarrow> int \<Rightarrow> kube_error + ConfigVersionPage" where
  "ListSecretVersions api namespace limit = listVersions api ''secrets'' namespace limit"

section \<open>What is referenced\<close>

definition names_of :: "'a option list \<Rightarrow> 'a set" where
  "names_of refs = {name. Some name \<in> set refs}"

lemma names_of_simps [simp]:
  "names_of [] = {}" "names_of (None # refs) = names_of refs" "names_of (Some x # refs) = insert x (names_of refs)"
  by (auto simp: names_of_def)

lemma note_refs_split:
  "note_refs refs (cs, ss) =
     (foldl (\<lambda>m x. note_name x m) cs (map fst refs), foldl (\<lambda>m x. note_name x m) ss (map snd refs))"
  by (induction refs arbitrary: cs ss) (simp_all add: note_refs_def split_beta)

lemma note_names_keys:
  "set (gomap_keys (foldl (\<lambda>m x. note_name x m) m refs)) = set (gomap_keys m) \<union> names_of refs"
proof (induction refs arbitrary: m)
  case (Cons x refs)
  then show ?case by (cases x) (auto simp: note_name_def gomap_has_set simp flip: gomap_has_iff_key)
qed simp

lemma note_names_wf: "gomap_wf m \<Longrightarrow> gomap_wf (foldl (\<lambda>m x. note_name x m) m refs)"
  by (induction refs arbitrary: m) (simp_all add: note_name_def split: option.splits)

lemma sortedNames_exact:
  assumes "gomap_wf names"
  shows "set (sortedNames names) = set (gomap_keys names) \<and> sorted_wrt (<) (sortedNames names)"
  using assms sort_strings_strict [of "gomap_keys names"]
  by (auto simp: sortedNames_def gomap_wf_def gomap_keys_def)

lemma referencedConfigs_exact:
  "set (fst (referencedConfigs spec)) = names_of (map fst (spec_refs spec))"
  "set (snd (referencedConfigs spec)) = names_of (map snd (spec_refs spec))"
  "sorted_wrt (<) (fst (referencedConfigs spec))" "sorted_wrt (<) (snd (referencedConfigs spec))"
  by (simp_all add: referencedConfigs_def note_refs_split sortedNames_exact note_names_wf note_names_keys)

end
