(* ===== verification/Inventory_Diff.thy ===== *)
theory Inventory_Diff
  imports Kube_Inventory Relay_Wire
begin

text \<open>
  internal/inventory/snapshot.go and diff.go: what one observation of a scope holds, the revision of an object, and
  the changes between two observations.

  The lemmas show that the reported changes are exactly the objects whose revision moved, and that a ledger which
  applies them arrives at the revisions of the later observation.
\<close>

section \<open>Objects\<close>

definition kind_number :: "InventoryObjectKind \<Rightarrow> nat" where
  "kind_number kind =
     (case kind of KIND_NONE \<Rightarrow> 0 | KIND_DEPLOYMENT \<Rightarrow> 1 | KIND_STATEFULSET \<Rightarrow> 2 | KIND_DAEMONSET \<Rightarrow> 3
      | KIND_CONFIGMAP \<Rightarrow> 4 | KIND_SECRET \<Rightarrow> 5)"

lemma kind_number_inject: "kind_number a = kind_number b \<Longrightarrow> a = b"
  by (cases a; cases b) (simp_all add: kind_number_def)

instantiation InventoryObjectKind :: linorder
begin

definition less_eq_InventoryObjectKind :: "InventoryObjectKind \<Rightarrow> InventoryObjectKind \<Rightarrow> bool" where
  "less_eq_InventoryObjectKind a b \<longleftrightarrow> kind_number a \<le> kind_number b"

definition less_InventoryObjectKind :: "InventoryObjectKind \<Rightarrow> InventoryObjectKind \<Rightarrow> bool" where
  "less_InventoryObjectKind a b \<longleftrightarrow> kind_number a < kind_number b"

instance
  by standard (auto simp: less_eq_InventoryObjectKind_def less_InventoryObjectKind_def kind_number_inject)

end

record ObjectKey =
  ok_Kind :: InventoryObjectKind
  ok_Namespace :: string
  ok_Name :: string
  ok_UID :: string

type_synonym Fields = "(string, string) gomap"

record ObjectState =
  os_Revision :: string
  os_Fields :: Fields

type_synonym Snapshot = "(ObjectKey, ObjectState) gomap"

definition workloadKinds :: "(string, InventoryObjectKind) gomap" where
  "workloadKinds =
     [(''deployment'', KIND_DEPLOYMENT), (''statefulset'', KIND_STATEFULSET), (''daemonset'', KIND_DAEMONSET)]"

text \<open>Reading a missing key of a Go map of strings gives the empty string.\<close>

definition field :: "Fields \<Rightarrow> string \<Rightarrow> string" where
  "field fs name = (case gomap_get fs name of None \<Rightarrow> [] | Some v \<Rightarrow> v)"

definition setIfPresent :: "string \<Rightarrow> string \<Rightarrow> Fields \<Rightarrow> Fields" where
  "setIfPresent name v fs = (if v \<noteq> [] then gomap_set name v fs else fs)"

definition digestFields :: "Fields \<Rightarrow> string" where
  "digestFields fs =
     take 12 (EncodeToString (Sum256 (concat
       (map (\<lambda>name. name @ [CHR 0x00] @ field fs name @ [CHR 0x00]) (sort_strings (gomap_keys fs))))))"

definition container_fields :: "ContainerIntent \<Rightarrow> Fields \<Rightarrow> Fields" where
  "container_fields container fs =
     (let prefx = ''spec.template.spec.'' @ (if ci_Init container then ''initContainers'' else ''containers'') @
            ''['' @ ci_Name container @ '']'';
          f1 = gomap_set (prefx @ ''.image'') (ci_Image container) fs;
          f2 = setIfPresent (prefx @ ''.resources.requests.cpu'') (ci_RequestsCPU container) f1;
          f3 = setIfPresent (prefx @ ''.resources.requests.memory'') (ci_RequestsMemory container) f2;
          f4 = setIfPresent (prefx @ ''.resources.limits.cpu'') (ci_LimitsCPU container) f3
      in setIfPresent (prefx @ ''.resources.limits.memory'') (ci_LimitsMemory container) f4)"

definition workload_fields :: "WorkloadIntent \<Rightarrow> Fields" where
  "workload_fields intent =
     (let f1 = setIfPresent ''spec.replicas'' (wi_Replicas intent) [];
          f2 = setIfPresent ''metadata.annotations[deployment.kubernetes.io/revision]'' (wi_ControllerRevision intent) f1;
          f3 = foldl (\<lambda>fs container. container_fields container fs) f2 (wi_Containers intent);
          f4 = setIfPresent ''references.configMaps'' (Join (wi_ConfigMapRefs intent) '','') f3;
          f5 = setIfPresent ''references.secrets'' (Join (wi_SecretRefs intent) '','') f4
      in gomap_set ''spec.template'' (wi_TemplateHash intent) f5)"

definition workloadState :: "WorkloadIntent \<Rightarrow> ObjectKey \<times> ObjectState" where
  "workloadState intent =
     (\<lparr>ok_Kind = (case gomap_get workloadKinds (wi_Kind intent) of None \<Rightarrow> KIND_NONE | Some kind \<Rightarrow> kind),
       ok_Namespace = wi_Namespace intent, ok_Name = wi_Name intent, ok_UID = wi_UID intent\<rparr>,
      \<lparr>os_Revision = ''g'' @ Itoa (wi_Generation intent) @ ''.'' @ digestFields (workload_fields intent),
       os_Fields = workload_fields intent\<rparr>)"

definition configState :: "InventoryObjectKind \<Rightarrow> ConfigVersion \<Rightarrow> ObjectKey \<times> ObjectState" where
  "configState kind version =
     (\<lparr>ok_Kind = kind, ok_Namespace = cv_Namespace version, ok_Name = cv_Name version, ok_UID = cv_UID version\<rparr>,
      \<lparr>os_Revision = cv_ResourceVersion version,
       os_Fields = [(''metadata.resourceVersion'', cv_ResourceVersion version)]\<rparr>)"

definition key_less :: "ObjectKey \<Rightarrow> ObjectKey \<Rightarrow> bool" where
  "key_less a b =
     (if ok_Namespace a \<noteq> ok_Namespace b then ok_Namespace a < ok_Namespace b
      else if ok_Kind a \<noteq> ok_Kind b then ok_Kind a < ok_Kind b
      else if ok_Name a \<noteq> ok_Name b then ok_Name a < ok_Name b
      else ok_UID a < ok_UID b)"

definition sortedKeys :: "Snapshot \<Rightarrow> ObjectKey list" where
  "sortedKeys snapshot = sort_slice key_less (gomap_keys snapshot)"

section \<open>Changes\<close>

definition objectChange ::
  "ObjectKey \<Rightarrow> string \<Rightarrow> InventoryChangeKind \<Rightarrow> InventoryFieldChange list \<Rightarrow> InventoryObjectChange" where
  "objectChange key revision kind changed =
     \<lparr>oc_namespace = ok_Namespace key, oc_kind = ok_Kind key, oc_name = ok_Name key, oc_uid = ok_UID key,
      oc_observed_revision = revision, oc_change = kind, oc_fields = changed\<rparr>"

definition maxFieldValueBytes :: nat where
  "maxFieldValueBytes = 512"

definition clip :: "string \<Rightarrow> string" where
  "clip v =
     (if length v \<le> maxFieldValueBytes then v
      else take (maxFieldValueBytes - length ''...clipped'') v @ ''...clipped'')"

definition see_name :: "(string, bool) gomap \<times> string list \<Rightarrow> string \<Rightarrow> (string, bool) gomap \<times> string list" where
  "see_name acc name =
     (if gomap_has (fst acc) name then acc else (gomap_set name True (fst acc), snd acc @ [name]))"

definition sortedFieldNames :: "Fields \<Rightarrow> Fields \<Rightarrow> string list" where
  "sortedFieldNames a b =
     sort_strings (snd (foldl see_name (foldl see_name ([], []) (gomap_keys a)) (gomap_keys b)))"

definition fieldValues :: "Fields \<Rightarrow> InventoryFieldChange list" where
  "fieldValues fs =
     map (\<lambda>name. \<lparr>fc_field = name, fc_before = [], fc_after = clip (field fs name)\<rparr>) (sortedFieldNames fs [])"

definition isTemplateField :: "string \<Rightarrow> bool" where
  "isTemplateField name \<longleftrightarrow>
     length name > length ''spec.template.'' \<and> take (length ''spec.template.'') name = ''spec.template.''"

definition difference_step ::
  "Fields \<Rightarrow> Fields \<Rightarrow> InventoryFieldChange list \<times> bool \<Rightarrow> string \<Rightarrow> InventoryFieldChange list \<times> bool" where
  "difference_step before after acc name =
     (if field before name = field after name then acc
      else if name = ''spec.template'' then acc
      else (fst acc @ [\<lparr>fc_field = name, fc_before = clip (field before name), fc_after = clip (field after name)\<rparr>],
            snd acc \<or> isTemplateField name))"

definition fieldDifferences :: "Fields \<Rightarrow> Fields \<Rightarrow> InventoryFieldChange list" where
  "fieldDifferences before after =
     (case foldl (difference_step before after) ([], False) (sortedFieldNames before after) of
        (changes, templateItemized) \<Rightarrow>
          if field before ''spec.template'' \<noteq> field after ''spec.template'' \<and> \<not> templateItemized
          then changes @ [\<lparr>fc_field = ''spec.template'', fc_before = field before ''spec.template'',
                           fc_after = field after ''spec.template''\<rparr>]
          else changes)"

definition diff_current :: "Snapshot \<Rightarrow> Snapshot \<Rightarrow> ObjectKey \<Rightarrow> InventoryObjectChange list" where
  "diff_current previous current key =
     (let state = the (gomap_get current key) in
      case gomap_get previous key of
        None \<Rightarrow> [objectChange key (os_Revision state) CHANGE_CREATED (fieldValues (os_Fields state))]
      | Some before \<Rightarrow>
          if os_Revision before = os_Revision state then []
          else [objectChange key (os_Revision state) CHANGE_MODIFIED
                 (fieldDifferences (os_Fields before) (os_Fields state))])"

definition diff_previous :: "Snapshot \<Rightarrow> ObjectKey \<Rightarrow> InventoryObjectChange list" where
  "diff_previous current key = (if gomap_has current key then [] else [objectChange key [] CHANGE_DELETED []])"

definition Diff :: "Snapshot \<Rightarrow> Snapshot \<Rightarrow> InventoryObjectChange list" where
  "Diff previous current =
     concat (map (diff_current previous current) (sortedKeys current)) @
     concat (map (diff_previous current) (sortedKeys previous))"

definition Baseline :: "Snapshot \<Rightarrow> InventoryObjectChange list" where
  "Baseline snapshot =
     map (\<lambda>key. let state = the (gomap_get snapshot key)
                in objectChange key (os_Revision state) CHANGE_CREATED (fieldValues (os_Fields state)))
       (sortedKeys snapshot)"

section \<open>Names and values\<close>

interpretation key_order: slice_total_order key_less
  by unfold_locales (auto simp: key_less_def split: if_splits)

lemma set_sortedKeys [simp]: "set (sortedKeys s) = set (gomap_keys s)"
  by (simp add: sortedKeys_def)

lemma sortedKeys_distinct: "gomap_wf s \<Longrightarrow> distinct (sortedKeys s)"
  by (simp add: sortedKeys_def gomap_wf_def gomap_keys_def)

lemma foldl_see_name:
  assumes "set (gomap_keys seen) = set names" "distinct names"
  shows "case foldl see_name (seen, names) new of (seen', names') \<Rightarrow>
    set (gomap_keys seen') = set names' \<and> distinct names' \<and> set names' = set names \<union> set new"
  using assms
proof (induction new arbitrary: seen names)
  case Nil
  then show ?case by simp
next
  case (Cons n new)
  show ?case
  proof (cases "gomap_has seen n")
    case True
    then have "n \<in> set names" using Cons.prems by (simp add: gomap_has_iff_key)
    then show ?thesis using Cons.IH [OF Cons.prems] True by (auto simp: see_name_def split: prod.splits)
  next
    case False
    then have new: "n \<notin> set names" using Cons.prems by (simp add: gomap_has_iff_key)
    have "set (gomap_keys (gomap_set n True seen)) = set (names @ [n])"
      using Cons.prems False by (auto simp: gomap_keys_set)
    from Cons.IH [OF this] show ?thesis
      using Cons.prems False new by (auto simp: see_name_def split: prod.splits)
  qed
qed

lemma sortedFieldNames_exact:
  "set (sortedFieldNames a b) = set (gomap_keys a) \<union> set (gomap_keys b) \<and> sorted_wrt (<) (sortedFieldNames a b)"
proof -
  obtain seen names where 1: "foldl see_name ([], []) (gomap_keys a) = (seen, names)" by fastforce
  obtain seen' names' where 2: "foldl see_name (seen, names) (gomap_keys b) = (seen', names')" by fastforce
  have "set (gomap_keys seen) = set names" "distinct names" "set names = set (gomap_keys a)"
    using foldl_see_name [of "[]" "[]" "gomap_keys a"] 1 by simp_all
  then show ?thesis
    using foldl_see_name [of seen names "gomap_keys b"] 2 sort_strings_strict [of names']
    by (simp add: sortedFieldNames_def 1)
qed

lemma length_clip: "length (clip v) \<le> 512"
  by (simp add: clip_def maxFieldValueBytes_def)

lemma clip_short: "length v \<le> 512 \<Longrightarrow> clip v = v"
  by (simp add: clip_def maxFieldValueBytes_def)

section \<open>Differences of fields\<close>

definition moved :: "Fields \<Rightarrow> Fields \<Rightarrow> string \<Rightarrow> bool" where
  "moved before after name \<longleftrightarrow> field before name \<noteq> field after name \<and> name \<noteq> ''spec.template''"

definition field_change :: "Fields \<Rightarrow> Fields \<Rightarrow> string \<Rightarrow> InventoryFieldChange" where
  "field_change before after name =
     \<lparr>fc_field = name, fc_before = clip (field before name), fc_after = clip (field after name)\<rparr>"

lemma foldl_difference_step:
  "foldl (difference_step before after) (changes, itemized) names =
     (changes @ map (field_change before after) (filter (moved before after) names),
      itemized \<or> list_ex isTemplateField (filter (moved before after) names))"
  by (induction names arbitrary: changes itemized) (auto simp: difference_step_def moved_def field_change_def)

lemma fieldDifferences_eq:
  "fieldDifferences before after =
     (let names = filter (moved before after) (sortedFieldNames before after)
      in map (field_change before after) names @
         (if field before ''spec.template'' \<noteq> field after ''spec.template'' \<and> \<not> list_ex isTemplateField names
          then [\<lparr>fc_field = ''spec.template'', fc_before = field before ''spec.template'',
                 fc_after = field after ''spec.template''\<rparr>] else []))"
  by (simp add: fieldDifferences_def foldl_difference_step Let_def)

definition bounded_field :: "InventoryFieldChange \<Rightarrow> bool" where
  "bounded_field f \<longleftrightarrow> length (fc_before f) \<le> 512 \<and> length (fc_after f) \<le> 512"

definition bounded_change :: "InventoryObjectChange \<Rightarrow> bool" where
  "bounded_change ch \<longleftrightarrow> list_all bounded_field (oc_fields ch)"

definition short_template :: "Snapshot \<Rightarrow> bool" where
  "short_template s \<longleftrightarrow> (\<forall>k state. gomap_get s k = Some state \<longrightarrow> length (field (os_Fields state) ''spec.template'') \<le> 512)"

lemma bounded_fieldValues: "list_all bounded_field (fieldValues fs)"
  by (simp add: fieldValues_def list_all_iff bounded_field_def length_clip)

lemma bounded_fieldDifferences:
  assumes "length (field before ''spec.template'') \<le> 512" "length (field after ''spec.template'') \<le> 512"
  shows "list_all bounded_field (fieldDifferences before after)"
  using assms by (auto simp: fieldDifferences_eq Let_def list_all_iff bounded_field_def field_change_def length_clip)

section \<open>The ledger\<close>

type_synonym ledger = "ObjectKey \<Rightarrow> string option"

definition change_key :: "InventoryObjectChange \<Rightarrow> ObjectKey" where
  "change_key ch = \<lparr>ok_Kind = oc_kind ch, ok_Namespace = oc_namespace ch, ok_Name = oc_name ch, ok_UID = oc_uid ch\<rparr>"

definition change_after :: "InventoryObjectChange \<Rightarrow> string option" where
  "change_after ch = (if oc_change ch = CHANGE_DELETED then None else Some (oc_observed_revision ch))"

definition apply_change :: "InventoryObjectChange \<Rightarrow> ledger \<Rightarrow> ledger" where
  "apply_change ch l = l(change_key ch := change_after ch)"

definition replay :: "InventoryObjectChange list \<Rightarrow> ledger \<Rightarrow> ledger" where
  "replay chs l = fold apply_change chs l"

definition revisions :: "Snapshot \<Rightarrow> ledger" where
  "revisions s k = map_option os_Revision (gomap_get s k)"

lemma replay_append: "replay (a @ b) l = replay b (replay a l)"
  by (simp add: replay_def)

lemma replay_at:
  "(\<And>ch. ch \<in> set chs \<Longrightarrow> change_key ch = k \<Longrightarrow> change_after ch = v) \<Longrightarrow>
   replay chs l k = (if k \<in> change_key ` set chs then v else l k)"
  by (induction chs arbitrary: l) (auto simp: replay_def apply_change_def)

lemma change_key_objectChange [simp]: "change_key (objectChange key revision kind fs) = key"
  by (simp add: change_key_def objectChange_def)

lemma change_after_objectChange [simp]:
  "change_after (objectChange key revision kind fs) = (if kind = CHANGE_DELETED then None else Some revision)"
  by (simp add: change_after_def objectChange_def)

lemma oc_fields_objectChange [simp]: "oc_fields (objectChange key revision kind fs) = fs"
  by (simp add: objectChange_def)

lemma mem_gomap_keys: "k \<in> set (gomap_keys s) \<longleftrightarrow> (\<exists>state. gomap_get s k = Some state)"
  by (simp add: gomap_has_iff_key [symmetric] gomap_has_get)

lemma diff_current_mem:
  assumes "ch \<in> set (diff_current p c k)" "k \<in> set (gomap_keys c)"
  shows "change_key ch = k" "change_after ch = revisions c k" "revisions p k \<noteq> revisions c k"
  using assms
  by (auto simp: diff_current_def mem_gomap_keys revisions_def Let_def split: option.splits if_splits)

lemma diff_previous_mem:
  assumes "ch \<in> set (diff_previous c k)" "k \<in> set (gomap_keys p)"
  shows "change_key ch = k" "change_after ch = revisions c k" "revisions p k \<noteq> revisions c k"
  using assms
  by (auto simp: diff_previous_def mem_gomap_keys revisions_def gomap_has_None split: if_splits)

lemma Diff_mem:
  assumes "ch \<in> set (Diff p c)"
  shows "change_after ch = revisions c (change_key ch)" "revisions p (change_key ch) \<noteq> revisions c (change_key ch)"
  using assms diff_current_mem diff_previous_mem by (auto simp: Diff_def)

lemma Diff_complete:
  assumes "revisions p k \<noteq> revisions c k"
  shows "k \<in> change_key ` set (Diff p c)"
proof (cases "gomap_get c k")
  case None
  then obtain before where "gomap_get p k = Some before" using assms by (auto simp: revisions_def)
  then have "k \<in> set (gomap_keys p)" by (simp add: mem_gomap_keys)
  moreover have "diff_previous c k = [objectChange k [] CHANGE_DELETED []]"
    using None by (simp add: diff_previous_def gomap_has_None)
  ultimately show ?thesis unfolding Diff_def by (force simp: image_iff)
next
  case (Some state)
  then have k: "k \<in> set (gomap_keys c)" by (simp add: mem_gomap_keys)
  have "\<exists>ch. diff_current p c k = [ch]"
    using Some assms by (auto simp: diff_current_def revisions_def Let_def split: option.splits)
  then obtain ch where ch: "diff_current p c k = [ch]" ..
  then have "change_key ch = k" using diff_current_mem(1) [of ch p c k] k by simp
  then show ?thesis using ch k unfolding Diff_def by (force simp: image_iff)
qed

lemma replay_Diff: "replay (Diff p c) (revisions p) = revisions c"
proof
  fix k
  have "replay (Diff p c) (revisions p) k =
      (if k \<in> change_key ` set (Diff p c) then revisions c k else revisions p k)"
    by (rule replay_at) (auto simp: Diff_mem)
  then show "replay (Diff p c) (revisions p) k = revisions c k" using Diff_complete [of p k c] by auto
qed

lemma replay_Baseline: "replay (Baseline c) Map.empty = revisions c"
proof
  fix k
  have "replay (Baseline c) Map.empty k =
      (if k \<in> change_key ` set (Baseline c) then revisions c k else Map.empty k)"
    by (rule replay_at) (auto simp: Baseline_def mem_gomap_keys revisions_def Let_def)
  moreover have "change_key ` set (Baseline c) = set (gomap_keys c)"
    by (auto simp: Baseline_def image_image Let_def)
  ultimately show "replay (Baseline c) Map.empty k = revisions c k"
    by (auto simp: mem_gomap_keys revisions_def)
qed

section \<open>Each object once, in order\<close>

lemma keys_diff_current:
  assumes "set ks \<subseteq> set (gomap_keys c)"
  shows "map change_key (concat (map (diff_current p c) ks)) = filter (\<lambda>k. revisions p k \<noteq> revisions c k) ks"
  using assms
proof (induction ks)
  case (Cons k ks)
  then obtain state where "gomap_get c k = Some state" by (auto simp: mem_gomap_keys)
  then have "map change_key (diff_current p c k) = (if revisions p k \<noteq> revisions c k then [k] else [])"
    by (auto simp: diff_current_def revisions_def Let_def split: option.splits)
  then show ?case using Cons by simp
qed simp

lemma keys_diff_previous:
  "map change_key (concat (map (diff_previous c) ks)) = filter (\<lambda>k. \<not> gomap_has c k) ks"
  by (induction ks) (auto simp: diff_previous_def)

lemma keys_Diff:
  "map change_key (Diff p c) =
     filter (\<lambda>k. revisions p k \<noteq> revisions c k) (sortedKeys c) @ filter (\<lambda>k. \<not> gomap_has c k) (sortedKeys p)"
  by (simp add: Diff_def keys_diff_current keys_diff_previous)

lemma Diff_distinct: "gomap_wf p \<Longrightarrow> gomap_wf c \<Longrightarrow> distinct (map change_key (Diff p c))"
  by (auto simp: keys_Diff sortedKeys_distinct gomap_has_iff_key)

lemma bounded_Baseline: "list_all bounded_change (Baseline c)"
  using bounded_fieldValues by (auto simp: Baseline_def list_all_iff bounded_change_def Let_def)

lemma bounded_Diff:
  assumes "short_template p" "short_template c"
  shows "list_all bounded_change (Diff p c)"
proof -
  have "list_all bounded_change (diff_current p c k)" if "k \<in> set (gomap_keys c)" for k
    using that assms bounded_fieldValues bounded_fieldDifferences
    by (auto simp: diff_current_def Let_def bounded_change_def short_template_def mem_gomap_keys split: option.splits)
  then show ?thesis
    by (auto simp: Diff_def list_all_iff diff_previous_def bounded_change_def split: if_splits)
qed

end
