(* ===== verification/Inventory_Local.thy ===== *)
theory Inventory_Local
  imports Capability_Core Go_Strconv
begin

text \<open>
  internal/inventory/local.go: the operator's constraints on inventory synchronization.

  The strict YAML decoder is a parameter: the first document of the file, the end of input or an error message, and
  whether a second document follows. The product inside ParseDuration is a parameter as in \<open>Go_Strconv\<close>.
\<close>

definition localVersion :: int where
  "localVersion = 1"

definition defaultMinimumInterval :: int where
  "defaultMinimumInterval = 30 * Second"

text \<open>The expression \<open>^[a-z0-9]([-a-z0-9]*[a-z0-9])?$\<close>.\<close>

definition namespaceLabel :: regex where
  "namespaceLabel = R_Cat R_Begin (R_Cat label_body R_End)"

record Local =
  lc_Enabled :: bool
  lc_Namespaces :: "(string, bool) gomap option"
  lc_MinimumInterval :: int

record local_section =
  sn_Version :: int
  sn_Enabled :: "bool option"
  sn_Namespaces :: "string list"
  sn_MinimumInterval :: string

datatype local_yaml = LocalYaml_EOF | LocalYaml_Error string | LocalYaml_Document local_section

record local_parsers =
  yd_decode :: "string \<Rightarrow> local_yaml"
  yd_more :: "string \<Rightarrow> bool"
  yd_fmul :: "int \<Rightarrow> int \<Rightarrow> int \<Rightarrow> int"

datatype LocalError =
  Local_Unreadable string
| Local_Empty string
| Local_DoesNotParse string string
| Local_ManyDocuments string
| Local_Version string int
| Local_NotNamespace string string
| Local_IntervalNotPositive string

definition DefaultLocal :: Local where
  "DefaultLocal = \<lparr>lc_Enabled = True, lc_Namespaces = None, lc_MinimumInterval = defaultMinimumInterval\<rparr>"

definition local_firstLine :: "string \<Rightarrow> string" where
  "local_firstLine message =
     (case IndexByte message newline of
        Some index \<Rightarrow> TrimSpace (take index message)
      | None \<Rightarrow> TrimSpace message)"

fun add_namespaces :: "string \<Rightarrow> string list \<Rightarrow> (string, bool) gomap \<Rightarrow> LocalError + (string, bool) gomap" where
  "add_namespaces source [] namespaces = Inr namespaces"
| "add_namespaces source (entry # entries) namespaces =
     (let namespace = TrimSpace entry in
      if \<not> MatchString namespaceLabel namespace \<or> length namespace > 63
      then Inl (Local_NotNamespace source namespace)
      else add_namespaces source entries (gomap_set namespace True namespaces))"

definition with_enabled :: "bool option \<Rightarrow> Local \<Rightarrow> Local" where
  "with_enabled enabled local = (case enabled of None \<Rightarrow> local | Some e \<Rightarrow> local\<lparr>lc_Enabled := e\<rparr>)"

definition with_namespaces :: "string \<Rightarrow> string list \<Rightarrow> Local \<Rightarrow> LocalError + Local" where
  "with_namespaces source entries local =
     (if entries = [] then Inr local
      else case add_namespaces source entries [] of
        Inl err \<Rightarrow> Inl err
      | Inr namespaces \<Rightarrow> Inr (local\<lparr>lc_Namespaces := Some namespaces\<rparr>))"

definition with_interval ::
  "(int \<Rightarrow> int \<Rightarrow> int \<Rightarrow> int) \<Rightarrow> string \<Rightarrow> string \<Rightarrow> Local \<Rightarrow> LocalError + Local" where
  "with_interval fmul source text local =
     (if text = [] then Inr local
      else case ParseDuration fmul text of
        None \<Rightarrow> Inl (Local_IntervalNotPositive source)
      | Some interval \<Rightarrow>
          if interval \<le> 0 then Inl (Local_IntervalNotPositive source)
          else Inr (local\<lparr>lc_MinimumInterval := interval\<rparr>))"

definition ParseLocal :: "local_parsers \<Rightarrow> string \<Rightarrow> string \<Rightarrow> LocalError + Local" where
  "ParseLocal ps raw source =
     (case yd_decode ps raw of
        LocalYaml_EOF \<Rightarrow> Inl (Local_Empty source)
      | LocalYaml_Error message \<Rightarrow> Inl (Local_DoesNotParse source (local_firstLine message))
      | LocalYaml_Document parsed \<Rightarrow>
          if yd_more ps raw then Inl (Local_ManyDocuments source)
          else if sn_Version parsed \<noteq> localVersion then Inl (Local_Version source (sn_Version parsed))
          else
            case with_namespaces source (sn_Namespaces parsed) (with_enabled (sn_Enabled parsed) DefaultLocal) of
              Inl err \<Rightarrow> Inl err
            | Inr narrowed \<Rightarrow> with_interval (yd_fmul ps) source (sn_MinimumInterval parsed) narrowed)"

definition LoadLocal :: "local_parsers \<Rightarrow> (string \<Rightarrow> string option) \<Rightarrow> string \<Rightarrow> LocalError + Local" where
  "LoadLocal ps readFile path =
     (if path = [] then Inr DefaultLocal
      else case readFile path of
        None \<Rightarrow> Inl (Local_Unreadable path)
      | Some raw \<Rightarrow> ParseLocal ps raw path)"

section \<open>What is accepted\<close>

definition true_set :: "(string, bool) gomap \<Rightarrow> bool" where
  "true_set m \<longleftrightarrow> (\<forall>k v. gomap_get m k = Some v \<longrightarrow> v)"

definition local_ok :: "Local \<Rightarrow> bool" where
  "local_ok l \<longleftrightarrow> 0 < lc_MinimumInterval l \<and>
     (case lc_Namespaces l of None \<Rightarrow> True | Some m \<Rightarrow> m \<noteq> [] \<and> gomap_wf m \<and> true_set m)"

lemma true_set_insert: "true_set m \<Longrightarrow> true_set (gomap_set k True m)"
  by (auto simp: true_set_def gomap_simps)

lemma add_namespaces_Inr:
  assumes "add_namespaces source entries m = Inr m'" "gomap_wf m" "true_set m"
  shows "gomap_wf m' \<and> true_set m' \<and> set (gomap_keys m') = set (gomap_keys m) \<union> TrimSpace ` set entries"
  using assms
proof (induction entries arbitrary: m)
  case (Cons e entries)
  let ?m = "gomap_set (TrimSpace e) True m"
  from Cons.prems(1) have "add_namespaces source entries ?m = Inr m'"
    by (simp add: Let_def split: if_splits)
  moreover have "set (gomap_keys ?m) = insert (TrimSpace e) (set (gomap_keys m))"
    by (auto simp: gomap_has_set simp flip: gomap_has_iff_key)
  ultimately show ?case
    using Cons.IH [of ?m] Cons.prems true_set_insert by simp
qed simp

lemma true_set_Nil [simp]: "true_set []"
  by (simp add: true_set_def)

lemma DefaultLocal_ok: "local_ok DefaultLocal"
  by (simp add: local_ok_def DefaultLocal_def defaultMinimumInterval_def Second_def)

lemma with_namespaces_ok:
  assumes "with_namespaces source entries l = Inr l'" "local_ok l"
  shows "local_ok l'"
proof (cases "entries = []")
  case False
  then obtain m where m: "add_namespaces source entries [] = Inr m" "l' = l\<lparr>lc_Namespaces := Some m\<rparr>"
    using assms(1) by (auto simp: with_namespaces_def error_simps)
  from add_namespaces_Inr [OF m(1)] False have "gomap_wf m \<and> true_set m \<and> m \<noteq> []" by auto
  then show ?thesis using assms(2) m(2) by (simp add: local_ok_def)
qed (use assms in \<open>simp add: with_namespaces_def\<close>)

lemma with_interval_ok: "with_interval fmul source txt l = Inr l' \<Longrightarrow> local_ok l \<Longrightarrow> local_ok l'"
  by (auto simp: with_interval_def local_ok_def split: if_splits option.splits)

lemma ParseLocal_ok:
  assumes "ParseLocal ps raw source = Inr l"
  shows "local_ok l"
proof -
  from assms obtain parsed :: local_section and narrowed where
    n: "with_namespaces source (sn_Namespaces parsed) (with_enabled (sn_Enabled parsed) DefaultLocal) = Inr narrowed"
    and i: "with_interval (yd_fmul ps) source (sn_MinimumInterval parsed) narrowed = Inr l"
    by (auto simp: ParseLocal_def error_simps Let_def split: if_splits local_yaml.splits)
  have "local_ok (with_enabled e DefaultLocal)" for e
    using DefaultLocal_ok by (simp add: local_ok_def with_enabled_def split: option.splits)
  from with_interval_ok [OF i with_namespaces_ok [OF n this]] show ?thesis .
qed

lemma LoadLocal_ok: "LoadLocal ps readFile path = Inr l \<Longrightarrow> local_ok l"
  using DefaultLocal_ok ParseLocal_ok by (auto simp: LoadLocal_def split: if_splits option.splits)

end
