(* ===== verification/Inventory_Sync.thy ===== *)
theory Inventory_Sync
  imports Inventory_Diff Inventory_Local
begin

text \<open>
  internal/inventory/sync.go: the synchronizer, which owns the schedule, the snapshot and the pending deltas of every
  scope.

  The synchronizer is a record; \<open>sz_now\<close> is what its clock reads. A tick is split where the code releases its lock:
  \<open>tick_begin\<close> captures the configuration, \<open>collect\<close> reads the cluster, \<open>tick_end\<close> queues what changed. The source of
  random bytes is a parameter that gives the answer of the n-th read, \<open>None\<close> for an error, which stops the process.
\<close>

section \<open>The state\<close>

record Reader =
  rd_ListWorkloadIntents :: "string \<Rightarrow> int \<Rightarrow> kube_error + InventoryPage"
  rd_ListConfigMapVersions :: "string \<Rightarrow> int \<Rightarrow> kube_error + ConfigVersionPage"
  rd_ListSecretVersions :: "string \<Rightarrow> int \<Rightarrow> kube_error + ConfigVersionPage"

definition lister :: "inventory_api \<Rightarrow> Reader" where
  "lister api =
     \<lparr>rd_ListWorkloadIntents = ListWorkloadIntents api, rd_ListConfigMapVersions = ListConfigMapVersions api,
      rd_ListSecretVersions = ListSecretVersions api\<rparr>"

definition listLimit :: int where
  "listLimit = 500"

definition maxChangesPerDelta :: nat where
  "maxChangesPerDelta = 512"

definition maxPendingDeltas :: nat where
  "maxPendingDeltas = 64"

record scopeState =
  ss_connectionID :: string
  ss_policyRevision :: uint64
  ss_interval :: int
  ss_namespaces :: "string list"
  ss_configVersion :: int
  ss_snapshot :: Snapshot
  ss_baselined :: bool
  ss_rebaseline :: bool
  ss_nextDue :: go_time
  ss_lastCompleted :: go_time
  ss_faulted :: bool
  ss_truncated :: bool
  ss_pending :: "InventoryDelta list"

record Synchronizer =
  sz_local :: Local
  sz_allowedNamespaces :: "(string, bool) gomap option"
  sz_now :: go_time
  sz_scopes :: "(string, scopeState) gomap"

definition NewSynchronizer :: "Local \<Rightarrow> (string, bool) gomap option \<Rightarrow> go_time \<Rightarrow> Synchronizer" where
  "NewSynchronizer local allowedNamespaces now =
     \<lparr>sz_local = local, sz_allowedNamespaces = allowedNamespaces, sz_now = now, sz_scopes = []\<rparr>"

definition new_scope :: "string \<Rightarrow> scopeState" where
  "new_scope connectionID =
     \<lparr>ss_connectionID = connectionID, ss_policyRevision = 0, ss_interval = 0, ss_namespaces = [],
      ss_configVersion = 0, ss_snapshot = [], ss_baselined = False, ss_rebaseline = False, ss_nextDue = zero_time,
      ss_lastCompleted = zero_time, ss_faulted = False, ss_truncated = False, ss_pending = []\<rparr>"

section \<open>Policies and acknowledgements\<close>

definition flagged :: "(string, bool) gomap \<Rightarrow> string \<Rightarrow> bool" where
  "flagged m k \<longleftrightarrow> gomap_get m k = Some True"

definition namespaceAllowed :: "Synchronizer \<Rightarrow> string \<Rightarrow> bool" where
  "namespaceAllowed s namespace =
     (if (case lc_Namespaces (sz_local s) of None \<Rightarrow> False | Some m \<Rightarrow> \<not> flagged m namespace) then False
      else if (case sz_allowedNamespaces s of None \<Rightarrow> False | Some m \<Rightarrow> \<not> flagged m namespace) then False
      else True)"

definition effectiveNamespaces :: "Synchronizer \<Rightarrow> string list \<Rightarrow> string list" where
  "effectiveNamespaces s requested =
     (if requested \<noteq> [] then sort_strings (filter (namespaceAllowed s) requested)
      else case lc_Namespaces (sz_local s) of
        Some namespaces \<Rightarrow>
          sort_strings (filter (\<lambda>namespace. case sz_allowedNamespaces s of None \<Rightarrow> True | Some m \<Rightarrow> flagged m namespace)
            (gomap_keys namespaces))
      | None \<Rightarrow>
          (case sz_allowedNamespaces s of
             Some allowed \<Rightarrow> sort_strings (gomap_keys allowed)
           | None \<Rightarrow> [[]]))"

fun equalNamespaces :: "string list \<Rightarrow> string list \<Rightarrow> bool" where
  "equalNamespaces a b =
     (if length a \<noteq> length b then False else list_all (\<lambda>(x, y). x = y) (zip a b))"

definition put_scope :: "string \<Rightarrow> scopeState \<Rightarrow> Synchronizer \<Rightarrow> Synchronizer" where
  "put_scope connectionID scope s = s\<lparr>sz_scopes := gomap_set connectionID scope (sz_scopes s)\<rparr>"

definition adopt ::
  "InventorySynchronizationPolicy \<Rightarrow> int \<Rightarrow> string list \<Rightarrow> go_time \<Rightarrow> bool \<Rightarrow> scopeState \<Rightarrow> scopeState" where
  "adopt policy interval namespaces now exists scope =
     (if exists \<and> ss_policyRevision scope = sp_revision policy \<and> ss_interval scope = interval \<and>
         equalNamespaces (ss_namespaces scope) namespaces
      then scope
      else scope\<lparr>ss_rebaseline := (ss_rebaseline scope \<or> exists \<and> \<not> equalNamespaces (ss_namespaces scope) namespaces),
                 ss_policyRevision := sp_revision policy, ss_interval := interval, ss_namespaces := namespaces,
                 ss_configVersion := wrap64 (ss_configVersion scope + 1), ss_nextDue := now\<rparr>)"

definition ApplyPolicy :: "InventorySynchronizationPolicy \<Rightarrow> Synchronizer \<Rightarrow> Synchronizer" where
  "ApplyPolicy policy s =
     (if \<not> lc_Enabled (sz_local s) \<or> sp_connection_id policy = [] then s
      else
        let namespaces = effectiveNamespaces s (sp_namespaces policy);
            interval = (if sp_requested_interval policy < lc_MinimumInterval (sz_local s)
                        then lc_MinimumInterval (sz_local s) else sp_requested_interval policy)
        in case gomap_get (sz_scopes s) (sp_connection_id policy) of
             None \<Rightarrow> put_scope (sp_connection_id policy)
               (adopt policy interval namespaces (sz_now s) False (new_scope (sp_connection_id policy))) s
           | Some scope \<Rightarrow> put_scope (sp_connection_id policy)
               (adopt policy interval namespaces (sz_now s) True scope) s)"

fun remove_delta :: "string \<Rightarrow> InventoryDelta list \<Rightarrow> InventoryDelta list option" where
  "remove_delta deltaID [] = None"
| "remove_delta deltaID (d # ds) =
     (if id_delta_id d = deltaID then Some ds else map_option ((#) d) (remove_delta deltaID ds))"

fun ack_scopes :: "string \<Rightarrow> (string \<times> scopeState) list \<Rightarrow> (string \<times> scopeState) list" where
  "ack_scopes deltaID [] = []"
| "ack_scopes deltaID ((connectionID, scope) # scopes) =
     (case remove_delta deltaID (ss_pending scope) of
        Some ds \<Rightarrow> (connectionID, scope\<lparr>ss_pending := ds\<rparr>) # scopes
      | None \<Rightarrow> (connectionID, scope) # ack_scopes deltaID scopes)"

definition Ack :: "string \<Rightarrow> Synchronizer \<Rightarrow> Synchronizer" where
  "Ack deltaID s = s\<lparr>sz_scopes := ack_scopes deltaID (sz_scopes s)\<rparr>"

definition sortedScopeIDs :: "Synchronizer \<Rightarrow> string list" where
  "sortedScopeIDs s = sort_strings (gomap_keys (sz_scopes s))"

definition scope_of :: "Synchronizer \<Rightarrow> string \<Rightarrow> scopeState" where
  "scope_of s connectionID = the (gomap_get (sz_scopes s) connectionID)"

definition Pending :: "Synchronizer \<Rightarrow> InventoryDelta list" where
  "Pending s = concat (map (\<lambda>connectionID. ss_pending (scope_of s connectionID)) (sortedScopeIDs s))"

definition scope_status :: "scopeState \<Rightarrow> InventoryScopeStatus" where
  "scope_status scope =
     \<lparr>st_connection_id = ss_connectionID scope, st_policy_revision = ss_policyRevision scope,
      st_last_completed_at = (if IsZero (ss_lastCompleted scope) then None else Some (ss_lastCompleted scope)),
      st_faulted = ss_faulted scope, st_truncated = ss_truncated scope\<rparr>"

definition Statuses :: "Synchronizer \<Rightarrow> InventoryScopeStatus list" where
  "Statuses s = map (\<lambda>connectionID. scope_status (scope_of s connectionID)) (sortedScopeIDs s)"

section \<open>Collecting a snapshot\<close>

type_synonym references = "(string, (string, bool) gomap) gomap"

definition noteReferences :: "string \<Rightarrow> string list \<Rightarrow> references \<Rightarrow> references" where
  "noteReferences namespace names into =
     (if names = [] then into
      else gomap_set namespace
        (foldl (\<lambda>m name. gomap_set name True m) (case gomap_get into namespace of None \<Rightarrow> [] | Some m \<Rightarrow> m) names) into)"

definition referenced :: "references \<Rightarrow> string \<Rightarrow> string \<Rightarrow> bool" where
  "referenced refs namespace name =
     (case gomap_get refs namespace of None \<Rightarrow> False | Some m \<Rightarrow> flagged m name)"

record collected =
  cl_snapshot :: Snapshot
  cl_truncated :: bool
  cl_configMaps :: references
  cl_secrets :: references

definition put_state :: "ObjectKey \<times> ObjectState \<Rightarrow> collected \<Rightarrow> collected" where
  "put_state ks acc = acc\<lparr>cl_snapshot := gomap_set (fst ks) (snd ks) (cl_snapshot acc)\<rparr>"

definition add_intent :: "collected \<Rightarrow> WorkloadIntent \<Rightarrow> collected" where
  "add_intent acc intent =
     (put_state (workloadState intent) acc)
       \<lparr>cl_configMaps := noteReferences (wi_Namespace intent) (wi_ConfigMapRefs intent) (cl_configMaps acc),
        cl_secrets := noteReferences (wi_Namespace intent) (wi_SecretRefs intent) (cl_secrets acc)\<rparr>"

fun collect_workloads :: "Reader \<Rightarrow> string list \<Rightarrow> collected \<Rightarrow> kube_error + collected" where
  "collect_workloads reader [] acc = Inr acc"
| "collect_workloads reader (namespace # namespaces) acc =
     (case rd_ListWorkloadIntents reader namespace listLimit of
        Inl err \<Rightarrow> Inl err
      | Inr page \<Rightarrow> collect_workloads reader namespaces
          (foldl add_intent (acc\<lparr>cl_truncated := (cl_truncated acc \<or> ip_Truncated page)\<rparr>) (ip_Workloads page)))"

definition add_versions ::
  "InventoryObjectKind \<Rightarrow> references \<Rightarrow> ConfigVersionPage \<Rightarrow> collected \<Rightarrow> collected" where
  "add_versions kind refs page acc =
     foldl (\<lambda>acc version. if referenced refs (cv_Namespace version) (cv_Name version)
                          then put_state (configState kind version) acc else acc)
       (acc\<lparr>cl_truncated := (cl_truncated acc \<or> cp_Truncated page)\<rparr>) (cp_Versions page)"

fun collect_configs :: "Reader \<Rightarrow> string list \<Rightarrow> collected \<Rightarrow> kube_error + collected" where
  "collect_configs reader [] acc = Inr acc"
| "collect_configs reader (namespace # namespaces) acc =
     (case rd_ListConfigMapVersions reader namespace listLimit of
        Inl err \<Rightarrow> Inl err
      | Inr configMaps \<Rightarrow>
          (case rd_ListSecretVersions reader namespace listLimit of
             Inl err \<Rightarrow> Inl err
           | Inr secrets \<Rightarrow> collect_configs reader namespaces
               (add_versions KIND_SECRET (cl_secrets acc) secrets
                 (add_versions KIND_CONFIGMAP (cl_configMaps acc) configMaps acc))))"

definition collect :: "Reader \<Rightarrow> string list \<Rightarrow> kube_error + (Snapshot \<times> bool)" where
  "collect reader namespaces =
     (case collect_workloads reader namespaces
             \<lparr>cl_snapshot = [], cl_truncated = False, cl_configMaps = [], cl_secrets = []\<rparr> of
        Inl err \<Rightarrow> Inl err
      | Inr workloads \<Rightarrow>
          (case collect_configs reader namespaces workloads of
             Inl err \<Rightarrow> Inl err
           | Inr final \<Rightarrow> Inr (cl_snapshot final, cl_truncated final)))"

section \<open>Packing\<close>

definition newDeltaID :: "string option \<Rightarrow> string option" where
  "newDeltaID raw = map_option EncodeToString raw"

function pack_loop ::
  "(string \<Rightarrow> InventoryObjectChange list \<Rightarrow> InventoryDelta) \<Rightarrow> (nat \<Rightarrow> string option) \<Rightarrow> nat \<Rightarrow> bool \<Rightarrow>
   InventoryObjectChange list \<Rightarrow> InventoryDelta list option" where
  "pack_loop delta rand n first changes =
     (if first \<or> changes \<noteq> [] then
        let chunk = (if length changes > maxChangesPerDelta then take maxChangesPerDelta changes else changes)
        in case newDeltaID (rand n) of
             None \<Rightarrow> None
           | Some deltaID \<Rightarrow>
               map_option ((#) (delta deltaID chunk)) (pack_loop delta rand (Suc n) False (drop (length chunk) changes))
      else Some [])"
  by pat_completeness auto

termination
  by (relation "measure (\<lambda>(delta, rand, n, first, changes). length changes + (if first then 1 else 0))")
    (auto simp: maxChangesPerDelta_def neq_Nil_conv)

definition packDeltas ::
  "(nat \<Rightarrow> string option) \<Rightarrow> string \<Rightarrow> uint64 \<Rightarrow> bool \<Rightarrow> go_time \<Rightarrow> InventoryObjectChange list \<Rightarrow> InventoryDelta list option" where
  "packDeltas rand connectionID revision baseline observedAt changes =
     (if changes = [] \<and> \<not> baseline then Some []
      else pack_loop (\<lambda>deltaID chunk.
        \<lparr>id_delta_id = deltaID, id_connection_id = connectionID, id_policy_revision = revision,
         id_baseline = baseline, id_observed_at = observedAt, id_changes = chunk\<rparr>) rand 0 True changes)"

section \<open>Ticks\<close>

record tick_job =
  tj_scope :: string
  tj_namespaces :: "string list"
  tj_configVersion :: int
  tj_previous :: Snapshot
  tj_baseline :: bool
  tj_revision :: uint64
  tj_observedAt :: go_time

definition tick_begin :: "string \<Rightarrow> Synchronizer \<Rightarrow> tick_job" where
  "tick_begin connectionID s =
     (let scope = scope_of s connectionID in
      \<lparr>tj_scope = connectionID, tj_namespaces = ss_namespaces scope, tj_configVersion = ss_configVersion scope,
       tj_previous = ss_snapshot scope, tj_baseline = (\<not> ss_baselined scope \<or> ss_rebaseline scope),
       tj_revision = ss_policyRevision scope, tj_observedAt = sz_now s\<rparr>)"

definition tick_changes :: "tick_job \<Rightarrow> Snapshot \<Rightarrow> InventoryObjectChange list" where
  "tick_changes job current = (if tj_baseline job then Baseline current else Diff (tj_previous job) current)"

definition complete_tick :: "tick_job \<Rightarrow> Snapshot \<Rightarrow> bool \<Rightarrow> InventoryDelta list \<Rightarrow> scopeState \<Rightarrow> scopeState" where
  "complete_tick job current truncated deltas scope =
     (let pending = ss_pending scope @ deltas;
          overflow = length pending > maxPendingDeltas
      in scope\<lparr>ss_pending := (if overflow then [] else pending), ss_rebaseline := overflow,
               ss_snapshot := current, ss_baselined := True, ss_faulted := False, ss_truncated := truncated,
               ss_lastCompleted := tj_observedAt job\<rparr>)"

definition tick_end ::
  "(nat \<Rightarrow> string option) \<Rightarrow> kube_error + (Snapshot \<times> bool) \<Rightarrow> tick_job \<Rightarrow> Synchronizer \<Rightarrow> Synchronizer option" where
  "tick_end rand result job s =
     (let scope = scope_of s (tj_scope job) in
      if ss_configVersion scope \<noteq> tj_configVersion job then Some s
      else case result of
        Inl err \<Rightarrow> Some (put_scope (tj_scope job) (scope\<lparr>ss_faulted := True\<rparr>) s)
      | Inr (current, truncated) \<Rightarrow>
          map_option (\<lambda>deltas. put_scope (tj_scope job) (complete_tick job current truncated deltas scope) s)
            (packDeltas rand (ss_connectionID scope) (tj_revision job) (tj_baseline job) (tj_observedAt job)
              (tick_changes job current)))"

definition mark_due :: "Synchronizer \<Rightarrow> string \<Rightarrow> Synchronizer \<times> string list \<Rightarrow> Synchronizer \<times> string list" where
  "mark_due s connectionID acc =
     (let scope = scope_of s connectionID in
      if \<not> sz_now s < ss_nextDue scope
      then (put_scope connectionID (scope\<lparr>ss_nextDue := sz_now s + ss_interval scope\<rparr>) (fst acc), snd acc @ [connectionID])
      else acc)"

definition RunDue :: "Synchronizer \<Rightarrow> Synchronizer \<times> string list" where
  "RunDue s = fold (mark_due s) (sortedScopeIDs s) (s, [])"

end
