(* ===== verification/Inventory_Run.thy ===== *)
theory Inventory_Run
  imports Inventory_Sync
begin

text \<open>
  The synchronizer in motion: policies and acknowledgements of the session interleave with the ticks of Run, at the
  granularity of the critical sections of sync.go. \<open>y_log\<close> and \<open>y_acked\<close> are ghosts: the deltas queued for a scope
  since its last baseline, and the identifiers acknowledged.

  The invariant says that a scope with a baseline and no new one scheduled has a log that replays to exactly the
  revisions of its snapshot, and that each delta of the log is still pending or was acknowledged.
\<close>

declare pack_loop.simps [simp del]

section \<open>Packing\<close>

lemma pack_loop_exact:
  assumes "pack_loop delta rand n first changes = Some ds" "\<And>i c. id_changes (delta i c) = c"
  shows "concat (map id_changes ds) = changes \<and> list_all (\<lambda>d. length (id_changes d) \<le> 512) ds \<and>
    length ds = (if changes = [] then (if first then 1 else 0) else (length changes + 511) div 512) \<and>
    list_all (\<lambda>d. \<exists>i. d = delta i (id_changes d)) ds"
  using assms
proof (induction delta rand n first changes arbitrary: ds rule: pack_loop.induct)
  case (1 delta rand n first changes)
  let ?chunk = "if length changes > maxChangesPerDelta then take maxChangesPerDelta changes else changes"
  show ?case
  proof (cases "first \<or> changes \<noteq> []")
    case True
    then obtain i es where i: "newDeltaID (rand n) = Some i"
      and es: "pack_loop delta rand (Suc n) False (drop (length ?chunk) changes) = Some es"
      and ds: "ds = delta i ?chunk # es"
      using "1.prems"(1) by (subst (asm) pack_loop.simps) (auto simp: Let_def split: option.splits)
    have IH: "concat (map id_changes es) = drop (length ?chunk) changes \<and>
        list_all (\<lambda>d. length (id_changes d) \<le> 512) es \<and>
        length es = (if drop (length ?chunk) changes = [] then 0 else (length (drop (length ?chunk) changes) + 511) div 512) \<and>
        list_all (\<lambda>d. \<exists>i. d = delta i (id_changes d)) es"
      using "1.IH" [OF True refl i es] "1.prems"(2) by simp
    show ?thesis
    proof (cases "length changes > 512")
      case True
      then have c: "?chunk = take 512 changes" by (simp add: maxChangesPerDelta_def)
      have "(length changes + 511) div 512 = Suc ((length changes - 512 + 511) div 512)"
        using True le_div_geq [of 512 "length changes + 511"] by simp
      then show ?thesis using IH ds True "1.prems"(2) by (auto simp: c)
    next
      case False
      then have c: "?chunk = changes" by (simp add: maxChangesPerDelta_def)
      have "(length changes + 511) div 512 = 1" if "changes \<noteq> []"
        using that False by (intro div_nat_eqI) (simp_all add: Suc_le_eq)
      then show ?thesis using IH ds False "1.prems"(2) \<open>first \<or> changes \<noteq> []\<close> by (auto simp: c)
    qed
  next
    case False
    then show ?thesis using "1.prems"(1) by (subst (asm) pack_loop.simps) simp
  qed
qed

lemma pack_loop_total: "(\<And>k. rand k \<noteq> None) \<Longrightarrow> \<exists>ds. pack_loop delta rand n first changes = Some ds"
proof (induction delta rand n first changes rule: pack_loop.induct)
  case (1 delta rand n first changes)
  obtain raw where "rand n = Some raw" using "1.prems" [of n] by blast
  then have i: "newDeltaID (rand n) = Some (EncodeToString raw)" by (simp add: newDeltaID_def)
  show ?case
  proof (cases "first \<or> changes \<noteq> []")
    case True
    from "1.IH" [OF True refl i "1.prems"] show ?thesis
      by (subst pack_loop.simps) (auto simp: i Let_def)
  next
    case False
    then show ?thesis by (subst pack_loop.simps) simp
  qed
qed

lemma packDeltas_changes:
  assumes "packDeltas rand c r b t changes = Some ds"
  shows "concat (map id_changes ds) = changes" "list_all (\<lambda>d. length (id_changes d) \<le> 512) ds"
    "list_all (\<lambda>d. id_connection_id d = c \<and> id_policy_revision d = r \<and> id_baseline d = b \<and> id_observed_at d = t) ds"
    "length ds = (if changes = [] then (if b then 1 else 0) else (length changes + 511) div 512)"
proof -
  consider "changes = []" "\<not> b" "ds = []"
    | "changes \<noteq> [] \<or> b" "pack_loop (\<lambda>i ch. \<lparr>id_delta_id = i, id_connection_id = c, id_policy_revision = r,
        id_baseline = b, id_observed_at = t, id_changes = ch\<rparr>) rand 0 True changes = Some ds"
    using assms by (auto simp: packDeltas_def split: if_splits)
  then have "concat (map id_changes ds) = changes \<and> list_all (\<lambda>d. length (id_changes d) \<le> 512) ds \<and>
    list_all (\<lambda>d. id_connection_id d = c \<and> id_policy_revision d = r \<and> id_baseline d = b \<and> id_observed_at d = t) ds \<and>
    length ds = (if changes = [] then (if b then 1 else 0) else (length changes + 511) div 512)"
  proof cases
    case 2
    from pack_loop_exact [OF this(2)] have "list_all (\<lambda>d. \<exists>i. d = \<lparr>id_delta_id = i, id_connection_id = c,
        id_policy_revision = r, id_baseline = b, id_observed_at = t, id_changes = id_changes d\<rparr>) ds" by simp
    then have "list_all (\<lambda>d. id_connection_id d = c \<and> id_policy_revision d = r \<and> id_baseline d = b \<and> id_observed_at d = t) ds"
      unfolding list_all_iff by (metis InventoryDelta.select_convs(2,3,4,5))
    then show ?thesis using pack_loop_exact [OF 2(2)] 2(1) by auto
  qed simp
  then show "concat (map id_changes ds) = changes" "list_all (\<lambda>d. length (id_changes d) \<le> 512) ds"
    "list_all (\<lambda>d. id_connection_id d = c \<and> id_policy_revision d = r \<and> id_baseline d = b \<and> id_observed_at d = t) ds"
    "length ds = (if changes = [] then (if b then 1 else 0) else (length changes + 511) div 512)" by auto
qed

section \<open>Namespaces\<close>

definition names_ok :: "Synchronizer \<Rightarrow> bool" where
  "names_ok s \<longleftrightarrow> local_ok (sz_local s) \<and> (case sz_allowedNamespaces s of None \<Rightarrow> True | Some m \<Rightarrow> true_set m)"

lemma flagged_key: "true_set m \<Longrightarrow> k \<in> set (gomap_keys m) \<Longrightarrow> flagged m k"
  unfolding true_set_def flagged_def mem_gomap_keys by (metis (full_types))

lemma effectiveNamespaces_allowed:
  assumes "names_ok s"
  shows "list_all (namespaceAllowed s) (effectiveNamespaces s requested)"
  using assms flagged_key
  by (auto simp: effectiveNamespaces_def list_all_iff namespaceAllowed_def names_ok_def local_ok_def
      split: option.splits if_splits)

lemma equalNamespaces_iff [simp]: "equalNamespaces a b \<longleftrightarrow> a = b"
  by (auto simp: list_all_iff list_eq_iff_nth_eq set_zip)

section \<open>Snapshots\<close>

text \<open>What the synchronizer relies on of its reader: a template hash is short.\<close>

locale intent_reader =
  fixes reader :: Reader
  assumes short_hash:
    "rd_ListWorkloadIntents reader namespace limit = Inr page \<Longrightarrow> intent \<in> set (ip_Workloads page) \<Longrightarrow>
     length (wi_TemplateHash intent) \<le> 512"
begin

definition good :: "collected \<Rightarrow> bool" where
  "good acc \<longleftrightarrow> gomap_wf (cl_snapshot acc) \<and> short_template (cl_snapshot acc)"

lemma good_truncated: "good (acc\<lparr>cl_truncated := t\<rparr>) = good acc"
  by (simp add: good_def)

lemma good_put_state:
  "good acc \<Longrightarrow> length (field (os_Fields (snd ks)) ''spec.template'') \<le> 512 \<Longrightarrow> good (put_state ks acc)"
  by (auto simp: good_def put_state_def short_template_def gomap_simps split: if_splits)

lemma good_add_intent:
  assumes "good acc" "length (wi_TemplateHash intent) \<le> 512"
  shows "good (add_intent acc intent)"
proof -
  have "field (os_Fields (snd (workloadState intent))) ''spec.template'' = wi_TemplateHash intent"
    by (simp add: workloadState_def workload_fields_def Let_def field_def gomap_simps)
  with good_put_state [OF assms(1), of "workloadState intent"] assms(2) show ?thesis
    by (simp add: add_intent_def good_def)
qed

lemma good_add_intents:
  "good acc \<Longrightarrow> \<forall>i \<in> set intents. length (wi_TemplateHash i) \<le> 512 \<Longrightarrow> good (foldl add_intent acc intents)"
  by (induction intents arbitrary: acc) (simp_all add: good_add_intent)

lemma good_collect_workloads: "good acc \<Longrightarrow> collect_workloads reader namespaces acc = Inr acc' \<Longrightarrow> good acc'"
proof (induction namespaces arbitrary: acc)
  case (Cons n ns)
  then obtain page where page: "rd_ListWorkloadIntents reader n listLimit = Inr page"
    "collect_workloads reader ns
      (foldl add_intent (acc\<lparr>cl_truncated := (cl_truncated acc \<or> ip_Truncated page)\<rparr>) (ip_Workloads page)) = Inr acc'"
    by (auto simp: error_simps)
  show ?case
    by (rule Cons.IH [OF good_add_intents page(2)]) (use Cons.prems short_hash [OF page(1)] good_truncated in auto)
qed simp

lemma good_add_versions:
  assumes "good acc"
  shows "good (add_versions kind refs page acc)"
proof -
  have config: "good a \<Longrightarrow> good (put_state (configState kind version) a)" for a version
    by (rule good_put_state) (simp_all add: configState_def field_def gomap_get_def)
  have "good a \<Longrightarrow> good (foldl (\<lambda>acc version. if referenced refs (cv_Namespace version) (cv_Name version)
      then put_state (configState kind version) acc else acc) a versions)" for a versions
    by (induction versions arbitrary: a) (simp_all add: config)
  then show ?thesis using assms by (simp add: add_versions_def good_truncated)
qed

lemma good_collect_configs: "good acc \<Longrightarrow> collect_configs reader namespaces acc = Inr acc' \<Longrightarrow> good acc'"
proof (induction namespaces arbitrary: acc)
  case (Cons n ns)
  then obtain configMaps secrets where "collect_configs reader ns
      (add_versions KIND_SECRET (cl_secrets acc) secrets
        (add_versions KIND_CONFIGMAP (cl_configMaps acc) configMaps acc)) = Inr acc'"
    by (auto simp: error_simps)
  then show ?case by (rule Cons.IH [OF good_add_versions [OF good_add_versions [OF Cons.prems(1)]]])
qed simp

lemma collect_good:
  assumes "collect reader namespaces = Inr (snapshot, truncated)"
  shows "gomap_wf snapshot \<and> short_template snapshot"
proof -
  from assms obtain acc final where
    w: "collect_workloads reader namespaces
      \<lparr>cl_snapshot = [], cl_truncated = False, cl_configMaps = [], cl_secrets = []\<rparr> = Inr acc"
    and c: "collect_configs reader namespaces acc = Inr final" "snapshot = cl_snapshot final"
    by (auto simp: collect_def error_simps)
  have "good \<lparr>cl_snapshot = [], cl_truncated = False, cl_configMaps = [], cl_secrets = []\<rparr>"
    by (simp add: good_def short_template_def)
  from good_collect_configs [OF good_collect_workloads [OF this w] c(1)] c(2) show ?thesis
    by (simp add: good_def)
qed

end

lemma length_hashTemplate: "length (hashTemplate api template) \<le> 12"
  by (simp add: hashTemplate_def split: option.splits)

interpretation listed: intent_reader "lister api"
proof
  fix namespace limit page intent
  assume "rd_ListWorkloadIntents (lister api) namespace limit = Inr page" "intent \<in> set (ip_Workloads page)"
  moreover have "length (hashTemplate api template) \<le> 512" for template
    using length_hashTemplate [of api template] by simp
  ultimately show "length (wi_TemplateHash intent) \<le> 512"
    by (auto simp: lister_def ListWorkloadIntents_def error_simps deploymentIntent_def statefulSetIntent_def
        daemonSetIntent_def templateIntent_def split: if_splits)
qed

section \<open>Acknowledging\<close>

lemma remove_delta_Some:
  "remove_delta i ds = Some es \<Longrightarrow>
   set es \<subseteq> set ds \<and> length es \<le> length ds \<and> (\<forall>d \<in> set ds. d \<in> set es \<or> id_delta_id d = i)"
  by (induction ds arbitrary: es) (auto split: if_splits)

definition acknowledged :: "string \<Rightarrow> scopeState \<Rightarrow> scopeState \<Rightarrow> bool" where
  "acknowledged i sc sc' \<longleftrightarrow>
     sc' = sc \<or> (\<exists>ds. remove_delta i (ss_pending sc) = Some ds \<and> sc' = sc\<lparr>ss_pending := ds\<rparr>)"

lemma ack_scopes_get:
  "gomap_get (ack_scopes i m) k = Some sc' \<Longrightarrow> \<exists>sc. gomap_get m k = Some sc \<and> acknowledged i sc sc'"
proof (induction i m rule: ack_scopes.induct)
  case (2 i c sc m)
  show ?case
  proof (cases "remove_delta i (ss_pending sc)")
    case None
    then show ?thesis
      using 2 by (cases "k = c") (simp_all add: gomap_get_def acknowledged_def)
  next
    case (Some ds)
    then have "acknowledged i sc (sc\<lparr>ss_pending := ds\<rparr>)" "acknowledged i sc' sc'"
      by (simp_all add: acknowledged_def)
    then show ?thesis
      using 2(2) Some by (cases "k = c") (simp_all add: gomap_get_def)
  qed
qed simp

lemma ack_scopes_keys [simp]: "gomap_keys (ack_scopes i m) = gomap_keys m"
  by (induction i m rule: ack_scopes.induct) (auto simp: gomap_keys_def split: option.splits)

section \<open>Steps\<close>

record sync_sys =
  y_sync :: Synchronizer
  y_due :: "string list"
  y_job :: "tick_job option"
  y_log :: "string \<Rightarrow> InventoryDelta list"
  y_acked :: "string list"

datatype sync_label =
  S_ApplyPolicy InventorySynchronizationPolicy
| S_Ack string
| S_Clock go_time
| S_RunDue
| S_TickBegin
| S_TickEnd inventory_api "nat \<Rightarrow> string option"

definition log_after ::
  "(nat \<Rightarrow> string option) \<Rightarrow> kube_error + (Snapshot \<times> bool) \<Rightarrow> tick_job \<Rightarrow> Synchronizer \<Rightarrow> InventoryDelta list \<Rightarrow>
   InventoryDelta list" where
  "log_after rand result job s recorded =
     (let scope = scope_of s (tj_scope job) in
      if ss_configVersion scope \<noteq> tj_configVersion job then recorded
      else case result of
        Inl err \<Rightarrow> recorded
      | Inr (current, truncated) \<Rightarrow>
          (case packDeltas rand (ss_connectionID scope) (tj_revision job) (tj_baseline job) (tj_observedAt job)
              (tick_changes job current) of
             None \<Rightarrow> recorded
           | Some deltas \<Rightarrow> if tj_baseline job then deltas else recorded @ deltas))"

definition sync_step :: "sync_label \<Rightarrow> sync_sys \<Rightarrow> sync_sys option" where
  "sync_step l y =
     (case l of
        S_ApplyPolicy policy \<Rightarrow> Some (y\<lparr>y_sync := ApplyPolicy policy (y_sync y)\<rparr>)
      | S_Ack deltaID \<Rightarrow> Some (y\<lparr>y_sync := Ack deltaID (y_sync y), y_acked := deltaID # y_acked y\<rparr>)
      | S_Clock now \<Rightarrow> Some (y\<lparr>y_sync := (y_sync y)\<lparr>sz_now := now\<rparr>\<rparr>)
      | S_RunDue \<Rightarrow>
          if y_due y = [] \<and> y_job y = None
          then Some (y\<lparr>y_sync := fst (RunDue (y_sync y)), y_due := snd (RunDue (y_sync y))\<rparr>) else None
      | S_TickBegin \<Rightarrow>
          (case y_due y of
             [] \<Rightarrow> None
           | connectionID # due \<Rightarrow>
               if y_job y = None then Some (y\<lparr>y_job := Some (tick_begin connectionID (y_sync y)), y_due := due\<rparr>) else None)
      | S_TickEnd api rand \<Rightarrow>
          (case y_job y of
             None \<Rightarrow> None
           | Some job \<Rightarrow>
               let result = collect (lister api) (tj_namespaces job)
               in map_option (\<lambda>s. y\<lparr>y_sync := s, y_job := None,
                    y_log := (y_log y)(tj_scope job := log_after rand result job (y_sync y) (y_log y (tj_scope job)))\<rparr>)
                    (tick_end rand result job (y_sync y))))"

definition init_sync :: "Local \<Rightarrow> (string, bool) gomap option \<Rightarrow> go_time \<Rightarrow> sync_sys" where
  "init_sync local allowed now =
     \<lparr>y_sync = NewSynchronizer local allowed now, y_due = [], y_job = None, y_log = (\<lambda>_. []), y_acked = []\<rparr>"

inductive sync_reachable :: "Local \<Rightarrow> (string, bool) gomap option \<Rightarrow> sync_sys \<Rightarrow> bool" for local allowed where
  sync_start: "sync_reachable local allowed (init_sync local allowed now)"
| sync_next: "sync_reachable local allowed y \<Longrightarrow> sync_step l y = Some y' \<Longrightarrow> sync_reachable local allowed y'"

fun sync_run :: "sync_label list \<Rightarrow> sync_sys \<Rightarrow> sync_sys option" where
  "sync_run [] y = Some y"
| "sync_run (l # ls) y = (case sync_step l y of None \<Rightarrow> None | Some y' \<Rightarrow> sync_run ls y')"

lemma sync_run_reachable:
  "sync_run ls y = Some y' \<Longrightarrow> sync_reachable local allowed y \<Longrightarrow> sync_reachable local allowed y'"
  by (induction ls arbitrary: y) (auto split: option.splits intro: sync_reachable.intros)

section \<open>The invariant\<close>

definition bounded_delta :: "InventoryDelta \<Rightarrow> bool" where
  "bounded_delta d \<longleftrightarrow> length (id_changes d) \<le> 512 \<and> list_all bounded_change (id_changes d)"

definition recorded :: "InventoryDelta list \<Rightarrow> string list \<Rightarrow> InventoryDelta list \<Rightarrow> Snapshot \<Rightarrow> bool" where
  "recorded log acked pending snapshot \<longleftrightarrow>
     replay (concat (map id_changes log)) Map.empty = revisions snapshot \<and>
     (\<forall>d \<in> set log. d \<in> set pending \<or> id_delta_id d \<in> set acked)"

definition scope_ok :: "Synchronizer \<Rightarrow> scopeState \<Rightarrow> bool" where
  "scope_ok s sc \<longleftrightarrow>
     lc_MinimumInterval (sz_local s) \<le> ss_interval sc \<and> list_all (namespaceAllowed s) (ss_namespaces sc) \<and>
     length (ss_pending sc) \<le> 64 \<and> list_all bounded_delta (ss_pending sc) \<and>
     gomap_wf (ss_snapshot sc) \<and> short_template (ss_snapshot sc)"

definition scope_recorded :: "InventoryDelta list \<Rightarrow> string list \<Rightarrow> scopeState \<Rightarrow> bool" where
  "scope_recorded log acked sc \<longleftrightarrow>
     (ss_baselined sc \<and> \<not> ss_rebaseline sc \<longrightarrow> recorded log acked (ss_pending sc) (ss_snapshot sc))"

definition scopes_inv :: "sync_sys \<Rightarrow> bool" where
  "scopes_inv y \<longleftrightarrow>
     (\<forall>k sc. gomap_get (sz_scopes (y_sync y)) k = Some sc \<longrightarrow>
        scope_ok (y_sync y) sc \<and> ss_connectionID sc = k \<and> scope_recorded (y_log y k) (y_acked y) sc)"

definition job_inv :: "sync_sys \<Rightarrow> bool" where
  "job_inv y \<longleftrightarrow>
     (\<forall>job. y_job y = Some job \<longrightarrow>
       (\<exists>sc. gomap_get (sz_scopes (y_sync y)) (tj_scope job) = Some sc \<and> tj_previous job = ss_snapshot sc \<and>
         list_all (namespaceAllowed (y_sync y)) (tj_namespaces job) \<and>
         (\<not> tj_baseline job \<longrightarrow> recorded (y_log y (tj_scope job)) (y_acked y) (ss_pending sc) (ss_snapshot sc))))"

definition sync_inv :: "sync_sys \<Rightarrow> bool" where
  "sync_inv y \<longleftrightarrow> names_ok (y_sync y) \<and> scopes_inv y \<and> job_inv y \<and>
     set (y_due y) \<subseteq> set (gomap_keys (sz_scopes (y_sync y)))"

lemma put_scope_simps [simp]:
  "sz_local (put_scope k sc s) = sz_local s" "sz_allowedNamespaces (put_scope k sc s) = sz_allowedNamespaces s"
  "sz_now (put_scope k sc s) = sz_now s" "sz_scopes (put_scope k sc s) = gomap_set k sc (sz_scopes s)"
  by (simp_all add: put_scope_def)

lemma same_constraints:
  assumes "sz_local s = sz_local t" "sz_allowedNamespaces s = sz_allowedNamespaces t"
  shows "namespaceAllowed s = namespaceAllowed t" "names_ok s = names_ok t" "scope_ok s = scope_ok t"
proof -
  show n: "namespaceAllowed s = namespaceAllowed t" using assms by (simp add: namespaceAllowed_def fun_eq_iff)
  show "names_ok s = names_ok t" using assms by (simp add: names_ok_def)
  show "scope_ok s = scope_ok t" by (intro ext) (simp only: scope_ok_def n assms)
qed

lemma scope_ok_ack:
  assumes "scope_ok s sc" "remove_delta i (ss_pending sc) = Some ds"
  shows "scope_ok s (sc\<lparr>ss_pending := ds\<rparr>)"
proof -
  have "set ds \<subseteq> set (ss_pending sc)" "length ds \<le> length (ss_pending sc)"
    using remove_delta_Some [OF assms(2)] by simp_all
  then show ?thesis using assms(1) by (auto simp: scope_ok_def list_all_iff)
qed

lemma recorded_ack:
  "recorded log acked pending snapshot \<Longrightarrow> remove_delta i pending = Some ds \<Longrightarrow> recorded log (i # acked) ds snapshot"
  using remove_delta_Some [of i pending ds] by (auto simp: recorded_def)

lemma recorded_more: "recorded log acked pending snapshot \<Longrightarrow> recorded log (i # acked) pending snapshot"
  by (auto simp: recorded_def)

lemma constraints_fixed:
  "sz_local (ApplyPolicy p s) = sz_local s" "sz_allowedNamespaces (ApplyPolicy p s) = sz_allowedNamespaces s"
  "sz_local (Ack i s) = sz_local s" "sz_allowedNamespaces (Ack i s) = sz_allowedNamespaces s"
  by (simp_all add: ApplyPolicy_def Ack_def Let_def split: option.splits)

section \<open>Preservation\<close>

lemma adopt_same [simp]:
  "ss_snapshot (adopt p i ns now e sc) = ss_snapshot sc" "ss_pending (adopt p i ns now e sc) = ss_pending sc"
  "ss_baselined (adopt p i ns now e sc) = ss_baselined sc" "ss_connectionID (adopt p i ns now e sc) = ss_connectionID sc"
  by (simp_all add: adopt_def)

lemma adopt_rebaseline: "ss_rebaseline sc \<Longrightarrow> ss_rebaseline (adopt p i ns now e sc)"
  by (simp add: adopt_def)

lemma adopt_interval:
  "scope_ok s sc \<or> \<not> e \<Longrightarrow> lc_MinimumInterval (sz_local s) \<le> i \<Longrightarrow> list_all (namespaceAllowed s) ns \<Longrightarrow>
   lc_MinimumInterval (sz_local s) \<le> ss_interval (adopt p i ns now e sc) \<and>
   list_all (namespaceAllowed s) (ss_namespaces (adopt p i ns now e sc))"
  by (auto simp: adopt_def scope_ok_def)

definition policy_scope :: "InventorySynchronizationPolicy \<Rightarrow> Synchronizer \<Rightarrow> scopeState" where
  "policy_scope p s =
     adopt p (max (sp_requested_interval p) (lc_MinimumInterval (sz_local s))) (effectiveNamespaces s (sp_namespaces p)) (sz_now s)
       (gomap_has (sz_scopes s) (sp_connection_id p))
       (case gomap_get (sz_scopes s) (sp_connection_id p) of None \<Rightarrow> new_scope (sp_connection_id p) | Some sc \<Rightarrow> sc)"

lemma ApplyPolicy_eq:
  "ApplyPolicy p s =
     (if \<not> lc_Enabled (sz_local s) \<or> sp_connection_id p = [] then s
      else put_scope (sp_connection_id p) (policy_scope p s) s)"
  by (auto simp: ApplyPolicy_def policy_scope_def Let_def max_def gomap_has_None split: option.splits)

lemma inv_policy:
  assumes "sync_inv y"
  shows "sync_inv (y\<lparr>y_sync := ApplyPolicy p (y_sync y)\<rparr>)"
proof (cases "\<not> lc_Enabled (sz_local (y_sync y)) \<or> sp_connection_id p = []")
  case True
  then show ?thesis using assms by (simp add: ApplyPolicy_eq)
next
  case False
  let ?s = "y_sync y" and ?k = "sp_connection_id p" and ?sc = "policy_scope p (y_sync y)"
  have eq: "ApplyPolicy p ?s = put_scope ?k ?sc ?s" using False by (simp add: ApplyPolicy_eq)
  have allowed: "list_all (namespaceAllowed ?s) (effectiveNamespaces ?s (sp_namespaces p))"
    using assms by (simp add: sync_inv_def effectiveNamespaces_allowed)
  have same: "namespaceAllowed (put_scope ?k ?sc ?s) = namespaceAllowed ?s" "names_ok (put_scope ?k ?sc ?s) = names_ok ?s"
    "scope_ok (put_scope ?k ?sc ?s) = scope_ok ?s"
    by (simp_all add: same_constraints [of "put_scope ?k ?sc ?s" ?s])
  have scopes: "scope_ok ?s sc \<and> ss_connectionID sc = k \<and> scope_recorded (y_log y k) (y_acked y) sc"
    if "gomap_get (sz_scopes ?s) k = Some sc" for k sc
    using assms that by (simp add: sync_inv_def scopes_inv_def)
  have new: "scope_ok ?s ?sc \<and> ss_connectionID ?sc = ?k \<and> scope_recorded (y_log y ?k) (y_acked y) ?sc"
  proof (cases "gomap_get (sz_scopes ?s) ?k")
    case None
    then show ?thesis
      using adopt_interval [of ?s "new_scope ?k" False, OF _ _ allowed]
      by (simp add: policy_scope_def gomap_has_None scope_ok_def scope_recorded_def new_scope_def short_template_def)
  next
    case (Some sc)
    then show ?thesis
      using adopt_interval [of ?s sc True, OF _ _ allowed] scopes [OF Some] adopt_rebaseline [of sc]
      by (auto simp: policy_scope_def gomap_has_None scope_ok_def scope_recorded_def)
  qed
  have kept: "ss_snapshot ?sc = ss_snapshot sc \<and> ss_pending ?sc = ss_pending sc"
    if "gomap_get (sz_scopes ?s) ?k = Some sc" for sc
    using that by (simp add: policy_scope_def)
  have "job_inv (y\<lparr>y_sync := put_scope ?k ?sc ?s\<rparr>)"
    using assms kept by (fastforce simp: sync_inv_def job_inv_def gomap_simps same)
  then show ?thesis
    using assms new scopes unfolding sync_inv_def scopes_inv_def
    by (auto simp: eq same gomap_simps gomap_keys_set)
qed

lemma inv_ack:
  assumes "sync_inv y"
  shows "sync_inv (y\<lparr>y_sync := Ack i (y_sync y), y_acked := i # y_acked y\<rparr>)"
proof -
  let ?s = "y_sync y"
  have same: "namespaceAllowed (Ack i ?s) = namespaceAllowed ?s" "names_ok (Ack i ?s) = names_ok ?s"
    "scope_ok (Ack i ?s) = scope_ok ?s"
    by (simp_all add: same_constraints [of "Ack i ?s" ?s] constraints_fixed)
  have acked: "scope_ok ?s sc' \<and> ss_connectionID sc' = k \<and> scope_recorded (y_log y k) (i # y_acked y) sc'"
    if "gomap_get (sz_scopes ?s) k = Some sc" "acknowledged i sc sc'" for k sc sc'
  proof -
    have "scope_ok ?s sc \<and> ss_connectionID sc = k \<and> scope_recorded (y_log y k) (y_acked y) sc"
      using assms that(1) by (simp add: sync_inv_def scopes_inv_def)
    then show ?thesis
      using that(2) recorded_ack recorded_more scope_ok_ack [of ?s sc i]
      by (auto simp: acknowledged_def scope_recorded_def)
  qed
  have scopes: "\<exists>sc. gomap_get (sz_scopes ?s) k = Some sc \<and> acknowledged i sc sc'"
    if "gomap_get (sz_scopes (Ack i ?s)) k = Some sc'" for k sc'
    using that ack_scopes_get by (simp add: Ack_def)
  have "scopes_inv (y\<lparr>y_sync := Ack i ?s, y_acked := i # y_acked y\<rparr>)"
    using scopes acked by (auto simp: scopes_inv_def same dest!: scopes)
  moreover have "job_inv (y\<lparr>y_sync := Ack i ?s, y_acked := i # y_acked y\<rparr>)"
    unfolding job_inv_def
  proof (intro allI impI)
    fix job
    assume "y_job (y\<lparr>y_sync := Ack i ?s, y_acked := i # y_acked y\<rparr>) = Some job"
    then obtain sc where sc: "gomap_get (sz_scopes ?s) (tj_scope job) = Some sc" "tj_previous job = ss_snapshot sc"
      "list_all (namespaceAllowed ?s) (tj_namespaces job)"
      "\<not> tj_baseline job \<longrightarrow> recorded (y_log y (tj_scope job)) (y_acked y) (ss_pending sc) (ss_snapshot sc)"
      using assms by (auto simp: sync_inv_def job_inv_def)
    from sc(1) have "tj_scope job \<in> set (gomap_keys (sz_scopes (Ack i ?s)))"
      by (simp add: Ack_def mem_gomap_keys)
    then obtain sc' where sc': "gomap_get (sz_scopes (Ack i ?s)) (tj_scope job) = Some sc'" by (auto simp: mem_gomap_keys)
    with scopes sc(1) have a: "acknowledged i sc sc'" by fastforce
    then have "ss_snapshot sc' = ss_snapshot sc" by (auto simp: acknowledged_def)
    moreover have "\<not> tj_baseline job \<longrightarrow> recorded (y_log y (tj_scope job)) (i # y_acked y) (ss_pending sc') (ss_snapshot sc')"
      using a sc(4) recorded_ack recorded_more by (auto simp: acknowledged_def)
    ultimately show "\<exists>sc. gomap_get (sz_scopes (y_sync (y\<lparr>y_sync := Ack i ?s, y_acked := i # y_acked y\<rparr>))) (tj_scope job) = Some sc \<and>
        tj_previous job = ss_snapshot sc \<and>
        list_all (namespaceAllowed (y_sync (y\<lparr>y_sync := Ack i ?s, y_acked := i # y_acked y\<rparr>))) (tj_namespaces job) \<and>
        (\<not> tj_baseline job \<longrightarrow> recorded (y_log (y\<lparr>y_sync := Ack i ?s, y_acked := i # y_acked y\<rparr>) (tj_scope job))
          (y_acked (y\<lparr>y_sync := Ack i ?s, y_acked := i # y_acked y\<rparr>)) (ss_pending sc) (ss_snapshot sc))"
      using sc' sc(2,3) by (simp add: same)
  qed
  ultimately show ?thesis using assms by (simp add: sync_inv_def same) (simp add: Ack_def)
qed

definition rescheduled :: "Synchronizer \<Rightarrow> Synchronizer \<Rightarrow> bool" where
  "rescheduled s s' \<longleftrightarrow> sz_local s' = sz_local s \<and> sz_allowedNamespaces s' = sz_allowedNamespaces s \<and>
     (\<forall>k. rel_option (\<lambda>sc sc'. \<exists>n. sc' = sc\<lparr>ss_nextDue := n\<rparr>) (gomap_get (sz_scopes s) k) (gomap_get (sz_scopes s') k))"

lemma rescheduled_refl: "rescheduled s s"
proof -
  have "\<exists>n. sc = sc\<lparr>ss_nextDue := n\<rparr>" for sc :: scopeState
    by (rule exI [of _ "ss_nextDue sc"]) simp
  then show ?thesis by (auto simp: rescheduled_def intro!: option.rel_refl)
qed

lemma rescheduled_mark_due:
  assumes "rescheduled s (fst acc)" "k \<in> set (gomap_keys (sz_scopes s))"
  shows "rescheduled s (fst (mark_due s k acc)) \<and> set (snd (mark_due s k acc)) \<subseteq> insert k (set (snd acc))"
proof -
  obtain sc where "gomap_get (sz_scopes s) k = Some sc" using assms(2) by (auto simp: mem_gomap_keys)
  then have "rel_option (\<lambda>sc sc'. \<exists>n. sc' = sc\<lparr>ss_nextDue := n\<rparr>) (gomap_get (sz_scopes s) k)
      (Some ((scope_of s k)\<lparr>ss_nextDue := n\<rparr>))" for n
    by (auto simp: scope_of_def)
  then show ?thesis using assms(1) by (auto simp: mark_due_def rescheduled_def gomap_simps Let_def)
qed

lemma rescheduled_fold:
  "rescheduled s (fst acc) \<Longrightarrow> set ks \<subseteq> set (gomap_keys (sz_scopes s)) \<Longrightarrow>
   rescheduled s (fst (fold (mark_due s) ks acc)) \<and> set (snd (fold (mark_due s) ks acc)) \<subseteq> set ks \<union> set (snd acc)"
proof (induction ks arbitrary: acc)
  case (Cons k ks)
  from rescheduled_mark_due [OF Cons.prems(1), of k] Cons.prems(2)
  have m: "rescheduled s (fst (mark_due s k acc))" "set (snd (mark_due s k acc)) \<subseteq> insert k (set (snd acc))" by auto
  from Cons.IH [OF m(1)] Cons.prems(2) m(2) show ?case by auto
qed simp

lemma inv_rescheduled:
  assumes "sync_inv y" "rescheduled (y_sync y) s'" "set due \<subseteq> set (gomap_keys (sz_scopes (y_sync y)))" "y_job y = None"
  shows "sync_inv (y\<lparr>y_sync := s', y_due := due\<rparr>)"
proof -
  let ?s = "y_sync y"
  have same: "names_ok s' = names_ok ?s" "scope_ok s' = scope_ok ?s"
    using assms(2) by (simp_all add: same_constraints [of s' ?s] rescheduled_def)
  have origin: "\<exists>sc n. gomap_get (sz_scopes ?s) k = Some sc \<and> sc' = sc\<lparr>ss_nextDue := n\<rparr>"
    if "gomap_get (sz_scopes s') k = Some sc'" for k sc'
  proof -
    from assms(2) have "rel_option (\<lambda>sc sc'. \<exists>n. sc' = sc\<lparr>ss_nextDue := n\<rparr>)
        (gomap_get (sz_scopes ?s) k) (gomap_get (sz_scopes s') k)" by (simp add: rescheduled_def)
    then show ?thesis unfolding that option_rel_Some2 by blast
  qed
  have "gomap_has (sz_scopes s') k = gomap_has (sz_scopes ?s) k" for k
  proof -
    from assms(2) have "rel_option (\<lambda>sc sc'. \<exists>n. sc' = sc\<lparr>ss_nextDue := n\<rparr>)
        (gomap_get (sz_scopes ?s) k) (gomap_get (sz_scopes s') k)" by (simp add: rescheduled_def)
    then show ?thesis unfolding gomap_has_None by (cases "gomap_get (sz_scopes ?s) k") (auto simp: option_rel_Some1)
  qed
  then have keys: "set (gomap_keys (sz_scopes s')) = set (gomap_keys (sz_scopes ?s))"
    by (auto simp: gomap_has_iff_key)
  have "scope_ok ?s sc' \<and> ss_connectionID sc' = k \<and> scope_recorded (y_log y k) (y_acked y) sc'"
    if g: "gomap_get (sz_scopes s') k = Some sc'" for k sc'
  proof -
    obtain sc n where "gomap_get (sz_scopes ?s) k = Some sc" "sc' = sc\<lparr>ss_nextDue := n\<rparr>" using origin [OF g] by blast
    then show ?thesis using assms(1) by (simp add: sync_inv_def scopes_inv_def scope_ok_def scope_recorded_def)
  qed
  then show ?thesis using assms keys by (simp add: sync_inv_def scopes_inv_def job_inv_def same)
qed

lemma inv_run_due:
  assumes "sync_inv y" "y_job y = None"
  shows "sync_inv (y\<lparr>y_sync := fst (RunDue (y_sync y)), y_due := snd (RunDue (y_sync y))\<rparr>)"
proof -
  have "set (sortedScopeIDs (y_sync y)) \<subseteq> set (gomap_keys (sz_scopes (y_sync y)))" by (simp add: sortedScopeIDs_def)
  from rescheduled_fold [of "y_sync y" "(y_sync y, [])", OF _ this] rescheduled_refl this
  show ?thesis by (intro inv_rescheduled [OF assms(1) _ _ assms(2)]) (auto simp: RunDue_def)
qed

lemma inv_tick_begin:
  assumes "sync_inv y" "y_due y = k # due"
  shows "sync_inv (y\<lparr>y_job := Some (tick_begin k (y_sync y)), y_due := due\<rparr>)"
proof -
  have "k \<in> set (gomap_keys (sz_scopes (y_sync y)))" using assms by (auto simp: sync_inv_def)
  then obtain sc where sc: "gomap_get (sz_scopes (y_sync y)) k = Some sc" by (auto simp: mem_gomap_keys)
  then have "scope_ok (y_sync y) sc" "scope_recorded (y_log y k) (y_acked y) sc"
    using assms(1) by (simp_all add: sync_inv_def scopes_inv_def)
  then have "job_inv (y\<lparr>y_job := Some (tick_begin k (y_sync y)), y_due := due\<rparr>)"
    using sc by (auto simp: job_inv_def tick_begin_def Let_def scope_of_def scope_ok_def scope_recorded_def)
  then show ?thesis using assms by (simp add: sync_inv_def scopes_inv_def)
qed

lemma bounded_deltas:
  assumes "packDeltas rand c r b time changes = Some ds" "list_all bounded_change changes"
  shows "list_all bounded_delta ds"
proof -
  have "set (id_changes d) \<subseteq> set changes" if "d \<in> set ds" for d
    using that packDeltas_changes(1) [OF assms(1)] by force
  then show ?thesis
    using packDeltas_changes(2) [OF assms(1)] assms(2) by (auto simp: list_all_iff bounded_delta_def)
qed

lemma complete_tick_ok:
  assumes sc: "scope_ok s sc"
    and job: "tj_previous job = ss_snapshot sc"
      "\<not> tj_baseline job \<longrightarrow> recorded log acked (ss_pending sc) (ss_snapshot sc)"
    and current: "gomap_wf current" "short_template current"
    and ds: "packDeltas rand c r (tj_baseline job) time (tick_changes job current) = Some ds"
  shows "scope_ok s (complete_tick job current truncated ds sc) \<and>
    scope_recorded (if tj_baseline job then ds else log @ ds) acked (complete_tick job current truncated ds sc)"
proof -
  have "list_all bounded_change (tick_changes job current)"
    using sc job(1) current bounded_Baseline bounded_Diff by (simp add: tick_changes_def scope_ok_def)
  from bounded_deltas [OF ds this] have b: "list_all bounded_delta ds" .
  have changes: "concat (map id_changes ds) = tick_changes job current" by (rule packDeltas_changes(1) [OF ds])
  have "replay (concat (map id_changes (if tj_baseline job then ds else log @ ds))) Map.empty = revisions current"
  proof (cases "tj_baseline job")
    case True
    then show ?thesis using changes by (simp add: tick_changes_def replay_Baseline)
  next
    case False
    then have "replay (concat (map id_changes log)) Map.empty = revisions (tj_previous job)"
      using job by (simp add: recorded_def)
    then show ?thesis using False changes by (simp add: tick_changes_def replay_append replay_Diff)
  qed
  moreover have "\<forall>d \<in> set (if tj_baseline job then ds else log @ ds). d \<in> set (ss_pending sc @ ds) \<or> id_delta_id d \<in> set acked"
    using job(2) by (auto simp: recorded_def)
  ultimately have "recorded (if tj_baseline job then ds else log @ ds) acked (ss_pending sc @ ds) current"
    unfolding recorded_def by blast
  then show ?thesis
    using sc current b
    by (simp add: complete_tick_def Let_def scope_ok_def scope_recorded_def maxPendingDeltas_def)
qed

lemma inv_put_scope:
  assumes y: "sync_inv y" and sc: "scope_ok (y_sync y) sc" "ss_connectionID sc = k" "scope_recorded log (y_acked y) sc"
  shows "sync_inv (y\<lparr>y_sync := put_scope k sc (y_sync y), y_job := None, y_log := (y_log y)(k := log)\<rparr>)"
proof -
  let ?s = "y_sync y"
  have same: "names_ok (put_scope k sc ?s) = names_ok ?s" "scope_ok (put_scope k sc ?s) = scope_ok ?s"
    by (simp_all add: same_constraints [of "put_scope k sc ?s" ?s])
  show ?thesis using assms
    by (auto simp: sync_inv_def scopes_inv_def job_inv_def same gomap_simps gomap_keys_set)
qed

lemma inv_tick_end:
  assumes y: "sync_inv y" and job: "y_job y = Some job"
    and result: "result = collect (lister api) (tj_namespaces job)"
    and e: "tick_end rand result job (y_sync y) = Some s'"
  shows "sync_inv (y\<lparr>y_sync := s', y_job := None,
    y_log := (y_log y)(tj_scope job := log_after rand result job (y_sync y) (y_log y (tj_scope job)))\<rparr>)"
proof -
  let ?s = "y_sync y" and ?k = "tj_scope job"
  obtain sc where sc: "gomap_get (sz_scopes ?s) ?k = Some sc" "tj_previous job = ss_snapshot sc"
    "\<not> tj_baseline job \<longrightarrow> recorded (y_log y ?k) (y_acked y) (ss_pending sc) (ss_snapshot sc)"
    using y job by (auto simp: sync_inv_def job_inv_def)
  have ok: "scope_ok ?s sc" "ss_connectionID sc = ?k" "scope_recorded (y_log y ?k) (y_acked y) sc"
    using y sc(1) by (simp_all add: sync_inv_def scopes_inv_def)
  have of: "scope_of ?s ?k = sc" using sc(1) by (simp add: scope_of_def)
  consider (stale) "ss_configVersion sc \<noteq> tj_configVersion job"
    | (failed) err where "ss_configVersion sc = tj_configVersion job" "result = Inl err"
    | (read) current truncated where "ss_configVersion sc = tj_configVersion job" "result = Inr (current, truncated)"
    by (cases result) auto
  then show ?thesis
  proof cases
    case stale
    then have "s' = ?s" using e by (simp add: tick_end_def of)
    moreover have "log_after rand result job ?s (y_log y ?k) = y_log y ?k" using stale by (simp add: log_after_def of)
    ultimately show ?thesis using y by (simp add: sync_inv_def scopes_inv_def job_inv_def)
  next
    case failed
    then have "s' = put_scope ?k (sc\<lparr>ss_faulted := True\<rparr>) ?s" "log_after rand result job ?s (y_log y ?k) = y_log y ?k"
      using e by (simp_all add: tick_end_def log_after_def of)
    moreover have "scope_ok ?s (sc\<lparr>ss_faulted := True\<rparr>)" "scope_recorded (y_log y ?k) (y_acked y) (sc\<lparr>ss_faulted := True\<rparr>)"
      using ok by (simp_all add: scope_ok_def scope_recorded_def)
    ultimately show ?thesis using inv_put_scope [OF y, of "sc\<lparr>ss_faulted := True\<rparr>" ?k "y_log y ?k"] ok(2) by simp
  next
    case read
    then obtain ds where ds: "packDeltas rand (ss_connectionID sc) (tj_revision job) (tj_baseline job) (tj_observedAt job)
        (tick_changes job current) = Some ds" and s': "s' = put_scope ?k (complete_tick job current truncated ds sc) ?s"
      using e by (auto simp: tick_end_def of)
    have "gomap_wf current \<and> short_template current"
      using listed.collect_good read(2) result by metis
    with complete_tick_ok [OF ok(1) sc(2,3) _ _ ds]
    have "scope_ok ?s (complete_tick job current truncated ds sc)"
      "scope_recorded (if tj_baseline job then ds else y_log y ?k @ ds) (y_acked y) (complete_tick job current truncated ds sc)"
      by auto
    moreover have "ss_connectionID (complete_tick job current truncated ds sc) = ?k"
      using ok(2) by (simp add: complete_tick_def Let_def)
    moreover have "log_after rand result job ?s (y_log y ?k) = (if tj_baseline job then ds else y_log y ?k @ ds)"
      using read ds by (simp add: log_after_def of)
    ultimately show ?thesis using inv_put_scope [OF y] s' by simp
  qed
qed

lemma inv_clock: "sync_inv y \<Longrightarrow> sync_inv (y\<lparr>y_sync := (y_sync y)\<lparr>sz_now := now\<rparr>\<rparr>)"
proof -
  let ?s = "(y_sync y)\<lparr>sz_now := now\<rparr>"
  have "namespaceAllowed ?s = namespaceAllowed (y_sync y)" "names_ok ?s = names_ok (y_sync y)" "scope_ok ?s = scope_ok (y_sync y)"
    by (simp_all add: same_constraints [of ?s "y_sync y"])
  then show "sync_inv y \<Longrightarrow> ?thesis" by (simp add: sync_inv_def scopes_inv_def job_inv_def)
qed

lemma inv_step: "sync_inv y \<Longrightarrow> sync_step l y = Some y' \<Longrightarrow> sync_inv y'"
  by (cases l) (auto simp: sync_step_def Let_def inv_policy inv_ack inv_clock inv_run_due inv_tick_begin inv_tick_end
      split: if_splits list.splits option.splits)

lemma names_fixed:
  assumes "sync_step l y = Some y'"
  shows "sz_local (y_sync y') = sz_local (y_sync y)" "sz_allowedNamespaces (y_sync y') = sz_allowedNamespaces (y_sync y)"
proof -
  have "sz_local (fst (fold (mark_due s) ks acc)) = sz_local (fst acc) \<and>
      sz_allowedNamespaces (fst (fold (mark_due s) ks acc)) = sz_allowedNamespaces (fst acc)" for s ks acc
    by (induction ks arbitrary: acc) (auto simp: mark_due_def Let_def)
  then show "sz_local (y_sync y') = sz_local (y_sync y)" "sz_allowedNamespaces (y_sync y') = sz_allowedNamespaces (y_sync y)"
    using assms
    by (auto simp: sync_step_def Let_def constraints_fixed RunDue_def tick_end_def
        split: sync_label.splits if_splits list.splits option.splits sum.splits)
qed

lemma sync_reachable_inv:
  assumes "sync_reachable local allowed y" "local_ok local" "case allowed of None \<Rightarrow> True | Some m \<Rightarrow> true_set m"
  shows "sync_inv y \<and> sz_local (y_sync y) = local \<and> sz_allowedNamespaces (y_sync y) = allowed"
  using assms(1)
proof induction
  case (sync_start now)
  then show ?case
    using assms(2,3)
    by (simp add: sync_inv_def scopes_inv_def job_inv_def init_sync_def NewSynchronizer_def names_ok_def)
next
  case (sync_next y l y')
  then show ?case using inv_step names_fixed by metis
qed

end
