(* ===== verification/Inventory_Properties.thy ===== *)
theory Inventory_Properties
  imports Inventory_Run
begin

text \<open>
  The properties of the inventory synchronization: what its ledger of deltas says about the cluster, its bounds, and
  the packing of changes into messages.
\<close>

section \<open>An example run\<close>

definition sync_example_meta :: ObjectMeta where
  "sync_example_meta = \<lparr>om_Name = ''web'', om_Namespace = ''dev'', om_UID = ''u1'', om_Generation = 2,
     om_CreationTimestamp = zero_time, om_Annotations = []\<rparr>"

definition sync_example_daemon :: DaemonSet where
  "sync_example_daemon = \<lparr>ds_Meta = sync_example_meta,
     ds_Template = \<lparr>sp_InitContainers = [], sp_Containers = [], sp_EphemeralContainers = [], sp_NodeName = [],
       sp_Volumes = [], sp_ImagePullSecrets = [], sp_other = []\<rparr>,
     ds_Selector = None, ds_DesiredNumberScheduled = 1, ds_NumberReady = 1, ds_UpdatedNumberScheduled = 1,
     ds_NumberAvailable = 1, ds_ObservedGeneration = 2\<rparr>"

definition sync_example_inventory_api :: inventory_api where
  "sync_example_inventory_api =
     \<lparr>ia_deployments = (\<lambda>_ _. Inr ([], [])), ia_statefulsets = (\<lambda>_ _. Inr ([], [])),
      ia_daemonsets = (\<lambda>_ _. Inr ([sync_example_daemon], [])), ia_metadata = (\<lambda>_ _ _. Inr ([], [])),
      ia_marshal = (\<lambda>_. None)\<rparr>"

definition sync_example_policy :: InventorySynchronizationPolicy where
  "sync_example_policy = \<lparr>sp_connection_id = ''c1'', sp_revision = 1, sp_namespaces = [''dev'', ''prod''], sp_requested_interval = 0\<rparr>"

definition sync_example_allowed :: "(string, bool) gomap" where
  "sync_example_allowed = [(''dev'', True)]"

definition sync_example_steps :: "sync_label list" where
  "sync_example_steps = [S_ApplyPolicy sync_example_policy, S_RunDue, S_TickBegin, S_TickEnd sync_example_inventory_api (\<lambda>_. Some ''id'')]"

text \<open>The run by hand, so that its digest is never computed.\<close>

definition sync_example_snapshot :: Snapshot where
  "sync_example_snapshot = [workloadState (daemonSetIntent sync_example_inventory_api sync_example_daemon)]"

definition sync_example_delta :: InventoryDelta where
  "sync_example_delta = \<lparr>id_delta_id = EncodeToString ''id'', id_connection_id = ''c1'', id_policy_revision = 1,
     id_baseline = True, id_observed_at = 0, id_changes = Baseline sync_example_snapshot\<rparr>"

definition sync_example_scope :: scopeState where
  "sync_example_scope = (adopt sync_example_policy (30 * Second) [''dev''] 0 False (new_scope ''c1''))
     \<lparr>ss_nextDue := 30 * Second, ss_pending := [sync_example_delta], ss_snapshot := sync_example_snapshot,
      ss_baselined := True, ss_lastCompleted := 0\<rparr>"

lemma sync_example_adopted:
  "ApplyPolicy sync_example_policy (NewSynchronizer DefaultLocal (Some sync_example_allowed) 0) =
     put_scope ''c1'' (adopt sync_example_policy (30 * Second) [''dev''] 0 False (new_scope ''c1''))
       (NewSynchronizer DefaultLocal (Some sync_example_allowed) 0)"
proof -
  have "effectiveNamespaces (NewSynchronizer DefaultLocal (Some sync_example_allowed) 0) [''dev'', ''prod''] = [''dev'']"
    by code_simp
  then show ?thesis
    by (simp add: ApplyPolicy_def sync_example_policy_def NewSynchronizer_def DefaultLocal_def defaultMinimumInterval_def
        Second_def)
qed

definition sync_example_first :: Synchronizer where
  "sync_example_first = NewSynchronizer DefaultLocal (Some sync_example_allowed) 0"

definition sync_example_adopt :: scopeState where
  "sync_example_adopt = adopt sync_example_policy (30 * Second) [''dev''] 0 False (new_scope ''c1'')"

lemma sync_example_due:
  "RunDue (put_scope ''c1'' sync_example_adopt sync_example_first) =
     (put_scope ''c1'' (sync_example_adopt\<lparr>ss_nextDue := 30 * Second\<rparr>) sync_example_first, [''c1''])"
  by (simp add: RunDue_def sortedScopeIDs_def sync_example_first_def NewSynchronizer_def put_scope_def gomap_set_def
      gomap_keys_def sort_strings_def sort_slice_def mark_due_def scope_of_def gomap_get_def sync_example_adopt_def
      adopt_def new_scope_def)

lemma sync_example_collect: "collect (lister sync_example_inventory_api) [''dev''] = Inr (sync_example_snapshot, False)"
proof -
  have w: "ListWorkloadIntents sync_example_inventory_api ''dev'' 500 =
      Inr \<lparr>ip_Workloads = [daemonSetIntent sync_example_inventory_api sync_example_daemon], ip_Truncated = False\<rparr>"
    by (simp add: ListWorkloadIntents_def sync_example_inventory_api_def)
  have v: "listVersions sync_example_inventory_api resource ''dev'' 500 = Inr \<lparr>cp_Versions = [], cp_Truncated = False\<rparr>" for resource
    by (simp add: listVersions_def sync_example_inventory_api_def)
  show ?thesis
    by (simp add: collect_def lister_def listLimit_def w v ListConfigMapVersions_def ListSecretVersions_def
        add_versions_def add_intent_def put_state_def sync_example_snapshot_def gomap_set_def)
qed

lemma sync_example_pack:
  "packDeltas (\<lambda>_. Some ''id'') ''c1'' 1 True 0 (Baseline sync_example_snapshot) = Some [sync_example_delta]"
proof -
  have "length (Baseline sync_example_snapshot) = 1"
    by (simp add: Baseline_def sortedKeys_def sync_example_snapshot_def gomap_keys_def)
  then have "Baseline sync_example_snapshot \<noteq> []" "length (Baseline sync_example_snapshot) \<le> 512" by auto
  then show ?thesis
    by (simp add: packDeltas_def pack_loop.simps newDeltaID_def maxChangesPerDelta_def sync_example_delta_def Let_def)
qed

definition sync_example_end :: sync_sys where
  "sync_example_end =
     \<lparr>y_sync = put_scope ''c1'' (sync_example_adopt\<lparr>ss_nextDue := 30 * Second, ss_pending := [sync_example_delta],
        ss_rebaseline := False, ss_snapshot := sync_example_snapshot, ss_baselined := True, ss_faulted := False,
        ss_truncated := False, ss_lastCompleted := 0\<rparr>) sync_example_first,
      y_due = [], y_job = None, y_log = (\<lambda>_. [])(''c1'' := [sync_example_delta]), y_acked = []\<rparr>"

lemma sync_example_run: "sync_run sync_example_steps (init_sync DefaultLocal (Some sync_example_allowed) 0) = Some sync_example_end"
proof -
  let ?s1 = "put_scope ''c1'' (sync_example_adopt\<lparr>ss_nextDue := 30 * Second\<rparr>) sync_example_first"
  have of: "scope_of ?s1 ''c1'' = sync_example_adopt\<lparr>ss_nextDue := 30 * Second\<rparr>"
    by (simp add: scope_of_def gomap_simps)
  have fields: "ss_namespaces sync_example_adopt = [''dev'']" "ss_pending sync_example_adopt = []" "ss_baselined sync_example_adopt = False"
    "ss_policyRevision sync_example_adopt = 1" "ss_connectionID sync_example_adopt = ''c1''" "sz_now sync_example_first = 0"
    by (simp_all add: sync_example_adopt_def adopt_def new_scope_def sync_example_policy_def sync_example_first_def NewSynchronizer_def)
  have twice: "put_scope ''c1'' sc ?s1 = put_scope ''c1'' sc sync_example_first" for sc
    by (simp add: put_scope_def gomap_set_def sync_example_first_def NewSynchronizer_def)
  have e: "tick_end (\<lambda>_. Some ''id'') (Inr (sync_example_snapshot, False)) (tick_begin ''c1'' ?s1) ?s1 =
      Some (y_sync sync_example_end)"
    by (simp add: tick_end_def tick_begin_def Let_def of fields tick_changes_def sync_example_pack complete_tick_def
        maxPendingDeltas_def twice sync_example_end_def)
  have l: "log_after (\<lambda>_. Some ''id'') (Inr (sync_example_snapshot, False)) (tick_begin ''c1'' ?s1) ?s1 [] = [sync_example_delta]"
    by (simp add: log_after_def tick_begin_def Let_def of fields tick_changes_def sync_example_pack)
  have "tj_namespaces (tick_begin ''c1'' ?s1) = [''dev'']" "tj_scope (tick_begin ''c1'' ?s1) = ''c1''"
    by (simp_all add: tick_begin_def Let_def of fields)
  with e l show ?thesis
    by (simp add: sync_example_steps_def sync_step_def init_sync_def sync_example_first_def [symmetric]
        sync_example_adopt_def [symmetric] sync_example_adopted [folded sync_example_first_def sync_example_adopt_def] sync_example_due
        sync_example_collect) (simp add: sync_example_end_def)
qed

lemma sync_example_reachable: "sync_reachable DefaultLocal (Some sync_example_allowed) sync_example_end"
  by (rule sync_run_reachable [OF sync_example_run]) (rule sync_start)

section \<open>The ledger\<close>

text \<open>C1: Whatever policies, acknowledgements and ticks interleave (internal/inventory/sync.go), a scope that has a
  baseline and no new one scheduled is described exactly by the deltas queued since that baseline: replaying them
  gives the revision of every object of its last snapshot and of nothing else, and each of those deltas is still
  pending or was acknowledged. Nothing is dropped silently.\<close>

theorem inventory_ledger_exact:
  assumes "sync_reachable local allowed y" "local_ok local" "case allowed of None \<Rightarrow> True | Some m \<Rightarrow> true_set m"
    and "gomap_get (sz_scopes (y_sync y)) k = Some sc" "ss_baselined sc" "\<not> ss_rebaseline sc"
  shows "replay (concat (map id_changes (y_log y k))) Map.empty = revisions (ss_snapshot sc) \<and>
    set (y_log y k) \<subseteq> set (ss_pending sc) \<union> {d. id_delta_id d \<in> set (y_acked y)}"
  using sync_reachable_inv [OF assms(1-3)] assms(4-6)
  by (auto simp: sync_inv_def scopes_inv_def scope_recorded_def recorded_def)

theorem inventory_ledger_exact_witness:
  "replay (concat (map id_changes (y_log sync_example_end ''c1''))) Map.empty = revisions sync_example_snapshot \<and>
   revisions sync_example_snapshot \<noteq> Map.empty"
proof -
  have ok: "local_ok DefaultLocal" "case Some sync_example_allowed of None \<Rightarrow> True | Some m \<Rightarrow> true_set m"
    by (simp_all add: DefaultLocal_ok sync_example_allowed_def true_set_def gomap_get_def)
  obtain sc where sc: "gomap_get (sz_scopes (y_sync sync_example_end)) ''c1'' = Some sc" "ss_baselined sc" "\<not> ss_rebaseline sc"
    "ss_snapshot sc = sync_example_snapshot"
    by (simp add: sync_example_end_def gomap_simps)
  have "revisions sync_example_snapshot (fst (hd sync_example_snapshot)) \<noteq> None"
    by (simp add: sync_example_snapshot_def revisions_def gomap_get_def)
  then show ?thesis
    using inventory_ledger_exact [OF sync_example_reachable ok sc(1-3)] sc(4) by fastforce
qed



section \<open>Differences\<close>

text \<open>C8: Diff (internal/inventory/diff.go) and replay are inverse: applying the reported changes to the revisions of
  the earlier snapshot gives those of the later one, a baseline gives them from nothing, and a snapshot compared
  with itself reports nothing. The changes name exactly the objects whose revision moved, each at most once.\<close>

theorem inventory_diff_roundtrip:
  assumes "gomap_wf previous" "gomap_wf current"
  shows "replay (Diff previous current) (revisions previous) = revisions current \<and>
    replay (Baseline current) Map.empty = revisions current \<and> Diff current current = [] \<and>
    change_key ` set (Diff previous current) = {k. revisions previous k \<noteq> revisions current k} \<and>
    distinct (map change_key (Diff previous current))"
proof -
  have "ch \<notin> set (Diff current current)" for ch using Diff_mem(2) [of ch current current] by auto
  then have "Diff current current = []" by (cases "Diff current current") auto
  moreover have "change_key ` set (Diff previous current) = {k. revisions previous k \<noteq> revisions current k}"
    using Diff_mem(2) Diff_complete by auto
  ultimately show ?thesis using replay_Diff replay_Baseline Diff_distinct [OF assms] by simp
qed

theorem inventory_diff_roundtrip_witness:
  "replay (Diff [] sync_example_snapshot) (revisions []) = revisions sync_example_snapshot \<and> Diff sync_example_snapshot sync_example_snapshot = []"
proof -
  have "gomap_wf ([] :: Snapshot)" "gomap_wf sync_example_snapshot" by (simp_all add: sync_example_snapshot_def gomap_wf_def)
  from inventory_diff_roundtrip [OF this] show ?thesis by blast
qed

text \<open>C20: The changes of an object's fields (internal/inventory/diff.go, fieldDifferences) are itemized exactly: in
  the order of the names, every field that differs other than the template digest; and the digest itself, last,
  exactly when it differs and no itemized field lies in the template.\<close>

theorem inventory_fields_exact:
  "let names = map fc_field (fieldDifferences before after) in
   set names - {''spec.template''} = {name. field before name \<noteq> field after name} - {''spec.template''} \<and>
   (''spec.template'' \<in> set names \<longleftrightarrow> field before ''spec.template'' \<noteq> field after ''spec.template'' \<and>
      \<not> (\<exists>name. isTemplateField name \<and> field before name \<noteq> field after name)) \<and>
   sorted_wrt (<) (filter (\<lambda>name. name \<noteq> ''spec.template'') names)"
proof -
  let ?names = "filter (moved before after) (sortedFieldNames before after)"
  have f: "fc_field (field_change before after name) = name" for name by (simp add: field_change_def)
  have known: "name \<in> set (sortedFieldNames before after)" if "field before name \<noteq> field after name" for name
    using that sortedFieldNames_exact [of before after]
    by (auto simp: field_def mem_gomap_keys split: option.splits)
  have t: "isTemplateField name \<Longrightarrow> name \<noteq> ''spec.template''" for name by (auto simp: isTemplateField_def)
  have itemized: "list_ex isTemplateField ?names \<longleftrightarrow> (\<exists>name. isTemplateField name \<and> field before name \<noteq> field after name)"
    using known t by (auto simp: list_ex_iff moved_def)
  have names: "map fc_field (fieldDifferences before after) = ?names @
      (if field before ''spec.template'' \<noteq> field after ''spec.template'' \<and> \<not> list_ex isTemplateField ?names
       then [''spec.template''] else [])"
    by (simp add: fieldDifferences_eq Let_def f comp_def)
  have m: "moved before after name \<Longrightarrow> name \<noteq> ''spec.template''" for name by (simp add: moved_def)
  have "filter (\<lambda>name. name \<noteq> ''spec.template'') (map fc_field (fieldDifferences before after)) = ?names"
    unfolding names using m by (auto intro!: filter_cong)
  moreover have "sorted_wrt (<) ?names" using sortedFieldNames_exact sorted_wrt_filter by blast
  ultimately show ?thesis
    using known m unfolding Let_def by (simp only:) (auto simp: names itemized [symmetric] moved_def)
qed

section \<open>Packing\<close>

text \<open>C22: The packing loop (internal/inventory/sync.go, packDeltas) ends on every list of changes and loses nothing:
  while randomness is available it returns deltas whose changes are the given ones in order, at most 512 each, as
  few as that allows, with one empty delta for an empty baseline and none for an empty difference; each carries
  the scope, the revision, the baseline mark and the time it was given.\<close>

theorem inventory_packing_total:
  assumes "\<And>n. rand n \<noteq> None"
  shows "\<exists>ds. packDeltas rand c r baseline time changes = Some ds \<and> concat (map id_changes ds) = changes \<and>
    list_all (\<lambda>d. length (id_changes d) \<le> 512) ds \<and>
    length ds = (if changes = [] then (if baseline then 1 else 0) else (length changes + 511) div 512) \<and>
    list_all (\<lambda>d. id_connection_id d = c \<and> id_policy_revision d = r \<and> id_baseline d = baseline \<and> id_observed_at d = time) ds"
proof -
  obtain ds where "packDeltas rand c r baseline time changes = Some ds"
    using pack_loop_total [OF assms] by (fastforce simp: packDeltas_def)
  with packDeltas_changes [OF this] show ?thesis by (intro exI [of _ ds] conjI)
qed

theorem inventory_packing_total_witness:
  "\<exists>ds. packDeltas (\<lambda>_. Some ''id'') ''c1'' 1 True 0 (replicate 513 (objectChange (fst (hd sync_example_snapshot)) [] CHANGE_DELETED [])) =
    Some ds \<and> length ds = 2"
  using inventory_packing_total [of "\<lambda>_. Some ''id''" "''c1''" 1 True 0
      "replicate 513 (objectChange (fst (hd sync_example_snapshot)) [] CHANGE_DELETED [])"] by auto

end
