(* ===== verification/Spec2Isabelle.thy ===== *)
theory Spec2Isabelle
  imports Session_Properties Redaction_Properties Capability_Properties Inventory_Properties
begin

text \<open>
  Verification library for the OpenCluster Relay.
\<close>

end
